(* ===== verification/Gateway_Prelude.thy ===== *)
theory Gateway_Prelude
  imports Main "HOL-Library.Word"
begin

text \<open>
  The prelude of the development: the result type of the fallible operations, the machine
  arithmetic of Rust that the components use (\<open>checked_add\<close>, \<open>saturating_add\<close>,
  \<open>saturating_sub\<close>, \<open>saturating_mul\<close>), and the operations of \<open>str\<close> and of byte slices.
  A Rust \<open>String\<close> is its UTF-8 byte sequence, a \<open>string\<close> whose characters are bytes: so
  \<open>length\<close> is \<open>str::len\<close>, and the operations that look at ASCII bytes only
  are exact on every string.
\<close>

section \<open>Results\<close>

text \<open>Rust's \<open>Result<T, E>\<close>: \<open>Inl\<close> is \<open>Err\<close>, \<open>Inr\<close> is \<open>Ok\<close>.\<close>

abbreviation Err :: "'e \<Rightarrow> 'e + 'a" where "Err \<equiv> Inl"
abbreviation Ok :: "'a \<Rightarrow> 'e + 'a" where "Ok \<equiv> Inr"

definition is_ok :: "'e + 'a \<Rightarrow> bool" where
  "is_ok r = (case r of Inl _ \<Rightarrow> False | Inr _ \<Rightarrow> True)"

definition ok_or :: "'e \<Rightarrow> 'a option \<Rightarrow> 'e + 'a" where
  "ok_or e x = (case x of None \<Rightarrow> Inl e | Some v \<Rightarrow> Inr v)"

definition and_then :: "'e + 'a \<Rightarrow> ('a \<Rightarrow> 'e + 'b) \<Rightarrow> 'e + 'b" where
  "and_then r f = (case r of Inl e \<Rightarrow> Inl e | Inr v \<Rightarrow> f v)"

named_theorems rust_std \<open>unfolding rules of the modelled standard library\<close>

lemma is_ok_simps [simp]: "is_ok (Inr v)" "\<not> is_ok (Inl e)"
  by (simp_all add: is_ok_def)

lemma ok_or_simps [simp]: "ok_or e None = Inl e" "ok_or e (Some v) = Inr v"
  by (simp_all add: ok_or_def)

lemma ok_or_eq_Inr [simp]: "ok_or e x = Inr v \<longleftrightarrow> x = Some v"
  by (cases x) auto

lemma and_then_simps [simp]: "and_then (Inl e) f = Inl e" "and_then (Inr v) f = f v"
  by (simp_all add: and_then_def)

lemma and_then_eq_Inr [simp]:
  "and_then r f = Inr w \<longleftrightarrow> (\<exists>v. r = Inr v \<and> f v = Inr w)"
  by (cases r) auto

section \<open>Machine arithmetic\<close>

text \<open>
  \<open>usize\<close> and \<open>u64\<close> are 64 bits wide on the targets the gateway is built for. Values that
  are only counted are naturals below \<open>u64_bound\<close>, with overflow written out.
\<close>

definition u64_bound :: nat where "u64_bound = 2 ^ 64"
definition u32_bound :: nat where "u32_bound = 2 ^ 32"

definition checked_add :: "nat \<Rightarrow> nat \<Rightarrow> nat option" where
  "checked_add a b = (if a + b < u64_bound then Some (a + b) else None)"

definition saturating_add :: "nat \<Rightarrow> nat \<Rightarrow> nat" where
  "saturating_add a b = min (u64_bound - 1) (a + b)"

lemma checked_add_Some [simp]:
  "checked_add a b = Some c \<longleftrightarrow> c = a + b \<and> a + b < u64_bound"
  by (auto simp: checked_add_def)

lemma checked_add_None [simp]: "checked_add a b = None \<longleftrightarrow> u64_bound \<le> a + b"
  by (auto simp: checked_add_def)

lemma saturating_add_le: "saturating_add a b \<le> a + b"
  by (simp add: saturating_add_def)

lemma saturating_add_exact: "a + b < u64_bound \<Longrightarrow> saturating_add a b = a + b"
  by (simp add: saturating_add_def)

text \<open>The same at the word level, where the source does arithmetic that can overflow.\<close>

definition saturating_mul64 :: "64 word \<Rightarrow> 64 word \<Rightarrow> 64 word" where
  "saturating_mul64 a b = (if unat a * unat b < 2 ^ 64 then a * b else - 1)"

definition checked_shl64 :: "64 word \<Rightarrow> nat \<Rightarrow> 64 word option" where
  "checked_shl64 a n = (if n < 64 then Some (push_bit n a) else None)"

lemma unat_saturating_mul64:
  "unat (saturating_mul64 a b) = min (2 ^ 64 - 1) (unat a * unat b)"
proof (cases "unat a * unat b < 2 ^ 64")
  case True
  then show ?thesis by (simp add: saturating_mul64_def unat_word_ariths)
next
  case False
  have "(- 1 :: 64 word) = of_nat (2 ^ 64 - 1)" by simp
  then have "unat (- 1 :: 64 word) = 2 ^ 64 - 1"
    by (simp only: unat_of_nat) simp
  with False show ?thesis by (simp add: saturating_mul64_def)
qed

lemma unat_shl64_one: "n < 64 \<Longrightarrow> unat (push_bit n (1 :: 64 word)) = 2 ^ n"
proof -
  assume n: "n < 64"
  then have "(2 :: nat) ^ n < 2 ^ 64" by (rule power_strict_increasing) simp
  moreover have "push_bit n (1 :: 64 word) = of_nat (2 ^ n)" by (simp add: push_bit_eq_mult)
  ultimately show ?thesis by (simp only: unat_of_nat) simp
qed

section \<open>Bytes and strings\<close>

definition byte :: "char \<Rightarrow> nat" where "byte c = of_char c"

abbreviation LF :: char where "LF \<equiv> CHR 0x0A"
abbreviation CR :: char where "CR \<equiv> CHR 0x0D"

definition is_ascii_digit :: "char \<Rightarrow> bool" where
  "is_ascii_digit c \<longleftrightarrow> 48 \<le> byte c \<and> byte c \<le> 57"

definition is_ascii_uppercase :: "char \<Rightarrow> bool" where
  "is_ascii_uppercase c \<longleftrightarrow> 65 \<le> byte c \<and> byte c \<le> 90"

definition is_ascii_lowercase :: "char \<Rightarrow> bool" where
  "is_ascii_lowercase c \<longleftrightarrow> 97 \<le> byte c \<and> byte c \<le> 122"

definition is_ascii_alphanumeric :: "char \<Rightarrow> bool" where
  "is_ascii_alphanumeric c \<longleftrightarrow>
     is_ascii_digit c \<or> is_ascii_uppercase c \<or> is_ascii_lowercase c"

definition ascii_lower_char :: "char \<Rightarrow> char" where
  "ascii_lower_char c = (if is_ascii_uppercase c then char_of (byte c + 32) else c)"

definition to_ascii_lowercase :: "string \<Rightarrow> string" where
  "to_ascii_lowercase = map ascii_lower_char"

definition eq_ignore_ascii_case :: "string \<Rightarrow> string \<Rightarrow> bool" where
  "eq_ignore_ascii_case a b \<longleftrightarrow> to_ascii_lowercase a = to_ascii_lowercase b"

lemma length_to_ascii_lowercase [simp]: "length (to_ascii_lowercase s) = length s"
  by (simp add: to_ascii_lowercase_def)

lemma to_ascii_lowercase_append [simp]:
  "to_ascii_lowercase (a @ b) = to_ascii_lowercase a @ to_ascii_lowercase b"
  by (simp add: to_ascii_lowercase_def)

lemma byte_bound: "byte c < 256"
  by (simp add: byte_def)

lemma ascii_lower_char_idem [simp]: "ascii_lower_char (ascii_lower_char c) = ascii_lower_char c"
proof (cases "is_ascii_uppercase c")
  case True
  then have b: "byte c + 32 < 256" "97 \<le> byte c + 32"
    by (auto simp: is_ascii_uppercase_def)
  then have "byte (char_of (byte c + 32)) = byte c + 32"
    by (simp add: byte_def)
  with True b show ?thesis
    by (auto simp: ascii_lower_char_def is_ascii_uppercase_def)
next
  case False
  then show ?thesis by (simp add: ascii_lower_char_def)
qed

lemma to_ascii_lowercase_idem [simp]:
  "to_ascii_lowercase (to_ascii_lowercase s) = to_ascii_lowercase s"
  by (simp add: to_ascii_lowercase_def)

end
