(* ===== verification/Rust_Str.thy ===== *)
theory Rust_Str
  imports Gateway_Prelude
begin

text \<open>
  The operations of Rust's \<open>str\<close> that the components use, on UTF-8 byte sequences:
  prefixes, splitting, trimming (with the Unicode white space of \<open>char::is_whitespace\<close> as its
  UTF-8 encodings), \<open>lines\<close>, substring search and the validity check of \<open>from_utf8\<close>.
\<close>

section \<open>Prefixes, splitting, searching\<close>

fun strip_prefix :: "string \<Rightarrow> string \<Rightarrow> string option" where
  "strip_prefix [] s = Some s"
| "strip_prefix (p # ps) [] = None"
| "strip_prefix (p # ps) (c # cs) = (if p = c then strip_prefix ps cs else None)"

definition starts_with :: "string \<Rightarrow> string \<Rightarrow> bool" where
  "starts_with p s \<longleftrightarrow> strip_prefix p s \<noteq> None"

definition ends_with :: "string \<Rightarrow> string \<Rightarrow> bool" where
  "ends_with p s \<longleftrightarrow> starts_with (rev p) (rev s)"

fun contains :: "string \<Rightarrow> string \<Rightarrow> bool" where
  "contains [] n = (n = [])"
| "contains (c # cs) n = (starts_with n (c # cs) \<or> contains cs n)"

fun split_once :: "char \<Rightarrow> string \<Rightarrow> (string \<times> string) option" where
  "split_once d [] = None"
| "split_once d (c # cs) =
     (if c = d then Some ([], cs)
      else case split_once d cs of None \<Rightarrow> None | Some (a, b) \<Rightarrow> Some (c # a, b))"

text \<open>\<open>s.split(d).next()\<close> always yields the text before the first separator.\<close>

definition split_first :: "char \<Rightarrow> string \<Rightarrow> string" where
  "split_first d s = takeWhile (\<lambda>c. c \<noteq> d) s"

text \<open>\<open>s.rsplit(d).next()\<close>: the text after the last separator.\<close>

definition rsplit_first :: "char \<Rightarrow> string \<Rightarrow> string" where
  "rsplit_first d s = rev (takeWhile (\<lambda>c. c \<noteq> d) (rev s))"

definition trim_start_matches :: "char \<Rightarrow> string \<Rightarrow> string" where
  "trim_start_matches d s = dropWhile (\<lambda>c. c = d) s"

definition trim_end_matches :: "char \<Rightarrow> string \<Rightarrow> string" where
  "trim_end_matches d s = rev (dropWhile (\<lambda>c. c = d) (rev s))"

definition trim_matches :: "char \<Rightarrow> string \<Rightarrow> string" where
  "trim_matches d s = trim_end_matches d (trim_start_matches d s)"

fun join :: "string \<Rightarrow> string list \<Rightarrow> string" where
  "join sep [] = []"
| "join sep [x] = x"
| "join sep (x # y # ys) = x @ sep @ join sep (y # ys)"

lemma strip_prefix_Some: "strip_prefix p s = Some r \<longleftrightarrow> s = p @ r"
  by (induction p s rule: strip_prefix.induct) auto

lemma strip_prefix_self [simp]: "strip_prefix p (p @ r) = Some r"
  by (simp add: strip_prefix_Some)

lemma starts_with_iff: "starts_with p s \<longleftrightarrow> (\<exists>r. s = p @ r)"
proof -
  have "starts_with p s \<longleftrightarrow> (\<exists>r. strip_prefix p s = Some r)"
    by (auto simp: starts_with_def)
  then show ?thesis by (simp add: strip_prefix_Some)
qed

lemma contains_iff: "contains s n \<longleftrightarrow> (\<exists>a b. s = a @ n @ b)"
proof (induction s)
  case Nil
  then show ?case by auto
next
  case (Cons c cs)
  show ?case
  proof
    assume "contains (c # cs) n"
    then consider "starts_with n (c # cs)" | "contains cs n" by auto
    then show "\<exists>a b. c # cs = a @ n @ b"
    proof cases
      case 1
      then show ?thesis by (metis append_Nil starts_with_iff)
    next
      case 2
      then show ?thesis using Cons.IH by (metis append_Cons)
    qed
  next
    assume "\<exists>a b. c # cs = a @ n @ b"
    then obtain a b where ab: "c # cs = a @ n @ b" by blast
    show "contains (c # cs) n"
    proof (cases a)
      case Nil
      with ab have "starts_with n (c # cs)" by (simp add: starts_with_iff)
      then show ?thesis by simp
    next
      case (Cons x xs)
      with ab have "cs = xs @ n @ b" by simp
      then have "contains cs n" using Cons.IH by blast
      then show ?thesis by simp
    qed
  qed
qed

lemma split_once_SomeD: "split_once d s = Some (a, b) \<Longrightarrow> s = a @ d # b \<and> d \<notin> set a"
  by (induction s arbitrary: a) (auto split: if_splits option.splits)

lemma split_once_append: "d \<notin> set a \<Longrightarrow> split_once d (a @ d # b) = Some (a, b)"
  by (induction a) auto

lemma split_once_Some: "split_once d s = Some (a, b) \<longleftrightarrow> s = a @ d # b \<and> d \<notin> set a"
  by (auto dest: split_once_SomeD simp: split_once_append)

lemma split_once_None: "split_once d s = None \<longleftrightarrow> d \<notin> set s"
  by (induction s) (auto split: option.splits)

section \<open>White space\<close>

text \<open>
  \<open>white_space_encodings\<close> are the UTF-8 encodings of the characters with the Unicode
  property White\_Space: U+0009 to U+000D, U+0020, U+0085, U+00A0, U+1680, U+2000 to U+200A,
  U+2028, U+2029, U+202F, U+205F and U+3000.
\<close>

definition white_space_encodings :: "string list" where
  "white_space_encodings =
     [[CHR 0x09], [CHR 0x0A], [CHR 0x0B], [CHR 0x0C], [CHR 0x0D], [CHR 0x20],
      [CHR 0xC2, CHR 0x85], [CHR 0xC2, CHR 0xA0], [CHR 0xE1, CHR 0x9A, CHR 0x80],
      [CHR 0xE2, CHR 0x80, CHR 0x80], [CHR 0xE2, CHR 0x80, CHR 0x81],
      [CHR 0xE2, CHR 0x80, CHR 0x82], [CHR 0xE2, CHR 0x80, CHR 0x83],
      [CHR 0xE2, CHR 0x80, CHR 0x84], [CHR 0xE2, CHR 0x80, CHR 0x85],
      [CHR 0xE2, CHR 0x80, CHR 0x86], [CHR 0xE2, CHR 0x80, CHR 0x87],
      [CHR 0xE2, CHR 0x80, CHR 0x88], [CHR 0xE2, CHR 0x80, CHR 0x89],
      [CHR 0xE2, CHR 0x80, CHR 0x8A], [CHR 0xE2, CHR 0x80, CHR 0xA8],
      [CHR 0xE2, CHR 0x80, CHR 0xA9], [CHR 0xE2, CHR 0x80, CHR 0xAF],
      [CHR 0xE2, CHR 0x81, CHR 0x9F], [CHR 0xE3, CHR 0x80, CHR 0x80]]"

fun strip_any :: "string list \<Rightarrow> string \<Rightarrow> string option" where
  "strip_any [] s = None"
| "strip_any (w # ws) s =
     (case strip_prefix w s of None \<Rightarrow> strip_any ws s | Some r \<Rightarrow> Some r)"

lemma strip_any_length:
  "\<lbrakk>strip_any ws s = Some r; \<forall>w \<in> set ws. w \<noteq> []\<rbrakk> \<Longrightarrow> length r < length s"
  by (induction ws) (auto simp: strip_prefix_Some split: option.splits)

lemma white_space_nonempty: "\<forall>w \<in> set white_space_encodings. w \<noteq> []"
  by (simp add: white_space_encodings_def)

function trim_front :: "string list \<Rightarrow> string \<Rightarrow> string" where
  "trim_front ws s =
     (if \<forall>w \<in> set ws. w \<noteq> []
      then (case strip_any ws s of None \<Rightarrow> s | Some r \<Rightarrow> trim_front ws r)
      else s)"
  by pat_completeness auto
termination
  by (relation "measure (\<lambda>(ws, s). length s)") (auto simp: strip_any_length)

declare trim_front.simps [simp del]

definition trim_start :: "string \<Rightarrow> string" where
  "trim_start s = trim_front white_space_encodings s"

definition trim_end :: "string \<Rightarrow> string" where
  "trim_end s = rev (trim_front (map rev white_space_encodings) (rev s))"

definition trim :: "string \<Rightarrow> string" where
  "trim s = trim_end (trim_start s)"

lemma trim_front_length: "length (trim_front ws s) \<le> length s"
proof (induction ws s rule: trim_front.induct)
  case (1 ws s)
  show ?case
  proof (cases "strip_any ws s")
    case None
    then show ?thesis by (simp add: trim_front.simps [of ws s])
  next
    case (Some r)
    show ?thesis
    proof (cases "\<forall>w \<in> set ws. w \<noteq> []")
      case True
      with Some have "length r < length s" by (simp add: strip_any_length)
      moreover have "length (trim_front ws r) \<le> length r" using True Some by (rule "1.IH")
      ultimately show ?thesis using Some True by (simp add: trim_front.simps [of ws s])
    next
      case False
      then show ?thesis by (subst trim_front.simps) (simp only: if_False order_refl)
    qed
  qed
qed

lemma trim_start_length: "length (trim_start s) \<le> length s"
  by (simp add: trim_start_def trim_front_length)

lemma trim_end_length: "length (trim_end s) \<le> length s"
  using trim_front_length [of "map rev white_space_encodings" "rev s"]
  by (simp add: trim_end_def)

lemma trim_length: "length (trim s) \<le> length s"
  using trim_end_length [of "trim_start s"] trim_start_length [of s]
  by (simp add: trim_def)

lemma trim_front_Nil [simp]: "trim_front ws [] = []"
  using trim_front_length [of ws "[]"] by simp

lemma trim_Nil [simp]: "trim [] = []"
  by (simp add: trim_def trim_end_def trim_start_def)

text \<open>A text that begins and ends with a visible ASCII character is not changed by trimming.\<close>

definition visible :: "char \<Rightarrow> bool" where
  "visible c \<longleftrightarrow> 32 < byte c \<and> byte c < 127"

lemma white_space_ends:
  "\<forall>w \<in> set white_space_encodings. \<not> visible (hd w) \<and> \<not> visible (last w)"
  by (simp add: white_space_encodings_def visible_def byte_def)

lemma strip_any_None: "\<forall>w \<in> set ws. w \<noteq> [] \<and> hd w \<noteq> c \<Longrightarrow> strip_any ws (c # s) = None"
  by (induction ws) (auto simp: neq_Nil_conv split: option.splits)

lemma trim_front_stop: "strip_any ws s = None \<Longrightarrow> trim_front ws s = s"
  by (subst trim_front.simps) simp

lemma trim_start_visible: "visible c \<Longrightarrow> trim_start (c # s) = c # s"
  unfolding trim_start_def
  by (intro trim_front_stop strip_any_None) (use white_space_ends white_space_nonempty in auto)

lemma trim_end_visible: "visible c \<Longrightarrow> trim_end (s @ [c]) = s @ [c]"
proof -
  assume c: "visible c"
  have "strip_any (map rev white_space_encodings) (c # rev s) = None"
    by (intro strip_any_None)
      (use c white_space_ends white_space_nonempty in \<open>auto simp: hd_rev\<close>)
  then show ?thesis by (simp add: trim_end_def trim_front_stop)
qed

lemma trim_visible: "\<lbrakk>s \<noteq> []; visible (hd s); visible (last s)\<rbrakk> \<Longrightarrow> trim s = s"
proof -
  assume s: "s \<noteq> []" "visible (hd s)" "visible (last s)"
  have "trim_start s = s" using trim_start_visible [of "hd s" "tl s"] s by simp
  moreover have "trim_end s = s" using trim_end_visible [of "last s" "butlast s"] s by simp
  ultimately show ?thesis by (simp add: trim_def)
qed

lemma trim_start_space: "trim_start (CHR '' '' # s) = trim_start s"
proof -
  have "strip_any white_space_encodings (CHR '' '' # s) = Some s"
    by (simp add: white_space_encodings_def)
  then show ?thesis
    unfolding trim_start_def using white_space_nonempty
    by (subst trim_front.simps) simp
qed

section \<open>Lines\<close>

text \<open>
  \<open>str::lines\<close>: the text is cut after each line feed; the line feed and a carriage return
  right before it are dropped. A last line without line feed keeps its carriage return, and an
  empty remainder gives no line.
\<close>

definition strip_cr :: "string \<Rightarrow> string" where
  "strip_cr l = (if l \<noteq> [] \<and> last l = CR then butlast l else l)"

fun lines_from :: "string \<Rightarrow> string \<Rightarrow> string list" where
  "lines_from cur [] = (if cur = [] then [] else [rev cur])"
| "lines_from cur (c # cs) =
     (if c = LF then strip_cr (rev cur) # lines_from [] cs else lines_from (c # cur) cs)"

definition lines :: "string \<Rightarrow> string list" where
  "lines s = lines_from [] s"

lemma lines_from_no_lf:
  "LF \<notin> set s \<Longrightarrow> lines_from cur s = (if cur = [] \<and> s = [] then [] else [rev cur @ s])"
  by (induction s arbitrary: cur) auto

lemma lines_from_line:
  "LF \<notin> set l \<Longrightarrow> lines_from cur (l @ LF # rest) = strip_cr (rev cur @ l) # lines_from [] rest"
  by (induction l arbitrary: cur) auto

lemma lines_line: "LF \<notin> set l \<Longrightarrow> lines (l @ LF # rest) = strip_cr l # lines rest"
  by (simp add: lines_def lines_from_line)

lemma lines_append_from:
  "lines_from cur (a @ LF # b) = lines_from cur (a @ [LF]) @ lines_from [] b"
proof (induction a arbitrary: cur)
  case Nil
  then show ?case by simp
next
  case (Cons c a)
  show ?case
  proof (cases "c = LF")
    case True
    with Cons.IH [of "[]"] show ?thesis by (simp only: append_Cons lines_from.simps simp_thms if_True)
  next
    case False
    with Cons.IH [of "c # cur"] show ?thesis
      by (simp only: append_Cons lines_from.simps simp_thms if_False)
  qed
qed

text \<open>Cutting a text after a line feed cuts its lines.\<close>

lemma lines_append: "lines (a @ LF # b) = lines (a @ [LF]) @ lines b"
  unfolding lines_def by (rule lines_append_from)

section \<open>UTF-8\<close>

definition in_range :: "nat \<Rightarrow> nat \<Rightarrow> char \<Rightarrow> bool" where
  "in_range lo hi c \<longleftrightarrow> lo \<le> byte c \<and> byte c \<le> hi"

abbreviation utf8_cont :: "char \<Rightarrow> bool" where
  "utf8_cont \<equiv> in_range 128 191"

definition utf8_second :: "char \<Rightarrow> char \<Rightarrow> bool" where
  "utf8_second a b =
     in_range (if byte a = 224 then 160 else if byte a = 240 then 144 else 128)
              (if byte a = 237 then 159 else if byte a = 244 then 143 else 191) b"

text \<open>
  The well-formed byte sequences of one character: no overlong forms, no surrogates, nothing
  above U+10FFFF. This is what \<open>std::str::from_utf8\<close> accepts.
\<close>

fun utf8_char :: "string \<Rightarrow> string option" where
  "utf8_char [] = None"
| "utf8_char (a # s) =
     (if in_range 0 127 a then Some s
      else if in_range 194 223 a then
        (case s of b # r \<Rightarrow> if utf8_cont b then Some r else None | _ \<Rightarrow> None)
      else if in_range 224 239 a then
        (case s of b # c # r \<Rightarrow>
             if utf8_second a b \<and> utf8_cont c then Some r else None
         | _ \<Rightarrow> None)
      else if in_range 240 244 a then
        (case s of b # c # d # r \<Rightarrow>
             if utf8_second a b \<and> utf8_cont c \<and> utf8_cont d then Some r else None
         | _ \<Rightarrow> None)
      else None)"

lemma utf8_char_length: "utf8_char s = Some r \<Longrightarrow> length r < length s"
  by (cases s) (auto split: if_split_asm list.split_asm)

function from_utf8 :: "string \<Rightarrow> bool" where
  "from_utf8 s =
     (if s = [] then True
      else case utf8_char s of None \<Rightarrow> False | Some r \<Rightarrow> from_utf8 r)"
  by pat_completeness auto
termination
  by (relation "measure length") (auto simp: utf8_char_length)

declare from_utf8.simps [simp del]

lemma from_utf8_Nil [simp]: "from_utf8 []"
  by (simp add: from_utf8.simps)

lemma from_utf8_ascii [simp]:
  "byte a \<le> 127 \<Longrightarrow> from_utf8 (a # s) = from_utf8 s"
  by (subst from_utf8.simps) (simp add: in_range_def)

text \<open>
  \<open>String::from_utf8_lossy\<close>: every maximal part of an ill-formed sequence becomes U+FFFD. \<open>utf8_bad\<close> is what
  follows that part.
\<close>

fun utf8_bad :: "string \<Rightarrow> string" where
  "utf8_bad [] = []"
| "utf8_bad (a # s) =
     (if in_range 224 244 a then
        (case s of
           b # r \<Rightarrow>
             if \<not> utf8_second a b then s
             else if in_range 224 239 a then r
             else (case r of c # t \<Rightarrow> if utf8_cont c then t else r | [] \<Rightarrow> [])
         | [] \<Rightarrow> [])
      else s)"

lemma utf8_bad_length: "s \<noteq> [] \<Longrightarrow> length (utf8_bad s) < length s"
  by (cases s) (auto split: list.split)

function from_utf8_lossy :: "string \<Rightarrow> string" where
  "from_utf8_lossy s =
     (if s = [] then []
      else case utf8_char s of
        Some r \<Rightarrow> take (length s - length r) s @ from_utf8_lossy r
      | None \<Rightarrow> [CHR 0xEF, CHR 0xBF, CHR 0xBD] @ from_utf8_lossy (utf8_bad s))"
  by pat_completeness auto
termination
  by (relation "measure length") (auto simp: utf8_char_length utf8_bad_length)

declare from_utf8_lossy.simps [simp del]

section \<open>Decimal numbers\<close>

text \<open>
  \<open>str::parse::<usize>\<close>: an optional plus sign, then at least one digit and nothing else, with a
  value in range.
\<close>

fun decimal :: "nat \<Rightarrow> string \<Rightarrow> nat" where
  "decimal acc [] = acc"
| "decimal acc (c # cs) = decimal (10 * acc + (byte c - 48)) cs"

definition parse_bounded :: "nat \<Rightarrow> string \<Rightarrow> nat option" where
  "parse_bounded bound s =
     (let ds = (case strip_prefix ''+'' s of Some r \<Rightarrow> r | None \<Rightarrow> s)
      in if ds \<noteq> [] \<and> list_all is_ascii_digit ds \<and> decimal 0 ds < bound
         then Some (decimal 0 ds) else None)"

definition parse_usize :: "string \<Rightarrow> nat option" where
  "parse_usize = parse_bounded u64_bound"

text \<open>The \<open>Display\<close> of an unsigned integer.\<close>

fun show_nat :: "nat \<Rightarrow> string" where
  "show_nat n = (if n < 10 then [char_of (48 + n)] else show_nat (n div 10) @ [char_of (48 + n mod 10)])"

declare show_nat.simps [simp del]

lemma show_nat_not_empty: "show_nat n \<noteq> []"
  by (subst show_nat.simps) simp

lemma show_digit_inj: "\<lbrakk>a < (10 :: nat); b < 10; (char_of (48 + a) :: char) = char_of (48 + b)\<rbrakk> \<Longrightarrow> a = b"
  by (drule arg_cong [where f = "of_char :: char \<Rightarrow> nat"]) simp

lemma show_nat_inj: "show_nat a = show_nat b \<longleftrightarrow> a = b"
proof
  show "show_nat a = show_nat b \<Longrightarrow> a = b"
  proof (induction a arbitrary: b rule: less_induct)
    case (less a)
    show ?case
    proof (cases "a < 10 \<or> b < 10")
      case True
      then show ?thesis
        using less.prems show_nat_not_empty
        by (auto simp: show_nat.simps [of a] show_nat.simps [of b] append_eq_Cons_conv Cons_eq_append_conv
            split: if_splits dest: show_digit_inj)
    next
      case False
      then have "show_nat (a div 10) = show_nat (b div 10)" "(char_of (48 + a mod 10) :: char) = char_of (48 + b mod 10)"
        using less.prems by (auto simp: show_nat.simps [of a] show_nat.simps [of b])
      then have "a div 10 = b div 10" "a mod 10 = b mod 10"
        using less.IH [of "a div 10"] False show_digit_inj [of "a mod 10" "b mod 10"] by auto
      then show ?thesis by (metis div_mult_mod_eq)
    qed
  qed
qed simp

section \<open>Splitting and replacing\<close>

definition ascii_upper_char :: "char \<Rightarrow> char" where
  "ascii_upper_char c = (if is_ascii_lowercase c then char_of (byte c - 32) else c)"

definition to_ascii_uppercase :: "string \<Rightarrow> string" where
  "to_ascii_uppercase s = map ascii_upper_char s"

text \<open>\<open>str::split\<close> at a character, and \<open>str::replace\<close> of a non-empty pattern.\<close>

fun split_from :: "char \<Rightarrow> string \<Rightarrow> string \<Rightarrow> string list" where
  "split_from c acc [] = [rev acc]"
| "split_from c acc (x # xs) = (if x = c then rev acc # split_from c [] xs else split_from c (x # acc) xs)"

definition split :: "char \<Rightarrow> string \<Rightarrow> string list" where
  "split c s = split_from c [] s"

lemma strip_prefix_length: "strip_prefix p s = Some r \<Longrightarrow> p \<noteq> [] \<Longrightarrow> length r < length s"
  by (auto simp: strip_prefix_Some)

function replace_all :: "string \<Rightarrow> string \<Rightarrow> string \<Rightarrow> string" where
  "replace_all pat new s =
     (if pat = [] then s
      else case s of
        [] \<Rightarrow> []
      | c # r \<Rightarrow>
          (case strip_prefix pat s of
             Some rest \<Rightarrow> new @ replace_all pat new rest
           | None \<Rightarrow> c # replace_all pat new r))"
  by pat_completeness auto
termination
  by (relation "measure (\<lambda>(pat, new, s). length s)") (auto dest: strip_prefix_length)

declare replace_all.simps [simp del]

lemma replace_all_Nil [simp]: "replace_all pat new [] = []"
  by (simp add: replace_all.simps)

lemma replace_all_skip:
  "\<lbrakk>pat = p # ps; c \<noteq> p\<rbrakk> \<Longrightarrow> replace_all pat new (c # r) = c # replace_all pat new r"
  by (simp add: replace_all.simps)

lemma replace_all_skips:
  "\<lbrakk>pat = p # ps; p \<notin> set s\<rbrakk> \<Longrightarrow> replace_all pat new (s @ r) = s @ replace_all pat new r"
  by (induction s) (auto simp: replace_all_skip)

lemma replace_all_hit: "pat \<noteq> [] \<Longrightarrow> replace_all pat new (pat @ r) = new @ replace_all pat new r"
  by (cases pat) (auto simp: replace_all.simps [of _ _ "_ # _"])

lemma replace_all_miss:
  "strip_prefix pat (c # r) = None \<Longrightarrow> replace_all pat new (c # r) = c # replace_all pat new r"
  by (cases "pat = []") (auto simp: replace_all.simps [of _ _ "_ # _"] replace_all.simps [of "[]"])

lemma split_from_no_sep: "c \<notin> set s \<Longrightarrow> split_from c acc s = [rev acc @ s]"
  by (induction s arbitrary: acc) auto

lemma split_no_sep: "c \<notin> set s \<Longrightarrow> split c s = [s]"
  by (simp add: split_def split_from_no_sep)

end
