(* ===== verification/Json.thy ===== *)
theory Json
  imports Rust_Str "HOL-Library.AList"
begin

text \<open>
  The JSON values the gateway handles, as \<open>serde_json::Value\<close> presents them: a number is a
  non-negative integer, a negative integer or the bits of an IEEE double; an object is a list of
  entries with distinct keys in insertion order (the build has the \<open>preserve_order\<close> feature).
  Parsing and printing belong to the \<open>serde_json\<close> crate: components take
  them as parameters.
\<close>

datatype json_number = PosInt nat | NegInt int | Float "64 word"

datatype json =
    JNull
  | JBool bool
  | JNumber json_number
  | JString string
  | JArray "json list"
  | JObject "(string \<times> json) list"

type_synonym json_object = "(string \<times> json) list"
type_synonym json_parser = "string \<Rightarrow> json option"
type_synonym json_printer = "json \<Rightarrow> string"

section \<open>Access\<close>

fun as_object :: "json \<Rightarrow> json_object option" where
  "as_object (JObject m) = Some m"
| "as_object _ = None"

fun as_array :: "json \<Rightarrow> json list option" where
  "as_array (JArray xs) = Some xs"
| "as_array _ = None"

fun as_str :: "json \<Rightarrow> string option" where
  "as_str (JString s) = Some s"
| "as_str _ = None"

fun as_bool :: "json \<Rightarrow> bool option" where
  "as_bool (JBool b) = Some b"
| "as_bool _ = None"

fun is_number :: "json \<Rightarrow> bool" where
  "is_number (JNumber _) = True"
| "is_number _ = False"

text \<open>\<open>Value::get\<close> with a string key: \<open>None\<close> on every value that is not an object.\<close>

fun get :: "string \<Rightarrow> json \<Rightarrow> json option" where
  "get k (JObject m) = map_of m k"
| "get k _ = None"

text \<open>
  \<open>Value::pointer\<close> for a pointer whose reference tokens are not array indices: a chain of
  key lookups.
\<close>

fun pointer :: "string list \<Rightarrow> json \<Rightarrow> json option" where
  "pointer [] v = Some v"
| "pointer (k # ks) v = (case get k v of None \<Rightarrow> None | Some w \<Rightarrow> pointer ks w)"

text \<open>\<open>Number::as_f64() == Some(0.0)\<close>: the integer zero and both float zeros.\<close>

fun number_is_zero :: "json_number \<Rightarrow> bool" where
  "number_is_zero (PosInt n) = (n = 0)"
| "number_is_zero (NegInt i) = (i = 0)"
| "number_is_zero (Float w) = (w = 0 \<or> w = push_bit 63 1)"

section \<open>Update\<close>

text \<open>
  \<open>Map::insert\<close> replaces in place or appends; \<open>Map::remove\<close> moves the last entry into the
  hole (\<open>swap_remove\<close>).
\<close>

definition map_insert :: "string \<Rightarrow> json \<Rightarrow> json_object \<Rightarrow> json_object" where
  "map_insert k v m = AList.update k v m"

fun index_of :: "string \<Rightarrow> json_object \<Rightarrow> nat option" where
  "index_of k [] = None"
| "index_of k (e # m) = (if fst e = k then Some 0 else map_option Suc (index_of k m))"

definition swap_remove :: "string \<Rightarrow> json_object \<Rightarrow> json_object" where
  "swap_remove k m =
     (case index_of k m of None \<Rightarrow> m | Some i \<Rightarrow> butlast (m[i := last m]))"

text \<open>
  \<open>value[key] = v\<close> (\<open>IndexMut\<close>): a null becomes an object, an object gets the entry, and
  every other value panics; the panic is \<open>None\<close>.
\<close>

fun index_set :: "string \<Rightarrow> json \<Rightarrow> json \<Rightarrow> json option" where
  "index_set k v JNull = Some (JObject [(k, v)])"
| "index_set k v (JObject m) = Some (JObject (map_insert k v m))"
| "index_set k v _ = None"

text \<open>A well-formed value: the keys of every object are distinct.\<close>

fun json_wf :: "json \<Rightarrow> bool" where
  "json_wf (JArray xs) = (\<forall>x \<in> set xs. json_wf x)"
| "json_wf (JObject m) = (distinct (map fst m) \<and> (\<forall>e \<in> set m. json_wf (snd e)))"
| "json_wf _ = True"

section \<open>Laws\<close>

lemma as_object_Some [simp]: "as_object v = Some m \<longleftrightarrow> v = JObject m"
  by (cases v) auto

lemma as_array_Some [simp]: "as_array v = Some xs \<longleftrightarrow> v = JArray xs"
  by (cases v) auto

lemma as_str_Some [simp]: "as_str v = Some s \<longleftrightarrow> v = JString s"
  by (cases v) auto

lemma as_bool_Some [simp]: "as_bool v = Some b \<longleftrightarrow> v = JBool b"
  by (cases v) auto

lemma get_Some_object: "get k v = Some w \<Longrightarrow> \<exists>m. v = JObject m \<and> map_of m k = Some w"
  by (cases v) auto

lemma map_of_map_insert [simp]:
  "map_of (map_insert k v m) x = (if x = k then Some v else map_of m x)"
  by (simp add: map_insert_def update_conv)

lemma map_insert_fresh: "map_of m k = None \<Longrightarrow> map_insert k v m = m @ [(k, v)]"
  unfolding map_insert_def by (induction m) (auto split: if_splits)

lemma get_index_set: "index_set k v j = Some j' \<Longrightarrow> get k j' = Some v"
  by (cases j) auto

lemma get_index_set_other: "\<lbrakk>index_set k v j = Some j'; x \<noteq> k\<rbrakk> \<Longrightarrow> get x j' = get x j"
  by (cases j) auto

lemma json_wf_index_set:
  "\<lbrakk>index_set k v j = Some j'; json_wf j; json_wf v\<rbrakk> \<Longrightarrow> json_wf j'"
proof (cases j)
  case (JObject m)
  assume s: "index_set k v j = Some j'" and j: "json_wf j" and v: "json_wf v"
  from j JObject have d: "distinct (map fst m)" and a: "\<forall>e \<in> set m. json_wf (snd e)" by auto
  have "set (AList.update k v m) \<subseteq> insert (k, v) (set m)"
    by (induction m) auto
  with a v have "\<forall>e \<in> set (AList.update k v m). json_wf (snd e)" by auto
  with d s JObject show ?thesis by (auto simp: map_insert_def distinct_update)
qed auto

lemma index_of_None: "index_of k m = None \<longleftrightarrow> k \<notin> fst ` set m"
  by (induction m) auto

lemma index_of_Some: "index_of k m = Some i \<Longrightarrow> i < length m \<and> fst (m ! i) = k"
  by (induction m arbitrary: i) (auto split: if_splits)

end
