(* ===== verification/Sse.thy ===== *)
theory Sse
  imports Json
begin

text \<open>
  The incremental reader of server-sent events that carries JSON-RPC answers of MCP servers
  (\<open>agent/tools/mcp_streamable_http/sse.rs\<close>): the accumulator with its size limits, the cut at
  blank lines, the decoding of one event and the search for the answer with the expected id.
  The JSON parser of \<open>serde_json\<close> is the parameter \<open>parse\<close>.
\<close>

section \<open>Data\<close>

record sse_limits =
  max_total_bytes :: nat
  max_event_bytes :: nat
  max_line_bytes :: nat
  max_events :: nat
  max_batch_items :: nat

definition default_sse_limits :: sse_limits where
  "default_sse_limits = \<lparr>max_total_bytes = 65536, max_event_bytes = 16384,
     max_line_bytes = 8192, max_events = 256, max_batch_items = 64\<rparr>"

record sse_accumulator =
  buffer :: string
  total_bytes :: nat
  completed_events :: nat

definition new_accumulator :: sse_accumulator where
  "new_accumulator = \<lparr>buffer = [], total_bytes = 0, completed_events = 0\<rparr>"

datatype sse_parse_error =
    LineTooLarge
  | EventTooLarge
  | TooManyEvents
  | TotalTooLarge
  | InvalidUtf8
  | BatchTooLarge
  | ServerRequestUnsupported
  | MatchingResponseMissing
  | InvalidJson

section \<open>One event\<close>

definition is_server_request :: "json \<Rightarrow> bool" where
  "is_server_request v \<longleftrightarrow> get ''method'' v \<noteq> None \<and> get ''id'' v \<noteq> None"

text \<open>The loop over the items of a JSON-RPC batch.\<close>

fun scan_batch :: "string \<Rightarrow> json list \<Rightarrow> sse_parse_error + json option" where
  "scan_batch expected_id [] = Ok None"
| "scan_batch expected_id (item # items) =
     (if is_server_request item then Err ServerRequestUnsupported
      else if get ''id'' item = Some (JString expected_id) then Ok (Some item)
      else scan_batch expected_id items)"

definition process_event ::
    "json_parser \<Rightarrow> string list \<Rightarrow> string \<Rightarrow> sse_limits \<Rightarrow> sse_parse_error + json option" where
  "process_event parse data_lines expected_id limits =
     (if data_lines = [] then Ok None
      else case parse (join [LF] data_lines) of
        None \<Rightarrow> Err InvalidJson
      | Some v \<Rightarrow>
          (case as_array v of
            Some items \<Rightarrow>
              if max_batch_items limits < length items then Err BatchTooLarge
              else scan_batch expected_id items
          | None \<Rightarrow>
              if is_server_request v then Err ServerRequestUnsupported
              else if get ''id'' v = Some (JString expected_id) then Ok (Some v)
              else Ok None))"

text \<open>The loop over the lines of \<open>find_json_rpc_response\<close>, with its two local variables.\<close>

fun find_in_lines ::
    "json_parser \<Rightarrow> string \<Rightarrow> sse_limits \<Rightarrow> nat \<Rightarrow> string list \<Rightarrow> string list
       \<Rightarrow> sse_parse_error + json" where
  "find_in_lines parse expected_id limits event_count data_lines [] =
     and_then (process_event parse data_lines expected_id limits)
       (ok_or MatchingResponseMissing)"
| "find_in_lines parse expected_id limits event_count data_lines (line # rest) =
     (if max_line_bytes limits < length line then Err LineTooLarge
      else if line = [] then
        (let event_count' = (if data_lines \<noteq> [] then event_count + 1 else event_count) in
         if data_lines \<noteq> [] \<and> max_events limits < event_count' then Err TooManyEvents
         else and_then (process_event parse data_lines expected_id limits)
           (\<lambda>r. case r of
              Some v \<Rightarrow> Ok v
            | None \<Rightarrow> find_in_lines parse expected_id limits event_count' [] rest))
      else if starts_with '':'' line then
        find_in_lines parse expected_id limits event_count data_lines rest
      else case strip_prefix ''data:'' line of
        Some data \<Rightarrow>
          (let data_lines' = data_lines @ [trim_start data] in
           if max_event_bytes limits < sum_list (map length data_lines') then Err EventTooLarge
           else find_in_lines parse expected_id limits event_count data_lines' rest)
      | None \<Rightarrow> find_in_lines parse expected_id limits event_count data_lines rest)"

definition find_json_rpc_response ::
    "json_parser \<Rightarrow> string \<Rightarrow> string \<Rightarrow> sse_limits \<Rightarrow> sse_parse_error + json" where
  "find_json_rpc_response parse sse_text expected_id limits =
     find_in_lines parse expected_id limits 0 [] (lines sse_text)"

section \<open>The accumulator\<close>

text \<open>
  The scan of \<open>validate_buffered_line_lengths\<close>: \<open>line\<close> holds, last byte first, the bytes
  between \<open>line_start\<close> and the current index.
\<close>

fun validate_from :: "nat \<Rightarrow> string \<Rightarrow> string \<Rightarrow> sse_parse_error + unit" where
  "validate_from max_line line [] =
     (if max_line < length line then Err LineTooLarge else Ok ())"
| "validate_from max_line line (c # cs) =
     (if c \<noteq> LF then validate_from max_line (c # line) cs
      else if max_line < length (strip_cr (rev line)) then Err LineTooLarge
      else validate_from max_line [] cs)"

definition validate_buffered_line_lengths :: "string \<Rightarrow> nat \<Rightarrow> sse_parse_error + unit" where
  "validate_buffered_line_lengths buf max_line = validate_from max_line [] buf"

text \<open>\<open>buffer.windows(n).position(|w| w == pat)\<close>.\<close>

fun window_position :: "string \<Rightarrow> string \<Rightarrow> nat option" where
  "window_position pat [] = (if pat = [] then Some 0 else None)"
| "window_position pat (c # cs) =
     (if starts_with pat (c # cs) then Some 0 else map_option Suc (window_position pat cs))"

definition completed_event_boundary :: "string \<Rightarrow> nat option" where
  "completed_event_boundary buf =
     (case window_position [LF, LF] buf of
        Some idx \<Rightarrow> Some (idx + 2)
      | None \<Rightarrow> map_option (\<lambda>idx. idx + 4) (window_position [CR, LF, CR, LF] buf))"

lemma window_position_Some:
  "window_position pat s = Some i \<Longrightarrow> \<exists>r. s = take i s @ pat @ r \<and> i + length pat \<le> length s"
proof (induction s arbitrary: i)
  case Nil
  then show ?case by (auto split: if_splits)
next
  case (Cons c cs)
  show ?case
  proof (cases "starts_with pat (c # cs)")
    case True
    with Cons.prems have "i = 0" by simp
    moreover from True obtain r where r: "c # cs = pat @ r" by (auto simp: starts_with_iff)
    moreover from arg_cong [OF r, of length] have "length pat \<le> length (c # cs)" by simp
    ultimately show ?thesis by simp
  next
    case False
    with Cons.prems obtain j where j: "window_position pat cs = Some j" "i = Suc j" by auto
    with Cons.IH [of j] obtain r where "cs = take j cs @ pat @ r" "j + length pat \<le> length cs"
      by blast
    with j show ?thesis by auto
  qed
qed

lemma completed_event_boundary_bounds:
  "completed_event_boundary buf = Some n \<Longrightarrow> 0 < n \<and> n \<le> length buf"
  by (auto simp: completed_event_boundary_def dest!: window_position_Some split: option.splits)

text \<open>The loop of \<open>push_and_try_find\<close> over the completed events of the buffer.\<close>

function drain ::
    "json_parser \<Rightarrow> string \<Rightarrow> sse_limits \<Rightarrow> sse_accumulator
       \<Rightarrow> sse_accumulator \<times> (sse_parse_error + json option)" where
  "drain parse expected_id limits acc =
     (case completed_event_boundary (buffer acc) of
        None \<Rightarrow> (acc, Ok None)
      | Some split_at \<Rightarrow>
          (let completed = take split_at (buffer acc);
               acc1 = acc\<lparr>buffer := drop split_at (buffer acc)\<rparr>
           in case checked_add (completed_events acc1) 1 of
                None \<Rightarrow> (acc1, Err TooManyEvents)
              | Some n \<Rightarrow>
                  (let acc2 = acc1\<lparr>completed_events := n\<rparr> in
                   if max_events limits < n then (acc2, Err TooManyEvents)
                   else if \<not> from_utf8 completed then (acc2, Err InvalidUtf8)
                   else case find_json_rpc_response parse completed expected_id limits of
                     Inr v \<Rightarrow> (acc2, Ok (Some v))
                   | Inl e \<Rightarrow> if e = MatchingResponseMissing
                               then drain parse expected_id limits acc2
                               else (acc2, Err e))))"
  by pat_completeness auto
termination
proof (relation "measure (\<lambda>(parse, expected_id, limits, acc). length (buffer acc))",
       goal_cases)
  case 1
  show ?case by simp
next
  case (2 parse expected_id limits acc split_at completed acc1 n acc2 e)
  then have "0 < split_at" "split_at \<le> length (buffer acc)"
    using completed_event_boundary_bounds by blast+
  with 2 show ?case by simp
qed

declare drain.simps [simp del]

definition push_and_try_find ::
    "json_parser \<Rightarrow> sse_accumulator \<Rightarrow> string \<Rightarrow> string \<Rightarrow> sse_limits
       \<Rightarrow> sse_accumulator \<times> (sse_parse_error + json option)" where
  "push_and_try_find parse acc chunk expected_id limits =
     (let acc1 = acc\<lparr>buffer := buffer acc @ chunk\<rparr> in
      case validate_buffered_line_lengths (buffer acc1) (max_line_bytes limits) of
        Inl e \<Rightarrow> (acc1, Err e)
      | Inr _ \<Rightarrow>
          (case checked_add (total_bytes acc1) (length chunk) of
            None \<Rightarrow> (acc1, Err TotalTooLarge)
          | Some t \<Rightarrow>
              (let acc2 = acc1\<lparr>total_bytes := t\<rparr> in
               if max_total_bytes limits < t then (acc2, Err TotalTooLarge)
               else drain parse expected_id limits acc2)))"

text \<open>
  The readers (\<open>transport.rs\<close>) push one chunk after the other until an answer or an error comes
  back.
\<close>

fun push_all ::
    "json_parser \<Rightarrow> string \<Rightarrow> sse_limits \<Rightarrow> sse_accumulator \<Rightarrow> string list
       \<Rightarrow> sse_parse_error + json option" where
  "push_all parse expected_id limits acc [] = Ok None"
| "push_all parse expected_id limits acc (chunk # chunks) =
     (case push_and_try_find parse acc chunk expected_id limits of
        (acc', Inl e) \<Rightarrow> Err e
      | (acc', Inr (Some v)) \<Rightarrow> Ok (Some v)
      | (acc', Inr None) \<Rightarrow> push_all parse expected_id limits acc' chunks)"

section \<open>What an answer is\<close>

definition answers :: "string \<Rightarrow> json \<Rightarrow> bool" where
  "answers expected_id v \<longleftrightarrow>
     get ''id'' v = Some (JString expected_id) \<and> \<not> is_server_request v"

lemma scan_batch_answers: "scan_batch i items = Ok (Some v) \<Longrightarrow> answers i v \<and> v \<in> set items"
  by (induction items) (auto simp: answers_def split: if_splits)

lemma process_event_answers: "process_event parse ds i lim = Ok (Some v) \<Longrightarrow> answers i v"
  by (auto simp: process_event_def answers_def dest!: scan_batch_answers
      split: if_splits option.splits)

lemma find_in_lines_answers:
  "find_in_lines parse i lim k ds ls = Ok v \<Longrightarrow> answers i v"
proof (induction parse i lim k ds ls rule: find_in_lines.induct)
  case (1 parse i lim k ds)
  then show ?case by (auto dest: process_event_answers)
next
  case (2 parse i lim k ds line rest)
  then show ?case
    by (auto simp: Let_def dest: process_event_answers split: if_splits option.splits)
qed

lemma drain_answers:
  "drain parse i lim acc = (acc', Ok (Some v)) \<Longrightarrow> answers i v"
proof (induction parse i lim acc rule: drain.induct)
  case (1 parse i lim acc)
  from "1.prems" show ?case
    by (subst (asm) drain.simps)
      (auto simp: Let_def find_json_rpc_response_def dest: find_in_lines_answers "1.IH"
        split: option.splits if_splits sum.splits)
qed

lemma push_answers:
  "push_and_try_find parse acc chunk i lim = (acc', Ok (Some v)) \<Longrightarrow> answers i v"
  by (auto simp: push_and_try_find_def Let_def dest: drain_answers
      split: sum.splits option.splits if_splits)

section \<open>Limits\<close>

definition limits_wf :: "sse_limits \<Rightarrow> bool" where
  "limits_wf l \<longleftrightarrow> max_total_bytes l < u64_bound \<and> max_events l < u64_bound"

definition sse_inv :: "sse_limits \<Rightarrow> sse_accumulator \<Rightarrow> bool" where
  "sse_inv lim acc \<longleftrightarrow> length (buffer acc) \<le> total_bytes acc
     \<and> total_bytes acc \<le> max_total_bytes lim \<and> completed_events acc \<le> max_events lim"

lemma sse_inv_new: "sse_inv lim new_accumulator"
  by (simp add: sse_inv_def new_accumulator_def)

lemma drain_inv:
  "\<lbrakk>drain parse i lim acc = (acc', Ok r); sse_inv lim acc\<rbrakk>
     \<Longrightarrow> sse_inv lim acc' \<and> total_bytes acc' = total_bytes acc"
proof (induction parse i lim acc rule: drain.induct)
  case (1 parse i lim acc)
  show ?case
  proof (cases "completed_event_boundary (buffer acc)")
    case None
    with "1.prems" show ?thesis by (simp add: drain.simps [of parse i lim acc])
  next
    case (Some n)
    let ?acc2 = "acc\<lparr>buffer := drop n (buffer acc), completed_events := completed_events acc + 1\<rparr>"
    from "1.prems" Some have b: "completed_events acc + 1 < u64_bound"
      and m: "completed_events acc + 1 \<le> max_events lim"
      by (auto simp: drain.simps [of parse i lim acc] Let_def split: option.splits if_splits)
    from "1.prems"(2) m have inv: "sse_inv lim ?acc2" by (auto simp: sse_inv_def)
    show ?thesis
    proof (cases "find_json_rpc_response parse (take n (buffer acc)) i lim")
      case (Inr v)
      with "1.prems"(1) Some b m inv show ?thesis
        by (auto simp: drain.simps [of parse i lim acc] Let_def split: if_splits option.splits)
    next
      case (Inl e)
      with "1.prems"(1) Some b m
      have d: "drain parse i lim ?acc2 = (acc', Ok r)" and u: "from_utf8 (take n (buffer acc))"
        and e: "e = MatchingResponseMissing"
        by (auto simp: drain.simps [of parse i lim acc] Let_def split: if_splits option.splits)
      from "1.IH" [OF Some refl refl _ refl _ _ Inl e, of "completed_events acc + 1"] b m u d inv
      show ?thesis by simp
    qed
  qed
qed

text \<open>A push that does not fail stays within the limits and accounts for every byte.\<close>

lemma push_inv:
  assumes "push_and_try_find parse acc chunk i lim = (acc', Ok r)" and "sse_inv lim acc"
  shows "sse_inv lim acc' \<and> total_bytes acc' = total_bytes acc + length chunk"
proof -
  let ?acc2 = "acc\<lparr>buffer := buffer acc @ chunk, total_bytes := total_bytes acc + length chunk\<rparr>"
  from assms(1) have d: "drain parse i lim ?acc2 = (acc', Ok r)"
    and t: "total_bytes acc + length chunk \<le> max_total_bytes lim"
    by (auto simp: push_and_try_find_def Let_def split: sum.splits option.splits if_splits)
  from assms(2) t have "sse_inv lim ?acc2" by (simp add: sse_inv_def)
  from drain_inv [OF d this] show ?thesis by simp
qed

end
