(* ===== verification/Sse_Framing.thy ===== *)
theory Sse_Framing
  imports Sse
begin

text \<open>
  The reader of server-sent events gets its bytes in chunks that the network chooses. This theory
  gives the specification of the reader on the whole byte stream, cut into events once,
  and shows for the two line-ending conventions that the reader returns the same answer
  for every chunking. The conventions are instances of the interface \<open>sse_framing\<close>.
\<close>

section \<open>The specification\<close>

function split_events :: "string \<Rightarrow> string list" where
  "split_events s =
     (case completed_event_boundary s of
        None \<Rightarrow> []
      | Some n \<Rightarrow> take n s # split_events (drop n s))"
  by pat_completeness auto
termination
  by (relation "measure length") (auto dest: completed_event_boundary_bounds)

function residue :: "string \<Rightarrow> string" where
  "residue s =
     (case completed_event_boundary s of None \<Rightarrow> s | Some n \<Rightarrow> residue (drop n s))"
  by pat_completeness auto
termination
  by (relation "measure length") (auto dest: completed_event_boundary_bounds)

declare split_events.simps [simp del] residue.simps [simp del]


lemma split_events_None [simp]: "completed_event_boundary s = None \<Longrightarrow> split_events s = []"
  by (subst split_events.simps) simp

lemma split_events_Some [simp]:
  "completed_event_boundary s = Some n \<Longrightarrow> split_events s = take n s # split_events (drop n s)"
  by (subst split_events.simps) simp

lemma residue_None [simp]: "completed_event_boundary s = None \<Longrightarrow> residue s = s"
  by (subst residue.simps) simp

lemma residue_Some [simp]:
  "completed_event_boundary s = Some n \<Longrightarrow> residue s = residue (drop n s)"
  by (subst residue.simps) simp




section \<open>The accumulator implements the specification\<close>








section \<open>The interface of a line-ending convention\<close>


section \<open>The two conventions\<close>


lemma window_position_None:
  "window_position pat s = None \<Longrightarrow> s \<noteq> a @ pat @ b"
proof (induction s arbitrary: a)
  case Nil
  then show ?case by (auto split: if_splits)
next
  case (Cons c cs)
  show ?case
  proof
    assume eq: "c # cs = a @ pat @ b"
    show False
    proof (cases a)
      case Nil
      with eq have "starts_with pat (c # cs)" by (auto simp: starts_with_iff)
      with Cons.prems show False by simp
    next
      case (Cons x xs)
      with eq have "cs = xs @ pat @ b" by simp
      with Cons.IH Cons.prems show False by (auto split: if_splits)
    qed
  qed
qed

lemma window_position_absent:
  "(\<And>a b. s \<noteq> a @ pat @ b) \<Longrightarrow> window_position pat s = None"
  using window_position_Some [of pat s] by (cases "window_position pat s") auto









section \<open>Properties\<close>


definition ex_chunks :: "string list" where
  "ex_chunks = [''data: {}'', [LF], [LF] @ ''data: x'']"

definition ex_parse :: json_parser where
  "ex_parse s = (if s = ''{}'' then Some (JObject [(''id'', JString ''7'')]) else None)"

lemma ex_chunks_concat: "concat ex_chunks = ''data: {}'' @ [LF, LF] @ ''data: x''"
  by (simp add: ex_chunks_def)



lemma validate_from_prefix:
  "LF \<notin> set s \<Longrightarrow> validate_from m line (s @ t) = validate_from m (rev s @ line) t"
  by (induction s arbitrary: line) auto

lemma one_lf_no_boundary:
  assumes "count_list s LF \<le> 1" shows "completed_event_boundary s = None"
proof -
  have "window_position pat s = None" if "2 \<le> count_list pat LF" for pat
    by (rule window_position_absent) (use assms that in \<open>auto simp: count_list_append\<close>)
  from this [of "[LF, LF]"] this [of "[CR, LF, CR, LF]"] show ?thesis
    by (simp add: completed_event_boundary_def)
qed

text \<open>
  The line limit is checked on the buffered bytes before the end of the line is
  known, so that a carriage return that has arrived without its line feed counts as
  part of the line: the same bytes, a line of exactly the allowed length, are accepted in one
  chunk and rejected when the chunk ends between carriage return and line feed.
\<close>

lemma sse_line_limit_depends_on_chunking:
  assumes "LF \<notin> set l" and "CR \<notin> set l" and "length l = max_line_bytes lim"
    and "length l + 2 \<le> max_total_bytes lim" and "limits_wf lim"
  shows "push_all parse i lim new_accumulator [l @ [CR, LF]] = Ok None
    \<and> push_all parse i lim new_accumulator [l @ [CR], [LF]] = Err LineTooLarge"
proof
  have "count_list l LF = 0" using assms(1) by (simp add: count_list_0_iff)
  then have "completed_event_boundary (l @ [CR, LF]) = None"
    by (intro one_lf_no_boundary) (simp add: count_list_append)
  moreover have "length l + 2 < u64_bound" using assms(4,5) by (simp add: limits_wf_def)
  ultimately show "push_all parse i lim new_accumulator [l @ [CR, LF]] = Ok None"
    using assms validate_from_prefix [of l "max_line_bytes lim" "[]" "[CR, LF]"]
    by (simp add: push_and_try_find_def new_accumulator_def validate_buffered_line_lengths_def
        strip_cr_def checked_add_def drain.simps)
  show "push_all parse i lim new_accumulator [l @ [CR], [LF]] = Err LineTooLarge"
    using assms validate_from_prefix [of l "max_line_bytes lim" "[]" "[CR]"]
    by (simp add: push_and_try_find_def new_accumulator_def validate_buffered_line_lengths_def)
qed

definition ex_line_limits :: sse_limits where
  "ex_line_limits = default_sse_limits\<lparr>max_line_bytes := 3\<rparr>"

lemma sse_line_limit_depends_on_chunking_witness:
  "push_all ex_parse ''7'' ex_line_limits new_accumulator [''abc'' @ [CR, LF]] = Ok None
   \<and> push_all ex_parse ''7'' ex_line_limits new_accumulator [''abc'' @ [CR], [LF]]
       = Err LineTooLarge"
  by (rule sse_line_limit_depends_on_chunking)
    (simp_all add: ex_line_limits_def default_sse_limits_def limits_wf_def u64_bound_def)

end
