(* ===== verification/Mcp_Transport.thy ===== *)
theory Mcp_Transport
  imports Sse
begin

text \<open>
  The readers of MCP responses: \<open>agent/tools/mcp_streamable_http/transport.rs\<close> (a JSON body with a
  size limit, or an event stream), \<open>agent/tools/mcp_sse/transport.rs\<close>, the event that announces
  the message endpoint (\<open>mcp_sse/endpoint.rs\<close>) and the checks of the JSON-RPC envelope
  (\<open>json_rpc.rs\<close>).

  The byte stream of a response is a list of the outcomes of \<open>stream.try_next()\<close> under its
  timeout; the end of the list is the end of the stream.
\<close>

datatype stream_item = Chunk string | StreamFailed | IdleElapsed

type_synonym header_map = "(string \<times> string) list"

text \<open>
  \<open>HeaderMap::get\<close> on lower-case names gives the first value; \<open>HeaderValue::to_str\<close> gives
  the value when all its bytes are visible ASCII, space or tab.
\<close>

definition header_get :: "header_map \<Rightarrow> string \<Rightarrow> string option" where
  "header_get = map_of"

definition header_to_str :: "string \<Rightarrow> string option" where
  "header_to_str v =
     (if list_all (\<lambda>c. (32 \<le> byte c \<and> byte c < 127) \<or> byte c = 9) v then Some v else None)"

definition header_str :: "header_map \<Rightarrow> string \<Rightarrow> string option" where
  "header_str headers name = Option.bind (header_get headers name) header_to_str"

section \<open>Streamable HTTP transport\<close>

record sse_read_options =
  limits :: sse_limits
  idle_timeout_ms :: nat

record 'a json_rpc_transport_response =
  resp_value :: 'a
  resp_headers :: header_map
  sse_used :: bool

datatype transport_error =
    ResponseTooLarge
  | TargetUnavailable
  | ProtocolParse
  | SseParse
  | SseServerRequestUnsupported
  | SseIncomplete
  | SseIdleTimeout

record mcp_response =
  r_headers :: header_map
  r_content_length :: "nat option"
  r_stream :: "stream_item list"

fun map_sse_error :: "sse_parse_error \<Rightarrow> transport_error" where
  "map_sse_error TotalTooLarge = ResponseTooLarge"
| "map_sse_error EventTooLarge = ResponseTooLarge"
| "map_sse_error LineTooLarge = ResponseTooLarge"
| "map_sse_error MatchingResponseMissing = SseIncomplete"
| "map_sse_error ServerRequestUnsupported = SseServerRequestUnsupported"
| "map_sse_error _ = SseParse"

definition is_sse_response :: "header_map \<Rightarrow> bool" where
  "is_sse_response headers =
     (case header_str headers ''content-type'' of
        None \<Rightarrow> False
      | Some content_type \<Rightarrow>
          eq_ignore_ascii_case (trim (split_first (CHR '';'') content_type)) ''text/event-stream'')"

fun read_limited_chunks ::
    "nat \<Rightarrow> string \<Rightarrow> stream_item list \<Rightarrow> transport_error + string" where
  "read_limited_chunks max_bytes body [] = Ok body"
| "read_limited_chunks max_bytes body (Chunk chunk # items) =
     (case checked_add (length body) (length chunk) of
        None \<Rightarrow> Err ResponseTooLarge
      | Some next_len \<Rightarrow>
          if max_bytes < next_len then Err ResponseTooLarge
          else read_limited_chunks max_bytes (body @ chunk) items)"
| "read_limited_chunks max_bytes body (_ # items) = Err TargetUnavailable"

definition read_limited_body :: "mcp_response \<Rightarrow> nat \<Rightarrow> transport_error + string" where
  "read_limited_body response max_bytes =
     (case r_content_length response of
        Some len \<Rightarrow> if max_bytes < len then Err ResponseTooLarge
                      else read_limited_chunks max_bytes [] (r_stream response)
      | None \<Rightarrow> read_limited_chunks max_bytes [] (r_stream response))"

text \<open>\<open>from_value\<close> and \<open>from_slice\<close> are the deserialisers of the answer type.\<close>

fun read_sse_json_rpc_response ::
    "json_parser \<Rightarrow> (json \<Rightarrow> 'a option) \<Rightarrow> string \<Rightarrow> nat \<Rightarrow> sse_limits \<Rightarrow> sse_accumulator
       \<Rightarrow> stream_item list \<Rightarrow> transport_error + 'a" where
  "read_sse_json_rpc_response parse from_value expected_id max_bytes lim acc [] = Err SseIncomplete"
| "read_sse_json_rpc_response parse from_value expected_id max_bytes lim acc (IdleElapsed # _) =
     Err SseIdleTimeout"
| "read_sse_json_rpc_response parse from_value expected_id max_bytes lim acc (StreamFailed # _) =
     Err TargetUnavailable"
| "read_sse_json_rpc_response parse from_value expected_id max_bytes lim acc (Chunk chunk # items) =
     (case push_and_try_find parse acc chunk expected_id lim of
        (acc', Inl e) \<Rightarrow> Err (map_sse_error e)
      | (acc', Inr (Some v)) \<Rightarrow> ok_or ProtocolParse (from_value v)
      | (acc', Inr None) \<Rightarrow>
          if max_bytes < length chunk then Err ResponseTooLarge
          else read_sse_json_rpc_response parse from_value expected_id max_bytes lim acc' items)"

definition read_json_rpc_response ::
    "json_parser \<Rightarrow> (json \<Rightarrow> 'a option) \<Rightarrow> (string \<Rightarrow> 'a option) \<Rightarrow> mcp_response \<Rightarrow> string
       \<Rightarrow> nat \<Rightarrow> sse_read_options \<Rightarrow> transport_error + 'a json_rpc_transport_response" where
  "read_json_rpc_response parse from_value from_slice response expected_id max_bytes opts =
     (if is_sse_response (r_headers response) then
        and_then (read_sse_json_rpc_response parse from_value expected_id max_bytes (limits opts)
            new_accumulator (r_stream response))
          (\<lambda>v. Ok \<lparr>resp_value = v, resp_headers = r_headers response, sse_used = True\<rparr>)
      else
        and_then (read_limited_body response max_bytes)
          (\<lambda>body. and_then (ok_or ProtocolParse (from_slice body))
            (\<lambda>v. Ok \<lparr>resp_value = v, resp_headers = r_headers response, sse_used = False\<rparr>)))"

section \<open>SSE transport\<close>

datatype mcp_sse_transport_error =
    McpTargetUnavailable
  | McpIdleTimeout
  | McpIncomplete
  | McpResponseTooLarge
  | McpParse
  | McpServerRequestUnsupported

fun map_mcp_sse_error :: "sse_parse_error \<Rightarrow> mcp_sse_transport_error" where
  "map_mcp_sse_error TotalTooLarge = McpResponseTooLarge"
| "map_mcp_sse_error EventTooLarge = McpResponseTooLarge"
| "map_mcp_sse_error LineTooLarge = McpResponseTooLarge"
| "map_mcp_sse_error BatchTooLarge = McpResponseTooLarge"
| "map_mcp_sse_error MatchingResponseMissing = McpIncomplete"
| "map_mcp_sse_error ServerRequestUnsupported = McpServerRequestUnsupported"
| "map_mcp_sse_error InvalidUtf8 = McpParse"
| "map_mcp_sse_error InvalidJson = McpParse"
| "map_mcp_sse_error TooManyEvents = McpResponseTooLarge"

fun read_matching_from ::
    "json_parser \<Rightarrow> string \<Rightarrow> sse_limits \<Rightarrow> sse_accumulator \<Rightarrow> stream_item list
       \<Rightarrow> mcp_sse_transport_error + json" where
  "read_matching_from parse expected_id lim acc [] = Err McpIncomplete"
| "read_matching_from parse expected_id lim acc (IdleElapsed # _) = Err McpIdleTimeout"
| "read_matching_from parse expected_id lim acc (StreamFailed # _) = Err McpTargetUnavailable"
| "read_matching_from parse expected_id lim acc (Chunk chunk # items) =
     (case push_and_try_find parse acc chunk expected_id lim of
        (acc', Inl e) \<Rightarrow> Err (map_mcp_sse_error e)
      | (acc', Inr (Some v)) \<Rightarrow> Ok v
      | (acc', Inr None) \<Rightarrow> read_matching_from parse expected_id lim acc' items)"

definition read_matching_json_rpc_from_sse ::
    "json_parser \<Rightarrow> stream_item list \<Rightarrow> string \<Rightarrow> sse_read_options
       \<Rightarrow> mcp_sse_transport_error + json" where
  "read_matching_json_rpc_from_sse parse stream expected_id opts =
     read_matching_from parse expected_id (limits opts) new_accumulator stream"

section \<open>The endpoint event\<close>

datatype message_endpoint_error = Invalid | CrossOrigin | UnsafeEndpoint

fun endpoint_lines ::
    "string option \<Rightarrow> string list \<Rightarrow> string list \<Rightarrow> string option \<times> string list" where
  "endpoint_lines event_type data_lines [] = (event_type, data_lines)"
| "endpoint_lines event_type data_lines (raw # rest) =
     (let line = trim_end_matches CR raw in
      case strip_prefix ''event:'' line of
        Some v \<Rightarrow> endpoint_lines (Some (trim v)) data_lines rest
      | None \<Rightarrow>
          (case strip_prefix ''data:'' line of
            Some v \<Rightarrow> endpoint_lines event_type (data_lines @ [trim_start v]) rest
          | None \<Rightarrow> endpoint_lines event_type data_lines rest))"

definition extract_endpoint_event :: "string \<Rightarrow> message_endpoint_error + string" where
  "extract_endpoint_event sse_event =
     (case endpoint_lines None [] (lines sse_event) of
        (event_type, data_lines) \<Rightarrow>
          if event_type \<noteq> Some ''endpoint'' \<or> data_lines = [] then Err Invalid
          else (let endpoint = trim (join [LF] data_lines) in
                if endpoint = [] then Err Invalid else Ok endpoint))"

section \<open>The JSON-RPC envelope\<close>

datatype json_rpc_protocol_error =
  InvalidEnvelope | UnsupportedProtocolVersion | ToolsCapabilityMissing

record mcp_json_rpc_error =
  err_code :: int
  err_message :: string
  err_data :: "json option"

record 'a mcp_json_rpc_response =
  rpc_jsonrpc :: "string option"
  rpc_id :: "json option"
  rpc_result :: "'a option"
  rpc_error :: "mcp_json_rpc_error option"

record mcp_initialize_result =
  init_protocol_version :: string
  init_capabilities :: json
  init_server_info :: json

definition CLIENT_PROTOCOL_VERSION :: string where
  "CLIENT_PROTOCOL_VERSION = ''2025-06-18''"

definition SUPPORTED_PROTOCOL_VERSIONS :: "string list" where
  "SUPPORTED_PROTOCOL_VERSIONS = [''2025-03-26'', CLIENT_PROTOCOL_VERSION, ''2025-11-25'']"

definition validate_json_rpc_envelope ::
    "'a mcp_json_rpc_response \<Rightarrow> string \<Rightarrow> json_rpc_protocol_error + unit" where
  "validate_json_rpc_envelope response expected_id =
     (if rpc_jsonrpc response \<noteq> Some ''2.0'' then Err InvalidEnvelope
      else if rpc_id response \<noteq> Some (JString expected_id) then Err InvalidEnvelope
      else Ok ())"

definition validate_supported_protocol_version :: "string \<Rightarrow> json_rpc_protocol_error + unit" where
  "validate_supported_protocol_version v =
     (if v \<in> set SUPPORTED_PROTOCOL_VERSIONS then Ok () else Err UnsupportedProtocolVersion)"

definition validate_tools_capability :: "json \<Rightarrow> json_rpc_protocol_error + unit" where
  "validate_tools_capability capabilities =
     (case get ''tools'' capabilities of
        Some (JObject _) \<Rightarrow> Ok ()
      | _ \<Rightarrow> Err ToolsCapabilityMissing)"

definition mcp_error_retryable :: "int \<Rightarrow> bool" where
  "mcp_error_retryable code \<longleftrightarrow> code \<notin> {-32700, -32600, -32601, -32602}"

section \<open>Lemmas and properties\<close>

fun chunk_bytes :: "stream_item list \<Rightarrow> string option" where
  "chunk_bytes [] = Some []"
| "chunk_bytes (Chunk c # items) = map_option (\<lambda>r. c @ r) (chunk_bytes items)"
| "chunk_bytes (_ # items) = None"

lemma read_limited_chunks_iff:
  "\<lbrakk>max_bytes < u64_bound; length body \<le> max_bytes\<rbrakk> \<Longrightarrow>
     read_limited_chunks max_bytes body items = Ok r \<longleftrightarrow>
     (\<exists>rest. chunk_bytes items = Some rest \<and> r = body @ rest \<and> length r \<le> max_bytes)"
proof (induction max_bytes body items rule: read_limited_chunks.induct)
  case (2 max_bytes body chunk items)
  then show ?case
    by (cases "length body + length chunk \<le> max_bytes") (auto simp: checked_add_def)
qed auto

text \<open>
  Property C27. The body reader returns a body exactly when the stream ends without failure,
  the declared length and the received length are within the limit; the body is then the
  concatenation of all chunks. In particular it never buffers a body above the limit.
\<close>

theorem read_limited_body_exact:
  assumes "max_bytes < u64_bound"
  shows "read_limited_body response max_bytes = Ok body \<longleftrightarrow>
     chunk_bytes (r_stream response) = Some body \<and> length body \<le> max_bytes
     \<and> (\<forall>len. r_content_length response = Some len \<longrightarrow> len \<le> max_bytes)"
  using assms read_limited_chunks_iff [of max_bytes "[]" "r_stream response" body]
  by (auto simp: read_limited_body_def split: option.splits)

definition ex_response :: mcp_response where
  "ex_response = \<lparr>r_headers = [], r_content_length = Some 4,
     r_stream = [Chunk ''ab'', Chunk ''cd'']\<rparr>"

theorem read_limited_body_exact_witness:
  "read_limited_body ex_response 4 = Ok ''abcd'' \<and> read_limited_body ex_response 3 \<noteq> Ok ''abcd''"
  using read_limited_body_exact [of 4 ex_response "''abcd''"]
    read_limited_body_exact [of 3 ex_response "''abcd''"]
  by (simp add: ex_response_def u64_bound_def)

lemma read_matching_from_answers:
  "read_matching_from parse i lim acc items = Ok v \<Longrightarrow> answers i v"
proof (induction parse i lim acc items rule: read_matching_from.induct)
  case (4 parse i lim acc chunk items)
  then show ?case
    by (auto dest: push_answers split: prod.splits sum.splits option.splits)
qed auto

lemma read_sse_answers:
  "read_sse_json_rpc_response parse from_value i m lim acc items = Ok r
     \<Longrightarrow> \<exists>v. answers i v \<and> from_value v = Some r"
proof (induction parse from_value i m lim acc items rule: read_sse_json_rpc_response.induct)
  case (4 parse from_value i m lim acc chunk items)
  then show ?case
    by (auto dest: push_answers split: prod.splits sum.splits option.splits if_splits)
qed auto

text \<open>
  Whatever an MCP server streams, an answer that the transports hand to the caller
  has the id of the request and is not a request of the server: a server cannot
  answer for another request or have its own request taken for an answer.
\<close>

theorem mcp_stream_answers_match:
  assumes "is_sse_response (r_headers response)"
    and "read_json_rpc_response parse from_value from_slice response expected_id m opts = Ok r"
  shows "sse_used r \<and> (\<exists>v. from_value v = Some (resp_value r)
    \<and> get ''id'' v = Some (JString expected_id) \<and> get ''method'' v = None)"
proof -
  from assms obtain x where x: "read_sse_json_rpc_response parse from_value expected_id m
      (limits opts) new_accumulator (r_stream response) = Ok x" and r: "resp_value r = x" "sse_used r"
    by (auto simp: read_json_rpc_response_def)
  from read_sse_answers [OF x] r show ?thesis
    by (auto simp: answers_def is_server_request_def)
qed

definition ex_sse_response :: mcp_response where
  "ex_sse_response = \<lparr>r_headers = [(''content-type'', ''Text/Event-Stream; charset=utf-8'')],
     r_content_length = None,
     r_stream = [Chunk (''data: 1'' @ [LF]), Chunk ([LF] @ ''data: 2'' @ [LF, LF])]\<rparr>"

definition ex_rpc_parse :: json_parser where
  "ex_rpc_parse s =
     (if s = ''1'' then Some (JObject [(''id'', JString ''6'')])
      else if s = ''2'' then Some (JObject [(''id'', JString ''7'')]) else None)"

definition ex_read_options :: sse_read_options where
  "ex_read_options = \<lparr>limits = default_sse_limits, idle_timeout_ms = 1000\<rparr>"

definition ex_answer :: "json json_rpc_transport_response" where
  "ex_answer = \<lparr>resp_value = JObject [(''id'', JString ''7'')],
     resp_headers = r_headers ex_sse_response, sse_used = True\<rparr>"

lemmas sse_eval =
  push_and_try_find_def new_accumulator_def validate_buffered_line_lengths_def checked_add_def
  u64_bound_def drain.simps completed_event_boundary_def starts_with_def Let_def
  find_json_rpc_response_def lines_def strip_cr_def process_event_def is_server_request_def
  trim_start_visible trim_start_space visible_def byte_def

lemma ex_sse_is_sse: "is_sse_response (r_headers ex_sse_response)"
  by (simp add: is_sse_response_def ex_sse_response_def header_str_def header_get_def
      header_to_str_def byte_def split_first_def trim_visible visible_def eq_ignore_ascii_case_def
      to_ascii_lowercase_def ascii_lower_char_def is_ascii_uppercase_def char_of_def bit_0)

lemma ex_sse_read:
  "read_json_rpc_response ex_rpc_parse Some (\<lambda>_. None) ex_sse_response ''7'' 100 ex_read_options
     = Ok ex_answer"
  using ex_sse_is_sse
  by (simp add: read_json_rpc_response_def ex_answer_def ex_rpc_parse_def ex_read_options_def
      ex_sse_response_def default_sse_limits_def sse_eval)

theorem mcp_stream_answers_match_witness:
  "is_sse_response (r_headers ex_sse_response)
   \<and> read_json_rpc_response ex_rpc_parse Some (\<lambda>_. None) ex_sse_response ''7'' 100 ex_read_options
       = Ok ex_answer
   \<and> sse_used ex_answer \<and> (\<exists>v. Some v = Some (resp_value ex_answer)
       \<and> get ''id'' v = Some (JString ''7'') \<and> get ''method'' v = None)"
  using mcp_stream_answers_match [OF ex_sse_is_sse ex_sse_read] ex_sse_is_sse ex_sse_read by blast

end
