(* ===== verification/Slots.thy ===== *)
theory Slots
  imports Gateway_Prelude
begin

text \<open>
  The counters of requests in flight: the in-process counter
  (\<open>middleware/gateway_in_flight_limit/memory.rs\<close>), the Redis counter with its two Lua scripts
  (\<open>acquire_in_flight.lua\<close>, \<open>redis_release.rs\<close>, \<open>workspace_concurrency/redis_ops.rs\<close>), and the
  response body that releases its slot once (\<open>middleware/counted_body.rs\<close>). Both counters
  implement the interface \<open>slot_store\<close>.
\<close>

section \<open>The interface of a slot store\<close>

text \<open>
  A store hands out at most \<open>cap\<close> slots at a time; \<open>in_use\<close> is the number of slots it
  counts.
\<close>

locale slot_store =
  fixes try_acquire :: "'s \<Rightarrow> 's \<times> bool"
    and release :: "'s \<Rightarrow> 's"
    and in_use :: "'s \<Rightarrow> nat"
    and cap :: "'s \<Rightarrow> nat"
    and inv :: "'s \<Rightarrow> bool"
  assumes acquire_free:
      "\<lbrakk>inv s; in_use s < cap s\<rbrakk> \<Longrightarrow>
         snd (try_acquire s) \<and> in_use (fst (try_acquire s)) = Suc (in_use s)"
    and acquire_full:
      "\<lbrakk>inv s; cap s \<le> in_use s\<rbrakk> \<Longrightarrow>
         \<not> snd (try_acquire s) \<and> in_use (fst (try_acquire s)) = in_use s"
    and release_one: "inv s \<Longrightarrow> in_use (release s) = in_use s - 1"
    and inv_acquire: "inv s \<Longrightarrow> inv (fst (try_acquire s))"
    and inv_release: "inv s \<Longrightarrow> inv (release s)"
    and cap_acquire: "inv s \<Longrightarrow> cap (fst (try_acquire s)) = cap s"
    and cap_release: "inv s \<Longrightarrow> cap (release s) = cap s"
    and in_use_le: "inv s \<Longrightarrow> in_use s \<le> cap s"

text \<open>
  A client: a sequence of attempts to acquire and of releases by holders. \<open>held\<close> counts the
  holders; \<open>admitted\<close> lists which attempts succeed.
\<close>

datatype slot_op = Acquire | Release

fun serve ::
    "('s \<Rightarrow> 's \<times> bool) \<Rightarrow> ('s \<Rightarrow> 's) \<Rightarrow> 's \<Rightarrow> nat \<Rightarrow> slot_op list \<Rightarrow> 's \<times> nat" where
  "serve acq rel s held [] = (s, held)"
| "serve acq rel s held (Acquire # ops) =
     serve acq rel (fst (acq s)) (if snd (acq s) then Suc held else held) ops"
| "serve acq rel s held (Release # ops) =
     (if held = 0 then serve acq rel s held ops else serve acq rel (rel s) (held - 1) ops)"

context slot_store
begin

lemma acquire_iff: "inv s \<Longrightarrow> snd (try_acquire s) \<longleftrightarrow> in_use s < cap s"
  using acquire_free acquire_full by (meson not_less)

lemma in_use_acquire:
  "inv s \<Longrightarrow> in_use (fst (try_acquire s)) = (if snd (try_acquire s) then Suc (in_use s) else in_use s)"
  using acquire_free acquire_full by (meson not_less)

text \<open>Whatever the clients do, the store counts its holders and never exceeds the cap.\<close>

lemma serve_counts:
  "\<lbrakk>inv s; in_use s = held; serve try_acquire release s held ops = (s', held')\<rbrakk>
     \<Longrightarrow> inv s' \<and> in_use s' = held' \<and> held' \<le> cap s' \<and> cap s' = cap s"
proof (induction ops arbitrary: s held)
  case Nil
  then show ?case using in_use_le by auto
next
  case (Cons op ops)
  show ?case
  proof (cases op)
    case Acquire
    let ?s = "fst (try_acquire s)"
    have "inv ?s" "cap ?s = cap s" using Cons.prems(1) by (auto intro: inv_acquire cap_acquire)
    moreover have "in_use ?s = (if snd (try_acquire s) then Suc held else held)"
      using in_use_acquire [OF Cons.prems(1)] Cons.prems(2) by simp
    ultimately show ?thesis using Cons.IH [of ?s] Cons.prems(3) Acquire by simp
  next
    case Release
    show ?thesis
    proof (cases "held = 0")
      case True
      then show ?thesis using Cons.IH [of s held] Cons.prems Release by simp
    next
      case False
      have "inv (release s)" "cap (release s) = cap s" "in_use (release s) = held - 1"
        using Cons.prems(1,2) by (auto simp: inv_release cap_release release_one)
      then show ?thesis using Cons.IH [of "release s"] Cons.prems(3) Release False by simp
    qed
  qed
qed

end

section \<open>The in-process counter\<close>

record memory_limiter =
  ml_max :: nat
  ml_count :: nat

definition memory_new :: "nat \<Rightarrow> memory_limiter" where
  "memory_new m = \<lparr>ml_max = m, ml_count = 0\<rparr>"

definition memory_try_acquire :: "memory_limiter \<Rightarrow> memory_limiter \<times> bool" where
  "memory_try_acquire s =
     (if ml_max s = 0 then (s, True)
      else if ml_max s \<le> ml_count s then (s, False)
      else (s\<lparr>ml_count := ml_count s + 1\<rparr>, True))"

definition memory_release :: "memory_limiter \<Rightarrow> memory_limiter" where
  "memory_release s = s\<lparr>ml_count := ml_count s - 1\<rparr>"

definition memory_inv :: "memory_limiter \<Rightarrow> bool" where
  "memory_inv s \<longleftrightarrow> 0 < ml_max s \<and> ml_count s \<le> ml_max s"

interpretation mem: slot_store memory_try_acquire memory_release ml_count ml_max memory_inv
  by unfold_locales
    (auto simp: memory_try_acquire_def memory_release_def memory_inv_def)

section \<open>The Redis counter\<close>

text \<open>
  A Redis key with an integer value, or no key (\<open>None\<close>). \<open>INCR\<close> and \<open>DECR\<close> treat a missing key as
  0. The scripts run atomically. The expiry of the key is a step of the environment.
\<close>

type_synonym redis_counter = "int option"

definition redis_value :: "redis_counter \<Rightarrow> int" where
  "redis_value k = (case k of None \<Rightarrow> 0 | Some n \<Rightarrow> n)"

definition redis_incr :: "redis_counter \<Rightarrow> redis_counter" where
  "redis_incr k = Some (redis_value k + 1)"

definition redis_decr :: "redis_counter \<Rightarrow> redis_counter" where
  "redis_decr k = Some (redis_value k - 1)"

text \<open>\<open>acquire_in_flight.lua\<close>: count, and count back when the maximum is exceeded.\<close>

definition acquire_in_flight :: "int \<Rightarrow> redis_counter \<Rightarrow> redis_counter \<times> bool" where
  "acquire_in_flight max_concurrent k =
     (let k1 = redis_incr k in
      if max_concurrent < redis_value k1 then (redis_decr k1, False) else (k1, True))"

text \<open>The \<open>DECR_FLOOR\<close> script: decrement a positive counter, leave the others alone.\<close>

definition decr_floor :: "redis_counter \<Rightarrow> redis_counter" where
  "decr_floor k = (if 0 < redis_value k then redis_decr k else k)"

record redis_limiter =
  rl_max :: nat
  rl_key :: redis_counter

definition redis_try_acquire :: "redis_limiter \<Rightarrow> redis_limiter \<times> bool" where
  "redis_try_acquire s =
     (case acquire_in_flight (int (rl_max s)) (rl_key s) of (k, ok) \<Rightarrow> (s\<lparr>rl_key := k\<rparr>, ok))"

definition redis_release :: "redis_limiter \<Rightarrow> redis_limiter" where
  "redis_release s = s\<lparr>rl_key := decr_floor (rl_key s)\<rparr>"

definition redis_in_use :: "redis_limiter \<Rightarrow> nat" where
  "redis_in_use s = nat (redis_value (rl_key s))"

definition redis_inv :: "redis_limiter \<Rightarrow> bool" where
  "redis_inv s \<longleftrightarrow> 0 \<le> redis_value (rl_key s) \<and> redis_value (rl_key s) \<le> int (rl_max s)"

lemma redis_value_simps [simp]:
  "redis_value None = 0" "redis_value (Some n) = n"
  "redis_value (redis_incr k) = redis_value k + 1"
  "redis_value (redis_decr k) = redis_value k - 1"
  by (simp_all add: redis_value_def redis_incr_def redis_decr_def)

interpretation red: slot_store redis_try_acquire redis_release redis_in_use rl_max redis_inv
  by unfold_locales
    (auto simp: redis_try_acquire_def redis_release_def redis_in_use_def redis_inv_def
      acquire_in_flight_def decr_floor_def Let_def split: prod.splits)

lemma memory_serve:
  assumes "0 < m" and r: "serve memory_try_acquire memory_release (memory_new m) 0 ops = (s, h)"
  shows "ml_count s = h \<and> h \<le> m \<and> (snd (memory_try_acquire s) \<longleftrightarrow> h < m)"
proof -
  have i: "memory_inv (memory_new m)" using assms(1) by (simp add: memory_inv_def memory_new_def)
  from mem.serve_counts [OF i _ r]
  have *: "memory_inv s" "ml_count s = h" "h \<le> ml_max s" "ml_max s = m"
    by (auto simp: memory_new_def)
  then show ?thesis using mem.acquire_iff by auto
qed

lemma redis_serve:
  assumes r: "serve redis_try_acquire redis_release \<lparr>rl_max = m, rl_key = None\<rparr> 0 ops = (s, h)"
  shows "redis_in_use s = h \<and> h \<le> m \<and> (snd (redis_try_acquire s) \<longleftrightarrow> h < m)"
proof -
  have i: "redis_inv \<lparr>rl_max = m, rl_key = None\<rparr>" by (simp add: redis_inv_def)
  from red.serve_counts [OF i _ r]
  have *: "redis_inv s" "redis_in_use s = h" "h \<le> rl_max s" "rl_max s = m"
    by (auto simp: redis_in_use_def)
  then show ?thesis using red.acquire_iff by auto
qed

text \<open>
  Both slot stores bound the requests in flight: started empty, after
  any interleaving of attempts and releases by holders, the counter equals the number of holders,
  which is at most the configured maximum, and the next attempt succeeds exactly when fewer
  slots are held.
\<close>

lemma slot_stores_bound_in_flight:
  assumes "0 < m"
  shows "(\<forall>s h. serve memory_try_acquire memory_release (memory_new m) 0 ops = (s, h) \<longrightarrow>
            ml_count s = h \<and> h \<le> m \<and> (snd (memory_try_acquire s) \<longleftrightarrow> h < m))
       \<and> (\<forall>s h. serve redis_try_acquire redis_release \<lparr>rl_max = m, rl_key = None\<rparr> 0 ops = (s, h) \<longrightarrow>
            redis_in_use s = h \<and> h \<le> m \<and> (snd (redis_try_acquire s) \<longleftrightarrow> h < m))"
  using memory_serve [OF assms] redis_serve by blast

definition ex_ops :: "slot_op list" where
  "ex_ops = [Acquire, Acquire, Acquire, Release, Acquire]"

lemma slot_stores_bound_in_flight_example:
  "serve memory_try_acquire memory_release (memory_new 2) 0 ex_ops
     = (\<lparr>ml_max = 2, ml_count = 2\<rparr>, 2)
   \<and> \<not> snd (memory_try_acquire \<lparr>ml_max = 2, ml_count = 2\<rparr>)"
proof -
  have s: "serve memory_try_acquire memory_release (memory_new 2) 0 ex_ops
      = (\<lparr>ml_max = 2, ml_count = 2\<rparr>, 2)"
    by (simp add: ex_ops_def memory_new_def memory_try_acquire_def memory_release_def)
  moreover have "(0 :: nat) < 2" by simp
  ultimately show ?thesis using slot_stores_bound_in_flight [of 2 ex_ops] by auto
qed

section \<open>The body that releases its slot\<close>

record counted_body =
  released :: bool

datatype poll_outcome = Pending | Frame | FrameError | EndOfStream

datatype body_event = PollFrame poll_outcome | DropBody

definition new_body :: counted_body where
  "new_body = \<lparr>released = False\<rparr>"

text \<open>
  \<open>fire_release\<close>: the compare-and-exchange from \<open>false\<close> to \<open>true\<close>. The second component
  says whether the callback runs.
\<close>

definition fire_release :: "counted_body \<Rightarrow> counted_body \<times> bool" where
  "fire_release b = (b\<lparr>released := True\<rparr>, \<not> released b)"

definition poll_frame :: "counted_body \<Rightarrow> poll_outcome \<Rightarrow> counted_body \<times> bool" where
  "poll_frame b out =
     (if out = EndOfStream \<or> out = FrameError then fire_release b else (b, False))"

definition drop_body :: "counted_body \<Rightarrow> counted_body \<times> bool" where
  "drop_body b = fire_release b"

fun body_step :: "counted_body \<Rightarrow> body_event \<Rightarrow> counted_body \<times> bool" where
  "body_step b (PollFrame out) = poll_frame b out"
| "body_step b DropBody = drop_body b"

fun callbacks :: "counted_body \<Rightarrow> body_event list \<Rightarrow> nat" where
  "callbacks b [] = 0"
| "callbacks b (e # es) =
     (case body_step b e of (b', fired) \<Rightarrow> (if fired then 1 else 0) + callbacks b' es)"

definition terminating :: "body_event \<Rightarrow> bool" where
  "terminating e \<longleftrightarrow> e = DropBody \<or> e = PollFrame EndOfStream \<or> e = PollFrame FrameError"

lemma body_step_eq:
  "body_step b e = (if terminating e then (b\<lparr>released := True\<rparr>, \<not> released b) else (b, False))"
  by (cases e) (auto simp: poll_frame_def drop_body_def fire_release_def terminating_def)

lemma callbacks_released: "released b \<Longrightarrow> callbacks b es = 0"
  by (induction es arbitrary: b) (auto simp: body_step_eq)

lemma new_body_callbacks:
  "callbacks new_body es = (if \<exists>e \<in> set es. terminating e then 1 else 0)"
proof -
  have "\<not> released b \<Longrightarrow> callbacks b es = (if \<exists>e \<in> set es. terminating e then 1 else 0)" for b
    by (induction es arbitrary: b) (auto simp: body_step_eq callbacks_released)
  then show ?thesis by (simp add: new_body_def)
qed

text \<open>
  The release callback of a response body runs exactly once if the body is ever
  dropped, ends or fails, in whatever order and however often these events come, and not at all
  before: a slot is never given back twice.
\<close>

lemma counted_body_releases_once:
  "callbacks new_body es = (if \<exists>e \<in> set es. terminating e then 1 else 0)"
  by (rule new_body_callbacks)

end
