(* ===== verification/In_Flight.thy ===== *)
theory In_Flight
  imports Slots
begin

text \<open>
  The layer that caps the requests in flight of the whole gateway
  (\<open>middleware/gateway_in_flight_limit/layer.rs\<close>) with its two backends, the failover between them and
  the recovery task, as a transition system over the life of the requests; and the
  per-workspace counter (\<open>middleware/workspace_concurrency/service.rs\<close>).
\<close>

section \<open>The layer\<close>

datatype in_flight_backend = MemoryBackend | RedisBackend
datatype held_slot = HeldMemory | HeldRedis

record in_flight_config =
  enabled :: bool
  max_concurrent :: nat
  backend :: in_flight_backend

definition default_in_flight_config :: in_flight_config where
  "default_in_flight_config = \<lparr>enabled = False, max_concurrent = 0, backend = MemoryBackend\<rparr>"

text \<open>The errors that stop the start-up of the gateway, without their messages.\<close>

datatype init_error =
    InvalidGatewayInFlightLimitConfig
  | InvalidRateLimitConfig
  | InvalidClientIpRateLimitConfig

definition validate_global_gateway_in_flight_limit :: "in_flight_config option \<Rightarrow> init_error + unit" where
  "validate_global_gateway_in_flight_limit c =
     (case c of
        None \<Rightarrow> Ok ()
      | Some c \<Rightarrow>
          if \<not> enabled c then Ok ()
          else if max_concurrent c = 0 then Err InvalidGatewayInFlightLimitConfig
          else Ok ())"

text \<open>\<open>redis\<close> is \<open>None\<close> when no \<open>AppRedis\<close> is configured, and else the counter key.\<close>

record layer_state =
  cfg :: in_flight_config
  memory :: memory_limiter
  redis :: "redis_counter option"
  use_redis :: bool

definition effective_max :: "in_flight_config \<Rightarrow> nat" where
  "effective_max c = max (max_concurrent c) 1"

text \<open>\<open>GatewayInFlightLimitLayer::new\<close>; \<open>ping_ok\<close> is the result of the startup ping.\<close>

definition layer_new :: "in_flight_config \<Rightarrow> redis_counter option \<Rightarrow> bool \<Rightarrow> layer_state" where
  "layer_new c r ping_ok =
     \<lparr>cfg = c, memory = memory_new (effective_max c), redis = r,
      use_redis = (enabled c \<and> backend c = RedisBackend \<and> r \<noteq> None \<and> ping_ok)\<rparr>"

text \<open>One iteration of the recovery task, which is started whenever Redis is configured.\<close>

definition recovery_tick :: "layer_state \<Rightarrow> bool \<Rightarrow> layer_state" where
  "recovery_tick st ping_ok =
     (if redis st = None then st
      else if use_redis st then st
      else if ping_ok then st\<lparr>use_redis := True\<rparr> else st)"

text \<open>
  What can happen to the acquire script: it runs and its reply arrives; the call fails before
  the script has run; or it fails after.
\<close>

datatype redis_call = Executed | LostRequest | LostReply

definition acquire_memory :: "layer_state \<Rightarrow> layer_state \<times> held_slot option" where
  "acquire_memory st =
     (case memory_try_acquire (memory st) of
        (m, ok) \<Rightarrow> (st\<lparr>memory := m\<rparr>, if ok then Some HeldMemory else None))"

definition layer_try_acquire ::
    "layer_state \<Rightarrow> redis_call \<Rightarrow> layer_state \<times> held_slot option" where
  "layer_try_acquire st call =
     (case (use_redis st, redis st) of
        (True, Some k) \<Rightarrow>
          (case acquire_in_flight (int (effective_max (cfg st))) k of (k', ok) \<Rightarrow>
            (case call of
              Executed \<Rightarrow> (st\<lparr>redis := Some k'\<rparr>, if ok then Some HeldRedis else None)
            | LostRequest \<Rightarrow> acquire_memory (st\<lparr>use_redis := False\<rparr>)
            | LostReply \<Rightarrow> acquire_memory (st\<lparr>redis := Some k', use_redis := False\<rparr>)))
      | _ \<Rightarrow> acquire_memory st)"

section \<open>The life of the requests\<close>

text \<open>
  \<open>Serving\<close>: \<open>inner.call(req)\<close> is pending. \<open>Streaming\<close>: the response with the counted body is
  out. \<open>Abandoned\<close>: the future of the call was dropped while it was pending, as happens when the
  client disconnects before the response head.
\<close>

datatype phase =
    Serving held_slot
  | Streaming held_slot counted_body
  | Finished
  | Abandoned held_slot
  | Rejected
  | PassedThrough

text \<open>\<open>decrs\<close> counts the release tasks that are spawned and have not run.\<close>

record gateway =
  layer :: layer_state
  reqs :: "nat \<rightharpoonup> phase"
  decrs :: nat

definition gateway_new :: "in_flight_config \<Rightarrow> redis_counter option \<Rightarrow> bool \<Rightarrow> gateway" where
  "gateway_new c r ping_ok = \<lparr>layer = layer_new c r ping_ok, reqs = Map.empty, decrs = 0\<rparr>"

definition admit :: "gateway \<Rightarrow> nat \<Rightarrow> redis_call \<Rightarrow> gateway" where
  "admit g r call =
     (if \<not> enabled (cfg (layer g)) then g\<lparr>reqs := (reqs g)(r \<mapsto> PassedThrough)\<rparr>
      else case layer_try_acquire (layer g) call of
        (l, Some slot) \<Rightarrow> g\<lparr>layer := l, reqs := (reqs g)(r \<mapsto> Serving slot)\<rparr>
      | (l, None) \<Rightarrow> g\<lparr>layer := l, reqs := (reqs g)(r \<mapsto> Rejected)\<rparr>)"

text \<open>The closure \<open>on_release\<close> of a slot.\<close>

definition on_release :: "held_slot \<Rightarrow> gateway \<Rightarrow> gateway" where
  "on_release slot g =
     (case slot of
        HeldMemory \<Rightarrow> g\<lparr>layer := (layer g)\<lparr>memory := memory_release (memory (layer g))\<rparr>\<rparr>
      | HeldRedis \<Rightarrow> if redis (layer g) = None then g else g\<lparr>decrs := decrs g + 1\<rparr>)"

definition body_event_of :: "gateway \<Rightarrow> nat \<Rightarrow> held_slot \<Rightarrow> counted_body \<Rightarrow> body_event \<Rightarrow> gateway" where
  "body_event_of g r slot b e =
     (case body_step b e of (b', fired) \<Rightarrow>
        (let g' = (if fired then on_release slot g else g) in
         g'\<lparr>reqs := (reqs g')(r \<mapsto> (if e = DropBody then Finished else Streaming slot b'))\<rparr>))"

inductive gw_step :: "gateway \<Rightarrow> gateway \<Rightarrow> bool" where
  arrive: "reqs g r = None \<Longrightarrow> gw_step g (admit g r call)"
| respond: "reqs g r = Some (Serving slot) \<Longrightarrow>
    gw_step g (g\<lparr>reqs := (reqs g)(r \<mapsto> Streaming slot new_body)\<rparr>)"
| cancel: "reqs g r = Some (Serving slot) \<Longrightarrow>
    gw_step g (g\<lparr>reqs := (reqs g)(r \<mapsto> Abandoned slot)\<rparr>)"
| body: "reqs g r = Some (Streaming slot b) \<Longrightarrow> gw_step g (body_event_of g r slot b e)"
| decr_runs: "\<lbrakk>0 < decrs g; redis (layer g) = Some k\<rbrakk> \<Longrightarrow>
    gw_step g (g\<lparr>decrs := decrs g - 1, layer := (layer g)\<lparr>redis := Some (decr_floor k)\<rparr>\<rparr>)"
| decr_fails: "0 < decrs g \<Longrightarrow> gw_step g (g\<lparr>decrs := decrs g - 1\<rparr>)"
| recover: "gw_step g (g\<lparr>layer := recovery_tick (layer g) ping_ok\<rparr>)"
| expire: "redis (layer g) = Some k \<Longrightarrow>
    gw_step g (g\<lparr>layer := (layer g)\<lparr>redis := Some None\<rparr>\<rparr>)"

inductive gw_reachable :: "gateway \<Rightarrow> gateway \<Rightarrow> bool" for g0 where
  init: "gw_reachable g0 g0"
| step: "\<lbrakk>gw_reachable g0 g; gw_step g g'\<rbrakk> \<Longrightarrow> gw_reachable g0 g'"

section \<open>The invariant\<close>

fun occupies :: "held_slot \<Rightarrow> phase \<Rightarrow> bool" where
  "occupies s (Serving t) = (s = t)"
| "occupies s (Streaming t b) = (s = t \<and> \<not> released b)"
| "occupies s (Abandoned t) = (s = t)"
| "occupies s _ = False"

definition holders :: "held_slot \<Rightarrow> gateway \<Rightarrow> nat set" where
  "holders s g = {r. \<exists>p. reqs g r = Some p \<and> occupies s p}"

definition gw_inv :: "gateway \<Rightarrow> bool" where
  "gw_inv g \<longleftrightarrow> finite (dom (reqs g)) \<and> memory_inv (memory (layer g))
     \<and> ml_max (memory (layer g)) = effective_max (cfg (layer g))
     \<and> ml_count (memory (layer g)) = card (holders HeldMemory g)
     \<and> (\<forall>k. redis (layer g) = Some k \<longrightarrow> 0 \<le> redis_value k)"

lemma finite_holders: "finite (dom (reqs g)) \<Longrightarrow> finite (holders s g)"
  by (rule finite_subset [of _ "dom (reqs g)"]) (auto simp: holders_def)

lemma holders_update:
  "holders s (g\<lparr>reqs := (reqs g)(r \<mapsto> p)\<rparr>) =
     (if occupies s p then insert r (holders s g) else holders s g - {r})"
  by (auto simp: holders_def split: if_splits)

lemma holders_same_reqs: "reqs g' = reqs g \<Longrightarrow> holders s g' = holders s g"
  by (simp add: holders_def)

lemma gw_inv_init: "(\<And>k. r = Some k \<Longrightarrow> 0 \<le> redis_value k) \<Longrightarrow> gw_inv (gateway_new c r ping)"
  by (auto simp: gw_inv_def gateway_new_def layer_new_def memory_new_def memory_inv_def
      effective_max_def holders_def)

lemma acquire_in_flight_nonneg:
  "\<lbrakk>acquire_in_flight m k = (k', ok); 0 \<le> redis_value k\<rbrakk> \<Longrightarrow> 0 \<le> redis_value k'"
  by (auto simp: acquire_in_flight_def Let_def split: if_splits)

lemma decr_floor_nonneg: "0 \<le> redis_value k \<Longrightarrow> 0 \<le> redis_value (decr_floor k)"
  by (simp add: decr_floor_def)


definition redis_nonneg :: "layer_state \<Rightarrow> bool" where
  "redis_nonneg l \<longleftrightarrow> (\<forall>k. redis l = Some k \<longrightarrow> 0 \<le> redis_value k)"

lemma acquire_memory_effect:
  assumes "acquire_memory st = (l, s)" and "memory_inv (memory st)"
  shows "cfg l = cfg st \<and> redis l = redis st \<and> memory_inv (memory l)
    \<and> ml_max (memory l) = ml_max (memory st) \<and> s \<noteq> Some HeldRedis
    \<and> ml_count (memory l) = ml_count (memory st) + (if s = Some HeldMemory then 1 else 0)"
  using assms
  by (auto simp: acquire_memory_def memory_try_acquire_def memory_inv_def split: if_splits)

lemma layer_try_acquire_effect:
  assumes "layer_try_acquire st call = (l, s)" and "memory_inv (memory st)" and "redis_nonneg st"
  shows "cfg l = cfg st \<and> redis_nonneg l \<and> memory_inv (memory l)
    \<and> ml_max (memory l) = ml_max (memory st)
    \<and> ml_count (memory l) = ml_count (memory st) + (if s = Some HeldMemory then 1 else 0)"
proof (cases "use_redis st \<and> redis st \<noteq> None")
  case False
  then have "acquire_memory st = (l, s)"
    using assms(1) by (auto simp: layer_try_acquire_def split: bool.splits option.splits)
  with assms(2,3) show ?thesis using acquire_memory_effect by (auto simp: redis_nonneg_def)
next
  case True
  then obtain k where k: "redis st = Some k" and u: "use_redis st" by auto
  obtain k' ok where a: "acquire_in_flight (int (effective_max (cfg st))) k = (k', ok)"
    by (cases "acquire_in_flight (int (effective_max (cfg st))) k")
  have k0: "0 \<le> redis_value k'"
    using acquire_in_flight_nonneg [OF a] assms(3) k by (simp add: redis_nonneg_def)
  show ?thesis
  proof (cases call)
    case Executed
    with assms k u a k0 show ?thesis
      by (auto simp: layer_try_acquire_def redis_nonneg_def split: if_splits)
  next
    case LostRequest
    with assms(1) k u a have "acquire_memory (st\<lparr>use_redis := False\<rparr>) = (l, s)"
      by (simp add: layer_try_acquire_def)
    from acquire_memory_effect [OF this] assms(2,3) k show ?thesis by (auto simp: redis_nonneg_def)
  next
    case LostReply
    with assms(1) k u a have "acquire_memory (st\<lparr>redis := Some k', use_redis := False\<rparr>) = (l, s)"
      by (simp add: layer_try_acquire_def)
    from acquire_memory_effect [OF this] assms(2) k0 show ?thesis by (auto simp: redis_nonneg_def)
  qed
qed

lemma gw_inv_alt:
  "gw_inv g \<longleftrightarrow> finite (dom (reqs g)) \<and> memory_inv (memory (layer g))
     \<and> ml_max (memory (layer g)) = effective_max (cfg (layer g))
     \<and> ml_count (memory (layer g)) = card (holders HeldMemory g) \<and> redis_nonneg (layer g)"
  by (simp add: gw_inv_def redis_nonneg_def)

text \<open>A new phase for a request changes the holders by at most that request.\<close>

lemma card_holders_update:
  assumes "finite (dom (reqs g))"
  shows "card (holders s (g\<lparr>reqs := (reqs g)(r \<mapsto> p)\<rparr>)) =
    (if occupies s p then (if r \<in> holders s g then card (holders s g) else card (holders s g) + 1)
     else (if r \<in> holders s g then card (holders s g) - 1 else card (holders s g)))"
  using finite_holders [OF assms, of s] by (simp add: holders_update card_insert_if)

lemma gw_inv_phase:
  assumes "gw_inv g" and "occupies HeldMemory p \<longleftrightarrow> r \<in> holders HeldMemory g"
  shows "gw_inv (g\<lparr>reqs := (reqs g)(r \<mapsto> p)\<rparr>)"
proof -
  have f: "finite (dom (reqs g))" using assms(1) by (simp add: gw_inv_alt)
  have "card (holders HeldMemory (g\<lparr>reqs := (reqs g)(r \<mapsto> p)\<rparr>)) = card (holders HeldMemory g)"
    using card_holders_update [OF f, of HeldMemory r p] assms(2) by auto
  with assms(1) show ?thesis by (simp add: gw_inv_alt)
qed

lemma admit_inv:
  assumes "gw_inv g" and "reqs g r = None" shows "gw_inv (admit g r call)"
proof (cases "enabled (cfg (layer g))")
  case False
  have "r \<notin> holders HeldMemory g" using assms(2) by (simp add: holders_def)
  then show ?thesis using False gw_inv_phase [OF assms(1), of PassedThrough r]
    by (simp add: admit_def)
next
  case True
  obtain l s where a: "layer_try_acquire (layer g) call = (l, s)"
    by (cases "layer_try_acquire (layer g) call")
  have e: "cfg l = cfg (layer g) \<and> redis_nonneg l \<and> memory_inv (memory l)
    \<and> ml_max (memory l) = ml_max (memory (layer g))
    \<and> ml_count (memory l) = ml_count (memory (layer g)) + (if s = Some HeldMemory then 1 else 0)"
    by (rule layer_try_acquire_effect [OF a]) (use assms(1) in \<open>simp_all add: gw_inv_alt\<close>)
  define p where "p = (case s of Some slot \<Rightarrow> Serving slot | None \<Rightarrow> Rejected)"
  have g': "admit g r call = g\<lparr>layer := l, reqs := (reqs g)(r \<mapsto> p)\<rparr>"
    using True a by (cases s) (simp_all add: admit_def p_def)
  have f: "finite (dom (reqs g))" using assms(1) by (simp add: gw_inv_alt)
  have "holders HeldMemory (admit g r call) = holders HeldMemory (g\<lparr>reqs := (reqs g)(r \<mapsto> p)\<rparr>)"
    by (rule holders_same_reqs) (simp add: g')
  moreover have "r \<notin> holders HeldMemory g" using assms(2) by (simp add: holders_def)
  moreover have "occupies HeldMemory p \<longleftrightarrow> s = Some HeldMemory"
    by (auto simp: p_def split: option.splits)
  ultimately have "card (holders HeldMemory (admit g r call))
      = card (holders HeldMemory g) + (if s = Some HeldMemory then 1 else 0)"
    using card_holders_update [OF f, of HeldMemory r p] by auto
  with e assms(1) show ?thesis by (simp add: g' gw_inv_alt)
qed

lemma body_event_inv:
  assumes "gw_inv g" and r: "reqs g r = Some (Streaming slot b)"
  shows "gw_inv (body_event_of g r slot b e)"
proof -
  define p where "p = (if e = DropBody then Finished else Streaming slot (fst (body_step b e)))"
  define fired where "fired = snd (body_step b e)"
  define g1 where "g1 = (if fired then on_release slot g else g)"
  have eq: "body_event_of g r slot b e = g1\<lparr>reqs := (reqs g)(r \<mapsto> p)\<rparr>"
    by (auto simp: body_event_of_def p_def fired_def g1_def on_release_def Let_def
        split: prod.splits held_slot.splits)
  have h: "holders HeldMemory (g1\<lparr>reqs := (reqs g)(r \<mapsto> p)\<rparr>)
      = holders HeldMemory (g\<lparr>reqs := (reqs g)(r \<mapsto> p)\<rparr>)"
    by (rule holders_same_reqs) simp
  have f: "finite (dom (reqs g))" using assms(1) by (simp add: gw_inv_alt)
  have in_h: "r \<in> holders HeldMemory g \<longleftrightarrow> slot = HeldMemory \<and> \<not> released b"
    using r by (auto simp: holders_def)
  have occ: "occupies HeldMemory p \<longleftrightarrow> slot = HeldMemory \<and> \<not> released b \<and> \<not> fired"
    by (auto simp: p_def fired_def body_step_eq terminating_def)
  have fired: "fired \<Longrightarrow> \<not> released b" by (auto simp: fired_def body_step_eq split: if_splits)
  show ?thesis
    unfolding eq gw_inv_alt h card_holders_update [OF f]
    using assms(1) fired unfolding gw_inv_alt
    by (auto simp: g1_def on_release_def occ in_h memory_release_def memory_inv_def
        redis_nonneg_def split: held_slot.splits)
qed

lemma gw_step_inv: "\<lbrakk>gw_step g g'; gw_inv g\<rbrakk> \<Longrightarrow> gw_inv g'"
proof (induction rule: gw_step.induct)
  case (arrive g r call)
  then show ?case by (intro admit_inv)
next
  case (respond g r slot)
  then show ?case by (intro gw_inv_phase) (auto simp: holders_def new_body_def)
next
  case (cancel g r slot)
  then show ?case by (intro gw_inv_phase) (auto simp: holders_def)
next
  case (body g r slot b e)
  then show ?case by (intro body_event_inv)
next
  case (decr_runs g k)
  then show ?case by (auto simp: gw_inv_def holders_def intro: decr_floor_nonneg)
qed (auto simp: gw_inv_def holders_def recovery_tick_def)

lemma gw_reachable_inv: "\<lbrakk>gw_reachable g0 g; gw_inv g0\<rbrakk> \<Longrightarrow> gw_inv g"
  by (induction rule: gw_reachable.induct) (auto intro: gw_step_inv)

lemma gw_step_cfg: "gw_step g g' \<Longrightarrow> cfg (layer g') = cfg (layer g)"
  by (induction rule: gw_step.induct)
    (auto simp: admit_def layer_try_acquire_def acquire_memory_def body_event_of_def on_release_def
      recovery_tick_def Let_def split: prod.splits option.splits bool.splits redis_call.splits
      held_slot.splits if_splits)

lemma gw_reachable_cfg: "gw_reachable g0 g \<Longrightarrow> cfg (layer g) = cfg (layer g0)"
  by (induction rule: gw_reachable.induct) (auto dest: gw_step_cfg)

section \<open>Properties of the layer\<close>

text \<open>
  Property C36. In every reachable state of the gateway, whatever Redis does (failures, lost replies,
  expired keys, recovery) and in whatever order responses end, the in-process counter equals the
  number of requests that occupy one of its slots, and at most the configured maximum do.
\<close>

theorem in_flight_memory_bounded:
  assumes "gw_reachable (gateway_new c r ping) g" and "\<forall>k. r = Some k \<longrightarrow> 0 \<le> redis_value k"
  shows "ml_count (memory (layer g)) = card (holders HeldMemory g)
    \<and> card (holders HeldMemory g) \<le> effective_max c
    \<and> (\<forall>k. redis (layer g) = Some k \<longrightarrow> 0 \<le> redis_value k)"
proof -
  have i: "gw_inv g" using gw_reachable_inv [OF assms(1)] gw_inv_init assms(2) by blast
  have "cfg (layer g) = c" using gw_reachable_cfg [OF assms(1)]
    by (simp add: gateway_new_def layer_new_def)
  with i show ?thesis by (auto simp: gw_inv_def memory_inv_def)
qed

definition ex_cfg :: in_flight_config where
  "ex_cfg = \<lparr>enabled = True, max_concurrent = 1, backend = MemoryBackend\<rparr>"

definition ex_gw0 :: gateway where "ex_gw0 = gateway_new ex_cfg None False"
definition ex_gw1 :: gateway where "ex_gw1 = admit ex_gw0 0 Executed"
definition ex_gw2 :: gateway where
  "ex_gw2 = ex_gw1\<lparr>reqs := (reqs ex_gw1)(0 \<mapsto> Abandoned HeldMemory)\<rparr>"

lemma ex_gw1_eq:
  "ex_gw1 = \<lparr>layer = \<lparr>cfg = ex_cfg, memory = \<lparr>ml_max = 1, ml_count = 1\<rparr>, redis = None,
     use_redis = False\<rparr>, reqs = [0 \<mapsto> Serving HeldMemory], decrs = 0\<rparr>"
  by (simp add: ex_gw1_def ex_gw0_def gateway_new_def layer_new_def admit_def ex_cfg_def
      layer_try_acquire_def acquire_memory_def memory_try_acquire_def memory_new_def
      effective_max_def)

lemma ex_gw1_reachable: "gw_reachable (gateway_new ex_cfg None False) ex_gw1"
proof -
  have "gw_step ex_gw0 ex_gw1" unfolding ex_gw1_def
    by (rule gw_step.arrive) (simp add: ex_gw0_def gateway_new_def)
  then show ?thesis unfolding ex_gw0_def by (rule gw_reachable.step [OF gw_reachable.init])
qed

lemma ex_gw2_reachable: "gw_reachable (gateway_new ex_cfg None False) ex_gw2"
proof -
  have "gw_step ex_gw1 ex_gw2" unfolding ex_gw2_def
    by (rule gw_step.cancel) (simp add: ex_gw1_eq)
  with ex_gw1_reachable show ?thesis by (rule gw_reachable.step)
qed

theorem in_flight_memory_bounded_witness:
  "gw_reachable (gateway_new ex_cfg None False) ex_gw1
   \<and> ml_count (memory (layer ex_gw1)) = card (holders HeldMemory ex_gw1)
   \<and> card (holders HeldMemory ex_gw1) \<le> effective_max ex_cfg"
  using ex_gw1_reachable in_flight_memory_bounded [OF ex_gw1_reachable] by simp

definition abandoned :: "gateway \<Rightarrow> nat set" where
  "abandoned g = {r. reqs g r = Some (Abandoned HeldMemory)}"

lemma gw_step_abandoned: "gw_step g g' \<Longrightarrow> abandoned g \<subseteq> abandoned g'"
  by (induction rule: gw_step.induct)
    (auto simp: abandoned_def admit_def body_event_of_def on_release_def Let_def
      split: prod.splits option.splits held_slot.splits if_splits)

lemma gw_reachable_abandoned: "gw_reachable g g' \<Longrightarrow> abandoned g \<subseteq> abandoned g'"
  by (induction rule: gw_reachable.induct) (auto dest: gw_step_abandoned)

lemma gw_reachable_trans: "\<lbrakk>gw_reachable b c; gw_reachable a b\<rbrakk> \<Longrightarrow> gw_reachable a c"
  by (induction rule: gw_reachable.induct) (auto intro: gw_reachable.step)

text \<open>
  The slot of a request whose client disconnects before the response head is never
  given back: nothing releases it when the future of the call is dropped. Once as many requests
  as the maximum have been abandoned, the gateway rejects every later request that goes to the
  in-process counter, for ever.
\<close>

theorem in_flight_abandoned_slots_leak:
  assumes "gw_reachable (gateway_new c r ping) g" and "\<forall>k. r = Some k \<longrightarrow> 0 \<le> redis_value k"
    and "enabled c" and "effective_max c \<le> card (abandoned g)"
    and "gw_reachable g g'" and "\<not> use_redis (layer g')" and "reqs g' n = None"
  shows "reqs (admit g' n call) n = Some Rejected"
proof -
  have r': "gw_reachable (gateway_new c r ping) g'"
    using assms(5,1) by (rule gw_reachable_trans)
  have i: "gw_inv g'" using gw_reachable_inv [OF r'] gw_inv_init assms(2) by blast
  have c: "cfg (layer g') = c"
    using gw_reachable_cfg [OF r'] by (simp add: gateway_new_def layer_new_def)
  have "abandoned g \<subseteq> holders HeldMemory g'"
    using gw_reachable_abandoned [OF assms(5)] by (auto simp: abandoned_def holders_def)
  then have "card (abandoned g) \<le> card (holders HeldMemory g')"
    using i by (auto simp: gw_inv_def intro: card_mono finite_holders)
  with i c assms(4) have "ml_max (memory (layer g')) \<le> ml_count (memory (layer g'))"
    and "0 < ml_max (memory (layer g'))"
    by (auto simp: gw_inv_def memory_inv_def)
  then show ?thesis using assms(3,6) c
    by (simp add: admit_def layer_try_acquire_def acquire_memory_def memory_try_acquire_def
        split: option.splits)
qed

theorem in_flight_abandoned_slots_leak_witness:
  "effective_max ex_cfg \<le> card (abandoned ex_gw2)
   \<and> reqs (admit ex_gw2 1 Executed) 1 = Some Rejected"
proof -
  have a: "abandoned ex_gw2 = {0}"
    by (auto simp: abandoned_def ex_gw2_def ex_gw1_eq split: if_splits)
  have u: "\<not> use_redis (layer ex_gw2)" and n: "reqs ex_gw2 1 = None"
    by (simp_all add: ex_gw2_def ex_gw1_eq)
  have c: "effective_max ex_cfg \<le> card (abandoned ex_gw2)"
    by (simp add: a effective_max_def ex_cfg_def)
  moreover have "reqs (admit ex_gw2 1 Executed) 1 = Some Rejected"
    by (rule in_flight_abandoned_slots_leak [OF ex_gw2_reachable _ _ c gw_reachable.init u n])
      (simp_all add: ex_cfg_def)
  ultimately show ?thesis by simp
qed

text \<open>
  The configured backend does not bind the layer: the recovery task runs whenever Redis is
  configured, so with the in-process backend its first successful ping moves the
  layer to Redis, and the next request takes a Redis slot.
\<close>

lemma in_flight_memory_backend_overridden:
  assumes "enabled c" and "backend c = MemoryBackend" and "redis_value k < int (effective_max c)"
  shows "snd (layer_try_acquire (layer_new c (Some k) ping) Executed) = Some HeldMemory
    \<and> snd (layer_try_acquire (recovery_tick (layer_new c (Some k) ping) True) Executed)
        = Some HeldRedis"
  using assms
  by (simp add: layer_new_def recovery_tick_def layer_try_acquire_def acquire_memory_def
      memory_try_acquire_def memory_new_def acquire_in_flight_def Let_def effective_max_def)

lemma in_flight_memory_backend_overridden_witness:
  "backend ex_cfg = MemoryBackend
   \<and> snd (layer_try_acquire (recovery_tick (layer_new ex_cfg (Some None) True) True) Executed)
       = Some HeldRedis"
  using in_flight_memory_backend_overridden [of ex_cfg None True]
  by (simp add: ex_cfg_def effective_max_def)

section \<open>The workspace counter\<close>

text \<open>
  \<open>incr_and_expire\<close> sends \<open>INCR\<close> and then \<open>EXPIRE\<close>; an error of either is an error of
  the whole.
\<close>

datatype incr_call = IncrOk | IncrFailed | ExpireFailed

datatype ws_response = WsError | WsPlain | WsCounted counted_body

definition WS_KEY_PREFIX :: string where
  "WS_KEY_PREFIX = ''lc:mq:rmt:concurrency:ws:''"

definition ws_redis_key :: "string \<Rightarrow> string" where
  "ws_redis_key workspace = WS_KEY_PREFIX @ workspace"

definition incr_refresh_ttl :: "redis_counter \<Rightarrow> incr_call \<Rightarrow> redis_counter \<times> bool" where
  "incr_refresh_ttl k call =
     (case call of
        IncrOk \<Rightarrow> (redis_incr k, True)
      | ExpireFailed \<Rightarrow> (redis_incr k, False)
      | IncrFailed \<Rightarrow> (k, False))"

text \<open>\<open>WorkspaceConcurrencyService::call\<close>; \<open>inner_ok\<close> is the outcome of the inner service.\<close>

definition ws_call :: "redis_counter \<Rightarrow> incr_call \<Rightarrow> bool \<Rightarrow> redis_counter \<times> ws_response" where
  "ws_call k call inner_ok =
     (case incr_refresh_ttl k call of (k1, incr_ok) \<Rightarrow>
        if \<not> inner_ok then (k1, WsError)
        else if \<not> incr_ok then (k1, WsPlain)
        else (k1, WsCounted new_body))"

text \<open>The counter after the whole request: the body of the response sees \<open>events\<close>.\<close>

definition ws_request :: "redis_counter \<Rightarrow> incr_call \<Rightarrow> bool \<Rightarrow> body_event list \<Rightarrow> redis_counter" where
  "ws_request k call inner_ok events =
     (case ws_call k call inner_ok of
        (k1, WsCounted b) \<Rightarrow> (decr_floor ^^ callbacks b events) k1
      | (k1, _) \<Rightarrow> k1)"

text \<open>
  A request whose inner service answers leaves the workspace counter as it found
  it once its body has ended, failed or been dropped. A request whose inner service fails leaves
  the counter one too high: the error return comes after the increment and before the body that would
  decrement it.
\<close>

theorem workspace_counter_balance:
  assumes "0 \<le> redis_value k"
  shows "((\<exists>e \<in> set events. terminating e)
            \<longrightarrow> redis_value (ws_request k IncrOk True events) = redis_value k)
    \<and> redis_value (ws_request k IncrOk False events) = redis_value k + 1"
proof -
  have "callbacks new_body events = (if \<exists>e \<in> set events. terminating e then 1 else 0)"
    by (rule new_body_callbacks)
  with assms show ?thesis
    by (simp add: ws_request_def ws_call_def incr_refresh_ttl_def decr_floor_def)
qed

theorem workspace_counter_balance_witness:
  "redis_value (ws_request (Some 4) IncrOk True [PollFrame Frame, PollFrame EndOfStream, DropBody]) = 4
   \<and> redis_value (ws_request (Some 4) IncrOk False []) = 5"
  using workspace_counter_balance [of "Some 4" "[PollFrame Frame, PollFrame EndOfStream, DropBody]"]
    workspace_counter_balance [of "Some 4" "[]"]
  by (simp add: terminating_def)

end
