(* ===== verification/Client_Ip.thy ===== *)
theory Client_Ip
  imports Mcp_Transport In_Flight
begin

text \<open>
  The rate limit per client address (\<open>middleware/client_ip_rate_limit\<close>): the in-process sliding
  window (\<open>memory.rs\<close>), the Redis script (\<open>client_ip_sliding.lua\<close>), the choice of the client
  address (\<open>resolve_ip.rs\<close>) and the layer (\<open>layer.rs\<close>). Both windows implement the interface
  \<open>sliding_log\<close>, an ideal log of the accepted requests.
\<close>

section \<open>The ideal log\<close>

text \<open>
  The ideal limiter remembers every accepted request. \<open>recent now t\<close> says that a request accepted at
  \<open>t\<close> still counts at time \<open>now\<close>; a request is accepted when fewer than \<open>limit\<close> count.
\<close>

definition log_accepts :: "(nat \<Rightarrow> nat \<Rightarrow> bool) \<Rightarrow> nat \<Rightarrow> nat list \<Rightarrow> nat \<Rightarrow> bool" where
  "log_accepts recent limit log now \<longleftrightarrow> length (filter (recent now) log) < limit"

fun log_run :: "(nat \<Rightarrow> nat \<Rightarrow> bool) \<Rightarrow> nat \<Rightarrow> nat list \<Rightarrow> nat list \<Rightarrow> nat list" where
  "log_run recent limit log [] = log"
| "log_run recent limit log (now # ts) =
     log_run recent limit (if log_accepts recent limit log now then log @ [now] else log) ts"

text \<open>
  The interface: a window whose \<open>recent\<close> entries only get fewer as time passes and hold for the
  present.
\<close>

locale sliding_log =
  fixes recent :: "nat \<Rightarrow> nat \<Rightarrow> bool"
  assumes recent_mono: "\<lbrakk>recent now t; t \<le> u; u \<le> now\<rbrakk> \<Longrightarrow> recent now u"
    and recent_ages: "\<lbrakk>recent now t; before \<le> now; t \<le> before\<rbrakk> \<Longrightarrow> recent before t"
    and recent_now: "recent now now"
begin

lemma filter_recent_dropWhile:
  "\<lbrakk>sorted log; \<forall>t \<in> set log. t \<le> now\<rbrakk> \<Longrightarrow>
     filter (recent now) log = dropWhile (\<lambda>t. \<not> recent now t) log"
proof (induction log)
  case Nil
  then show ?case by simp
next
  case (Cons a log)
  show ?case
  proof (cases "recent now a")
    case True
    have "filter (recent now) log = log"
      using Cons.prems True by (auto simp: filter_id_conv intro: recent_mono)
    with True show ?thesis by simp
  next
    case False
    with Cons show ?thesis by simp
  qed
qed

text \<open>Forgetting the entries that were not recent before changes nothing later.\<close>

lemma filter_recent_filter:
  "\<lbrakk>before \<le> now; \<forall>t \<in> set log. t \<le> before\<rbrakk> \<Longrightarrow>
     filter (recent now) (filter (recent before) log) = filter (recent now) log"
  by (auto intro!: filter_cong intro: recent_ages)

lemma log_run_props:
  "\<lbrakk>sorted ts; sorted log; \<forall>t \<in> set log. \<forall>u \<in> set ts. t \<le> u\<rbrakk> \<Longrightarrow>
     sorted (log_run recent limit log ts)
     \<and> set (log_run recent limit log ts) \<subseteq> set log \<union> set ts"
proof (induction ts arbitrary: log)
  case Nil
  then show ?case by simp
next
  case (Cons now ts)
  let ?log = "if log_accepts recent limit log now then log @ [now] else log"
  have "sorted ?log" using Cons.prems by (auto simp: sorted_append)
  moreover have "\<forall>t \<in> set ?log. \<forall>u \<in> set ts. t \<le> u" using Cons.prems by auto
  ultimately have "sorted (log_run recent limit ?log ts)
      \<and> set (log_run recent limit ?log ts) \<subseteq> set ?log \<union> set ts"
    using Cons.IH Cons.prems(1) by auto
  then show ?case by auto
qed

text \<open>At no time do more than \<open>limit\<close> accepted requests count.\<close>

lemma log_run_bound:
  "\<lbrakk>sorted ts; sorted log; \<forall>t \<in> set log. \<forall>u \<in> set ts. t \<le> u;
    \<forall>T \<in> set log. length (filter (\<lambda>t. t \<le> T \<and> recent T t) log) \<le> limit\<rbrakk> \<Longrightarrow>
     \<forall>T \<in> set (log_run recent limit log ts).
       length (filter (\<lambda>t. t \<le> T \<and> recent T t) (log_run recent limit log ts)) \<le> limit"
proof (induction ts arbitrary: log)
  case Nil
  then show ?case by simp
next
  case (Cons now ts)
  show ?case
  proof (cases "log_accepts recent limit log now")
    case False
    then show ?thesis using Cons.IH [of log] Cons.prems by simp
  next
    case True
    let ?log = "log @ [now]"
    have le: "\<forall>t \<in> set log. t \<le> now" using Cons.prems(3) by simp
    have new: "length (filter (\<lambda>t. t \<le> now \<and> recent now t) ?log) \<le> limit"
    proof -
      have "filter (\<lambda>t. t \<le> now \<and> recent now t) log = filter (recent now) log"
        using le by (auto intro!: filter_cong)
      then show ?thesis using True recent_now by (simp add: log_accepts_def)
    qed
    have old: "length (filter (\<lambda>t. t \<le> T \<and> recent T t) ?log) \<le> limit" if "T \<in> set log" for T
    proof (cases "T = now")
      case True
      then show ?thesis using new by simp
    next
      case False
      then have "T < now" using le that by auto
      then show ?thesis using Cons.prems(4) that by simp
    qed
    have "\<forall>T \<in> set ?log. length (filter (\<lambda>t. t \<le> T \<and> recent T t) ?log) \<le> limit"
      using new old by auto
    moreover have "sorted ?log" using Cons.prems(2) le by (auto simp: sorted_append)
    moreover have "\<forall>t \<in> set ?log. \<forall>u \<in> set ts. t \<le> u" using Cons.prems(1,3) by auto
    ultimately show ?thesis using Cons.IH [of ?log] Cons.prems(1) True by simp
  qed
qed

end

section \<open>The in-process window\<close>

text \<open>
  Instants are nanoseconds of the monotonic clock. The map is a list of entries with distinct
  keys; \<open>first_key\<close> stands for the iteration order of the hash map.
\<close>

definition MAX_TRACKED_IPS :: nat where "MAX_TRACKED_IPS = 100000"
definition WINDOW_NS :: nat where "WINDOW_NS = 1000000000"

record 'ip ip_limiter =
  ip_limit :: nat
  ip_map :: "('ip \<times> nat list) list"

definition ip_limiter_new :: "nat \<Rightarrow> 'ip ip_limiter" where
  "ip_limiter_new limit = \<lparr>ip_limit = limit, ip_map = []\<rparr>"

definition evict :: "(('ip \<times> nat list) list \<Rightarrow> 'ip option) \<Rightarrow> ('ip \<times> nat list) list \<Rightarrow> 'ip
    \<Rightarrow> ('ip \<times> nat list) list" where
  "evict first_key m ip =
     (if MAX_TRACKED_IPS \<le> length m \<and> map_of m ip = None
      then (case first_key m of Some k \<Rightarrow> AList.delete k m | None \<Rightarrow> m) else m)"

text \<open>\<open>MemoryLimiter::check\<close>; \<open>now.duration_since(t)\<close> is 0 when \<open>t\<close> is later.\<close>

definition ip_check ::
    "(('ip \<times> nat list) list \<Rightarrow> 'ip option) \<Rightarrow> 'ip ip_limiter \<Rightarrow> 'ip \<Rightarrow> nat
       \<Rightarrow> 'ip ip_limiter \<times> bool" where
  "ip_check first_key s ip now =
     (if ip_limit s = 0 then (s, True)
      else
        (let m = evict first_key (ip_map s) ip;
             deque = (case map_of m ip of None \<Rightarrow> [] | Some d \<Rightarrow> d);
             deque' = dropWhile (\<lambda>t. WINDOW_NS < now - t) deque;
             active = min (u32_bound - 1) (length deque')
         in if ip_limit s \<le> active
            then (s\<lparr>ip_map := AList.update ip deque' m\<rparr>, False)
            else (s\<lparr>ip_map := AList.update ip (deque' @ [now]) m\<rparr>, True)))"

fun ip_run ::
    "(('ip \<times> nat list) list \<Rightarrow> 'ip option) \<Rightarrow> 'ip ip_limiter \<Rightarrow> ('ip \<times> nat) list
       \<Rightarrow> ('ip \<times> nat) list" where
  "ip_run first_key s [] = []"
| "ip_run first_key s ((ip, now) # evs) =
     (case ip_check first_key s ip now of
        (s', True) \<Rightarrow> (ip, now) # ip_run first_key s' evs
      | (s', False) \<Rightarrow> ip_run first_key s' evs)"

definition times_of :: "'ip \<Rightarrow> ('ip \<times> nat) list \<Rightarrow> nat list" where
  "times_of ip evs = map snd (filter (\<lambda>e. fst e = ip) evs)"

definition mem_recent :: "nat \<Rightarrow> nat \<Rightarrow> bool" where
  "mem_recent now t \<longleftrightarrow> now \<le> t + WINDOW_NS"

interpretation mem_log: sliding_log mem_recent
  by unfold_locales (auto simp: mem_recent_def)

text \<open>
  The refinement relation: the deque of an address holds those entries of its ideal log that were
  recent at some earlier time, not before the newest entry.
\<close>

definition deque_of :: "'ip ip_limiter \<Rightarrow> 'ip \<Rightarrow> nat list" where
  "deque_of s ip = (case map_of (ip_map s) ip of None \<Rightarrow> [] | Some d \<Rightarrow> d)"

definition ip_log_rel :: "'ip ip_limiter \<Rightarrow> ('ip \<Rightarrow> nat list) \<Rightarrow> nat \<Rightarrow> bool" where
  "ip_log_rel s L clock \<longleftrightarrow> distinct (map fst (ip_map s)) \<and>
     (\<forall>ip. sorted (L ip) \<and> (\<exists>before \<le> clock. (\<forall>t \<in> set (L ip). t \<le> before)
        \<and> deque_of s ip = filter (mem_recent before) (L ip)))"

definition room_for :: "'ip ip_limiter \<Rightarrow> ('ip \<times> nat) list \<Rightarrow> bool" where
  "room_for s evs \<longleftrightarrow> card (fst ` set (ip_map s) \<union> fst ` set evs) \<le> MAX_TRACKED_IPS"

lemma evict_none:
  assumes "room_for s ((ip, now) # evs)" and "distinct (map fst (ip_map s))"
  shows "evict first_key (ip_map s) ip = ip_map s"
proof (cases "map_of (ip_map s) ip = None")
  case True
  then have "ip \<notin> fst ` set (ip_map s)" by (simp add: map_of_eq_None_iff)
  then have "Suc (card (fst ` set (ip_map s))) = card (insert ip (fst ` set (ip_map s)))" by simp
  also have "\<dots> \<le> card (fst ` set (ip_map s) \<union> fst ` set ((ip, now) # evs))"
    by (rule card_mono) auto
  finally have "length (ip_map s) < MAX_TRACKED_IPS"
    using assms distinct_card [of "map fst (ip_map s)"] by (simp add: room_for_def)
  then show ?thesis by (simp add: evict_def)
next
  case False
  then show ?thesis by (simp only: evict_def if_False simp_thms)
qed

lemma ip_log_rel_deque:
  assumes "ip_log_rel s L clock" and "clock \<le> now"
  shows "dropWhile (\<lambda>t. WINDOW_NS < now - t) (deque_of s ip) = filter (mem_recent now) (L ip)"
proof -
  obtain before where b: "before \<le> clock" "\<forall>t \<in> set (L ip). t \<le> before"
    "deque_of s ip = filter (mem_recent before) (L ip)" and srt: "sorted (L ip)"
    using assms(1) by (auto simp: ip_log_rel_def)
  have "(\<lambda>t. WINDOW_NS < now - t) = (\<lambda>t. \<not> mem_recent now t)"
    by (auto simp: mem_recent_def fun_eq_iff)
  then have "dropWhile (\<lambda>t. WINDOW_NS < now - t) (deque_of s ip)
      = filter (mem_recent now) (deque_of s ip)"
    using mem_log.filter_recent_dropWhile [of "deque_of s ip" now] b srt assms(2)
    sorted_filter [of "\<lambda>t. t" "L ip" "mem_recent before"] by fastforce
  then show ?thesis using b assms(2) mem_log.filter_recent_filter [of before now "L ip"] by simp
qed

lemma ip_check_refines:
  assumes rel: "ip_log_rel s L clock" and now: "clock \<le> now" and room: "room_for s ((ip, now) # evs)"
    and lim: "0 < ip_limit s" "ip_limit s < u32_bound"
    and chk: "ip_check first_key s ip now = (s', ok)"
  shows "(ok \<longleftrightarrow> log_accepts mem_recent (ip_limit s) (L ip) now)
    \<and> ip_log_rel s' (if ok then L(ip := L ip @ [now]) else L) now
    \<and> room_for s' evs \<and> ip_limit s' = ip_limit s"
proof -
  let ?d = "filter (mem_recent now) (L ip)"
  have dist: "distinct (map fst (ip_map s))" using rel by (simp add: ip_log_rel_def)
  have ev: "evict first_key (ip_map s) ip = ip_map s" using room dist by (rule evict_none)
  have dq: "dropWhile (\<lambda>t. WINDOW_NS < now - t)
      (case map_of (ip_map s) ip of None \<Rightarrow> [] | Some d \<Rightarrow> d) = ?d"
    using ip_log_rel_deque [OF rel now, of ip] by (simp add: deque_of_def)
  have ok: "ok \<longleftrightarrow> log_accepts mem_recent (ip_limit s) (L ip) now"
    and s': "s' = s\<lparr>ip_map := AList.update ip (if ok then ?d @ [now] else ?d) (ip_map s)\<rparr>"
    using chk lim unfolding ip_check_def Let_def ev dq
    by (auto simp: log_accepts_def min_def split: if_splits)
  have le: "\<forall>t \<in> set (L x). t \<le> now" for x using rel now by (fastforce simp: ip_log_rel_def)
  have old: "\<exists>before \<le> now. (\<forall>t \<in> set (L x). t \<le> before)
      \<and> deque_of s x = filter (mem_recent before) (L x)" for x
    using rel now order_trans unfolding ip_log_rel_def by blast
  have srt: "sorted (L x)" for x using rel by (simp add: ip_log_rel_def)
  have "ip_log_rel s' (if ok then L(ip := L ip @ [now]) else L) now"
    unfolding ip_log_rel_def
  proof (intro conjI allI)
    show "distinct (map fst (ip_map s'))" using dist by (simp add: s' distinct_update)
    fix x
    show "sorted ((if ok then L(ip := L ip @ [now]) else L) x)"
      using srt le by (auto simp: sorted_append)
    show "\<exists>before \<le> now. (\<forall>t \<in> set ((if ok then L(ip := L ip @ [now]) else L) x). t \<le> before)
        \<and> deque_of s' x = filter (mem_recent before) ((if ok then L(ip := L ip @ [now]) else L) x)"
    proof (cases "x = ip")
      case True
      then show ?thesis using le mem_log.recent_now
        by (intro exI [of _ now]) (auto simp: s' deque_of_def update_conv)
    next
      case False
      then show ?thesis using old [of x] by (auto simp: s' deque_of_def update_conv)
    qed
  qed
  moreover have "room_for s' evs"
  proof -
    have "fst ` set (ip_map s') \<union> fst ` set evs
        \<subseteq> fst ` set (ip_map s) \<union> fst ` set ((ip, now) # evs)"
      using dom_update [of ip "if ok then ?d @ [now] else ?d" "ip_map s"] by (auto simp: s')
    then have "card (fst ` set (ip_map s') \<union> fst ` set evs)
        \<le> card (fst ` set (ip_map s) \<union> fst ` set ((ip, now) # evs))" by (intro card_mono) auto
    with room show ?thesis by (simp add: room_for_def)
  qed
  ultimately show ?thesis using ok by (simp add: s')
qed

lemma ip_run_refines:
  "\<lbrakk>ip_log_rel s L clock; \<forall>e \<in> set evs. clock \<le> snd e; sorted (map snd evs); room_for s evs;
    0 < ip_limit s; ip_limit s < u32_bound\<rbrakk> \<Longrightarrow>
     L x @ times_of x (ip_run first_key s evs) = log_run mem_recent (ip_limit s) (L x) (times_of x evs)"
proof (induction evs arbitrary: s L clock)
  case Nil
  then show ?case by (simp add: times_of_def)
next
  case (Cons e evs)
  obtain ip now where e: "e = (ip, now)" by (cases e)
  obtain s' ok where c: "ip_check first_key s ip now = (s', ok)"
    by (cases "ip_check first_key s ip now")
  define L' where "L' = (if ok then L(ip := L ip @ [now]) else L)"
  have now: "clock \<le> now" using Cons.prems(2) e by simp
  have step: "(ok \<longleftrightarrow> log_accepts mem_recent (ip_limit s) (L ip) now) \<and> ip_log_rel s' L' now
      \<and> room_for s' evs \<and> ip_limit s' = ip_limit s"
    unfolding L'_def
    by (rule ip_check_refines [OF Cons.prems(1) now Cons.prems(4) [unfolded e] Cons.prems(5,6) c])
  have IH: "L' x @ times_of x (ip_run first_key s' evs)
      = log_run mem_recent (ip_limit s) (L' x) (times_of x evs)"
    using Cons.IH [of s' L' now] step Cons.prems(3,5,6) e by simp
  show ?case
  proof (cases "x = ip")
    case True
    with IH step c e show ?thesis by (cases ok) (auto simp: times_of_def L'_def)
  next
    case False
    with IH c e show ?thesis by (cases ok) (auto simp: times_of_def L'_def)
  qed
qed

text \<open>
  Property C21. The in-process limiter is the ideal sliding log: for requests in the order of
  the monotonic clock from at most \<open>MAX_TRACKED_IPS\<close> addresses, it accepts for each address
  exactly the requests that the ideal log accepts, and any request accepted at \<open>T\<close> is
  among at most \<open>limit\<close> accepted requests of that address in the closed second up to \<open>T\<close>.
\<close>

theorem ip_limiter_is_sliding_log:
  assumes "0 < limit" and "limit < u32_bound" and "sorted (map snd evs)"
    and "card (fst ` set evs) \<le> MAX_TRACKED_IPS"
    and "accepted = times_of ip (ip_run first_key (ip_limiter_new limit) evs)"
  shows "accepted = log_run mem_recent limit [] (times_of ip evs)
    \<and> (\<forall>T \<in> set accepted. length (filter (\<lambda>t. t \<le> T \<and> T \<le> t + WINDOW_NS) accepted) \<le> limit)"
proof -
  have "ip_log_rel (ip_limiter_new limit) (\<lambda>_. []) 0"
    by (auto simp: ip_log_rel_def ip_limiter_new_def deque_of_def)
  then have eq: "accepted = log_run mem_recent limit [] (times_of ip evs)"
    using ip_run_refines [of "ip_limiter_new limit" "\<lambda>_. []" 0 evs ip first_key] assms
    by (simp add: room_for_def ip_limiter_new_def)
  have "sorted (times_of ip evs)" unfolding times_of_def using assms(3) by (rule sorted_filter)
  then show ?thesis
    using mem_log.log_run_bound [of "times_of ip evs" "[]" limit] eq by (simp add: mem_recent_def)
qed

definition ex_evs :: "(string \<times> nat) list" where
  "ex_evs = [(''a'', 0), (''a'', 10), (''b'', 20), (''a'', 30), (''a'', 1000000011)]"

theorem ip_limiter_is_sliding_log_witness:
  "times_of ''a'' (ip_run (\<lambda>_. None) (ip_limiter_new 2) ex_evs) = [0, 10, 1000000011]
   \<and> log_run mem_recent 2 [] (times_of ''a'' ex_evs) = [0, 10, 1000000011]"
proof -
  have h: "(0 :: nat) < 2" "2 < u32_bound" "sorted (map snd ex_evs)"
    "card (fst ` set ex_evs) \<le> MAX_TRACKED_IPS"
    by (simp_all add: u32_bound_def ex_evs_def MAX_TRACKED_IPS_def card_insert_if)
  have "log_run mem_recent 2 [] (times_of ''a'' ex_evs) = [0, 10, 1000000011]"
    by (simp add: ex_evs_def times_of_def log_accepts_def mem_recent_def WINDOW_NS_def)
  then show ?thesis
    using ip_limiter_is_sliding_log [OF h refl, of "''a''" "\<lambda>_. None"] by simp
qed

section \<open>The Redis window\<close>

text \<open>
  The sorted set of a client: members with their scores (milliseconds of the Redis clock) and
  the time at which the key expires. A key that has expired, or whose last member was removed,
  is the empty one. \<open>score \<le> now - window\<close> is written without the subtraction.
\<close>

record zset_key =
  zmembers :: "(string \<times> nat) list"
  zexpires :: "nat option"

definition zset_empty :: zset_key where
  "zset_empty = \<lparr>zmembers = [], zexpires = None\<rparr>"

definition zset_at :: "nat \<Rightarrow> zset_key \<Rightarrow> zset_key" where
  "zset_at now k = (case zexpires k of
     Some e \<Rightarrow> if e < now then zset_empty else k | None \<Rightarrow> k)"

definition zremrangebyscore :: "nat \<Rightarrow> nat \<Rightarrow> zset_key \<Rightarrow> zset_key" where
  "zremrangebyscore now window k =
     (let ms = filter (\<lambda>e. \<not> snd e + window \<le> now) (zmembers k)
      in if ms = [] then zset_empty else k\<lparr>zmembers := ms\<rparr>)"

definition client_ip_sliding ::
    "nat \<Rightarrow> int \<Rightarrow> string \<Rightarrow> nat \<Rightarrow> zset_key \<Rightarrow> zset_key \<times> bool" where
  "client_ip_sliding window lim member now k =
     (let k1 = zremrangebyscore now window (zset_at now k)
      in if lim \<le> int (length (zmembers k1)) then (k1, False)
         else (\<lparr>zmembers = AList.update member now (zmembers k1),
                zexpires = Some (now + (window + 1000))\<rparr>, True))"

fun sliding_run :: "nat \<Rightarrow> int \<Rightarrow> zset_key \<Rightarrow> (nat \<times> string) list \<Rightarrow> nat list" where
  "sliding_run window lim k [] = []"
| "sliding_run window lim k ((now, member) # evs) =
     (case client_ip_sliding window lim member now k of
        (k', True) \<Rightarrow> now # sliding_run window lim k' evs
      | (k', False) \<Rightarrow> sliding_run window lim k' evs)"

definition red_recent :: "nat \<Rightarrow> nat \<Rightarrow> nat \<Rightarrow> bool" where
  "red_recent window now t \<longleftrightarrow> now < t + window \<or> now = t"

interpretation red_log: sliding_log "red_recent window"
  by unfold_locales (auto simp: red_recent_def)

text \<open>
  The refinement relation: the scores are the recent part of the log, in its order, and the
  key does not expire while one of them counts.
\<close>

definition zset_rel :: "nat \<Rightarrow> zset_key \<Rightarrow> nat list \<Rightarrow> nat \<Rightarrow> bool" where
  "zset_rel window k log clock \<longleftrightarrow>
     (\<exists>before \<le> clock. (\<forall>t \<in> set log. t \<le> before)
        \<and> map snd (zmembers k) = filter (red_recent window before) log)
     \<and> (\<forall>e. zexpires k = Some e \<longrightarrow> (\<forall>t \<in> snd ` set (zmembers k). t + window \<le> e))"

lemma update_fresh: "m \<notin> fst ` set xs \<Longrightarrow> AList.update m v xs = xs @ [(m, v)]"
  by (induction xs) auto

lemma filter_snd_map: "map snd (filter (\<lambda>e. P (snd e)) xs) = filter P (map snd xs)"
  by (induction xs) auto

lemma zset_pruned:
  assumes rel: "zset_rel window k log clock" and now: "clock \<le> now" and w: "0 < window"
  shows "map snd (zmembers (zremrangebyscore now window (zset_at now k)))
      = filter (red_recent window now) log"
proof -
  obtain before where b: "before \<le> clock" "\<forall>t \<in> set log. t \<le> before"
    "map snd (zmembers k) = filter (red_recent window before) log"
    using rel by (auto simp: zset_rel_def)
  have P: "(\<lambda>t. \<not> t + window \<le> now) = red_recent window now"
    using w by (auto simp: red_recent_def fun_eq_iff)
  have "filter (red_recent window now) (map snd (zmembers (zset_at now k)))
      = filter (red_recent window now) (map snd (zmembers k))"
  proof (cases "\<exists>e. zexpires k = Some e \<and> e < now")
    case True
    then obtain e where e: "zexpires k = Some e" "e < now" by blast
    have "\<forall>t \<in> set (map snd (zmembers k)). \<not> red_recent window now t"
      using rel e w by (fastforce simp: zset_rel_def red_recent_def)
    then have "filter (red_recent window now) (map snd (zmembers k)) = []"
      by (simp add: filter_empty_conv)
    with e show ?thesis by (simp add: zset_at_def zset_empty_def)
  next
    case False
    then show ?thesis by (auto simp: zset_at_def split: option.split)
  qed
  also have "\<dots> = filter (red_recent window now) log"
    using b now red_log.filter_recent_filter [of before now log window] by simp
  finally have eq: "map snd (filter (\<lambda>e. \<not> snd e + window \<le> now) (zmembers (zset_at now k)))
      = filter (red_recent window now) log"
    using filter_snd_map [of "\<lambda>t. \<not> t + window \<le> now" "zmembers (zset_at now k)"] P by simp
  show ?thesis
  proof (cases "filter (\<lambda>e. \<not> snd e + window \<le> now) (zmembers (zset_at now k)) = []")
    case True
    with eq have "filter (red_recent window now) log = []"
      by (metis list.simps(8))
    with True show ?thesis by (simp add: zremrangebyscore_def zset_empty_def)
  next
    case False
    with eq show ?thesis by (simp add: zremrangebyscore_def Let_def)
  qed
qed

lemma zremrangebyscore_members:
  "set (zmembers (zremrangebyscore now window (zset_at now k))) \<subseteq> set (zmembers k)"
  by (auto simp: zremrangebyscore_def zset_at_def zset_empty_def Let_def split: option.splits if_splits)

lemma zremrangebyscore_expires:
  "zexpires (zremrangebyscore now window (zset_at now k)) = Some e \<Longrightarrow> zexpires k = Some e"
  by (auto simp: zremrangebyscore_def zset_at_def zset_empty_def Let_def split: option.splits if_splits)

lemma sliding_run_refines:
  "\<lbrakk>zset_rel window k log clock; \<forall>e \<in> set evs. clock \<le> fst e; sorted (map fst evs); 0 < window;
    distinct (map snd evs); fst ` set (zmembers k) \<inter> snd ` set evs = {}\<rbrakk> \<Longrightarrow>
     log @ sliding_run window (int limit) k evs
       = log_run (red_recent window) limit log (map fst evs)"
proof (induction evs arbitrary: k log clock)
  case Nil
  then show ?case by simp
next
  case (Cons e evs)
  obtain now m where e: "e = (now, m)" by (cases e)
  let ?k = "zremrangebyscore now window (zset_at now k)"
  let ?d = "filter (red_recent window now) log"
  have now: "clock \<le> now" using Cons.prems(2) e by simp
  have d: "map snd (zmembers ?k) = ?d" using zset_pruned [OF Cons.prems(1) now Cons.prems(4)] .
  then have len: "length (zmembers ?k) = length ?d" by (metis length_map)
  have le: "\<forall>t \<in> set log. t \<le> now" using Cons.prems(1) now by (fastforce simp: zset_rel_def)
  have fresh: "m \<notin> fst ` set (zmembers ?k)" "fst ` set (zmembers ?k) \<inter> snd ` set evs = {}"
    using Cons.prems(6) e zremrangebyscore_members [of now window k] by auto
  have later: "\<forall>e \<in> set evs. now \<le> fst e" "sorted (map fst evs)" "distinct (map snd evs)"
    "m \<notin> snd ` set evs"
    using Cons.prems(3,5) e by auto
  show ?case
  proof (cases "log_accepts (red_recent window) limit log now")
    case True
    let ?k' = "\<lparr>zmembers = AList.update m now (zmembers ?k), zexpires = Some (now + (window + 1000))\<rparr>"
    have c: "client_ip_sliding window (int limit) m now k = (?k', True)"
      using True len by (simp add: client_ip_sliding_def Let_def log_accepts_def)
    have "map snd (zmembers ?k') = filter (red_recent window now) (log @ [now])"
      using d fresh red_log.recent_now by (simp add: update_fresh)
    moreover have "\<forall>t \<in> snd ` set (zmembers ?k'). t \<le> now"
      using calculation le by (metis (no_types, lifting) Un_iff filter_is_subset in_mono
        list.set(1) list.simps(15) list.set_map set_append singletonD order_refl)
    ultimately have "zset_rel window ?k' (log @ [now]) now"
      using le unfolding zset_rel_def by (intro conjI exI [of _ now]) auto
    moreover have "fst ` set (zmembers ?k') \<inter> snd ` set evs = {}"
      using fresh later(4) by (auto simp: update_fresh)
    ultimately have "(log @ [now]) @ sliding_run window (int limit) ?k' evs
        = log_run (red_recent window) limit (log @ [now]) (map fst evs)"
      using Cons.IH [of ?k' "log @ [now]" now] later Cons.prems(4) by blast
    with True c e show ?thesis by simp
  next
    case False
    have c: "client_ip_sliding window (int limit) m now k = (?k, False)"
      using False len by (simp add: client_ip_sliding_def Let_def log_accepts_def)
    have "zset_rel window ?k log now"
      unfolding zset_rel_def
    proof (intro conjI)
      show "\<exists>before \<le> now. (\<forall>t \<in> set log. t \<le> before)
          \<and> map snd (zmembers ?k) = filter (red_recent window before) log"
        using le d by blast
      show "\<forall>e. zexpires ?k = Some e \<longrightarrow> (\<forall>t \<in> snd ` set (zmembers ?k). t + window \<le> e)"
        using Cons.prems(1) zremrangebyscore_members [of now window k]
          zremrangebyscore_expires [of now window k] unfolding zset_rel_def by blast
    qed
    then have "log @ sliding_run window (int limit) ?k evs
        = log_run (red_recent window) limit log (map fst evs)"
      using Cons.IH [of ?k log now] later fresh Cons.prems(4) by blast
    with False c e show ?thesis by simp
  qed
qed

text \<open>
  Property C22. The Redis script is an ideal sliding log over half-open windows: for
  requests in the order of the Redis clock with distinct members, it accepts exactly the
  requests that the ideal log accepts, the expiry of the key never forgets a request that
  still counts, and at most \<open>limit\<close> accepted requests lie in the window that ends at any of them.
\<close>

theorem redis_window_is_sliding_log:
  assumes "sorted (map fst evs)" and "distinct (map snd evs)" and "0 < window"
    and "accepted = sliding_run window (int limit) zset_empty evs"
  shows "accepted = log_run (red_recent window) limit [] (map fst evs)
    \<and> (\<forall>T \<in> set accepted. length (filter (\<lambda>t. t \<le> T \<and> T < t + window) accepted) \<le> limit)"
proof -
  have "zset_rel window zset_empty [] 0" by (simp add: zset_rel_def zset_empty_def)
  then have eq: "accepted = log_run (red_recent window) limit [] (map fst evs)"
    using sliding_run_refines [of window zset_empty "[]" 0 evs limit] assms
    by (simp add: zset_empty_def)
  have "(\<lambda>t. t \<le> T \<and> T < t + window) = (\<lambda>t. t \<le> T \<and> red_recent window T t)" for T
    using assms(3) by (auto simp: red_recent_def fun_eq_iff)
  then show ?thesis
    using red_log.log_run_bound [of "map fst evs" "[]" window limit] eq assms(1) by simp
qed

definition ex_sliding :: "(nat \<times> string) list" where
  "ex_sliding = [(0, ''a''), (10, ''b''), (20, ''c''), (1000, ''d''), (1009, ''e'')]"

theorem redis_window_is_sliding_log_witness:
  "sliding_run 1000 (int 2) zset_empty ex_sliding = [0, 10, 1000]
   \<and> log_run (red_recent 1000) 2 [] (map fst ex_sliding) = [0, 10, 1000]"
proof -
  have h: "sorted (map fst ex_sliding)" "distinct (map snd ex_sliding)" "(0 :: nat) < 1000"
    by (simp_all add: ex_sliding_def)
  have "log_run (red_recent 1000) 2 [] (map fst ex_sliding) = [0, 10, 1000]"
    by (simp add: ex_sliding_def log_accepts_def red_recent_def)
  then show ?thesis using redis_window_is_sliding_log [OF h refl, of 2] by simp
qed

section \<open>The client address\<close>

text \<open>
  Addresses and networks are those of \<open>std::net\<close> and \<open>ipnetwork\<close>: \<open>parse_ip\<close>, \<open>parse_net\<close>
  and \<open>net_contains\<close> are parameters.
\<close>

fun parse_trusted_proxy_networks ::
    "(string \<Rightarrow> 'net option) \<Rightarrow> string list \<Rightarrow> init_error + 'net list" where
  "parse_trusted_proxy_networks parse_net [] = Ok []"
| "parse_trusted_proxy_networks parse_net (s # cidrs) =
     (case parse_net s of
        None \<Rightarrow> Err InvalidClientIpRateLimitConfig
      | Some n \<Rightarrow> and_then (parse_trusted_proxy_networks parse_net cidrs) (\<lambda>ns. Ok (n # ns)))"

definition effective_client_ip ::
    "(string \<Rightarrow> 'ip option) \<Rightarrow> ('net \<Rightarrow> 'ip \<Rightarrow> bool) \<Rightarrow> 'ip \<Rightarrow> header_map \<Rightarrow> 'net list \<Rightarrow> 'ip" where
  "effective_client_ip parse_ip net_contains peer_ip headers trusted =
     (if list_ex (\<lambda>n. net_contains n peer_ip) trusted
      then (case header_str headers ''x-forwarded-for'' of
              None \<Rightarrow> peer_ip
            | Some raw \<Rightarrow>
                (case parse_ip (trim (split_first (CHR '','') raw)) of
                   Some ip \<Rightarrow> ip
                 | None \<Rightarrow> peer_ip))
      else peer_ip)"

section \<open>The configuration\<close>

datatype client_ip_backend = IpMemory | IpRedis

record client_ip_config =
  ip_enabled :: bool
  requests_per_second :: nat
  ip_backend :: client_ip_backend
  trusted_proxy_cidrs :: "string list"
  redis_key_prefix :: string

definition default_client_ip_config :: client_ip_config where
  "default_client_ip_config =
     \<lparr>ip_enabled = False, requests_per_second = 0, ip_backend = IpMemory,
      trusted_proxy_cidrs = [], redis_key_prefix = ''gw:iprl:''\<rparr>"

definition validate_global_client_ip_rate_limit :: "client_ip_config option \<Rightarrow> init_error + unit" where
  "validate_global_client_ip_rate_limit c =
     (case c of
        None \<Rightarrow> Ok ()
      | Some c \<Rightarrow>
          if \<not> ip_enabled c then Ok ()
          else if requests_per_second c = 0 then Err InvalidRateLimitConfig
          else Ok ())"

text \<open>
  \<open>deserialize_cidr_list\<close>: a list, the text of a list, or a map from indices to entries;
  \<open>None\<close> is the error of the deserializer.
\<close>

fun strings_of :: "json list \<Rightarrow> string list option" where
  "strings_of [] = Some []"
| "strings_of (v # vs) =
     (case as_str v of None \<Rightarrow> None | Some s \<Rightarrow> map_option ((#) s) (strings_of vs))"

fun indexed_entry :: "string \<times> json \<Rightarrow> (nat \<times> string) option" where
  "indexed_entry (k, v) =
     (case parse_usize k of None \<Rightarrow> None | Some i \<Rightarrow> map_option (Pair i) (as_str v))"

fun deserialize_cidr_list :: "json_parser \<Rightarrow> json \<Rightarrow> string list option" where
  "deserialize_cidr_list parse JNull = Some []"
| "deserialize_cidr_list parse (JArray vs) = strings_of vs"
| "deserialize_cidr_list parse (JString s) =
     (case parse s of Some (JArray vs) \<Rightarrow> strings_of vs | _ \<Rightarrow> None)"
| "deserialize_cidr_list parse (JObject m) =
     (let pairs = sort_key fst (List.map_filter indexed_entry m)
      in if pairs = [] then None else Some (map snd pairs))"
| "deserialize_cidr_list parse _ = None"

section \<open>The layer\<close>

text \<open>
  \<open>ip_redis\<close> is \<open>None\<close> when no \<open>AppRedis\<close> is configured, and else the sorted sets of the
  clients by key.
\<close>

record ('ip, 'net) ip_state =
  ip_cfg :: client_ip_config
  trusted :: "'net list"
  ip_memory :: "'ip ip_limiter"
  ip_redis :: "(string \<Rightarrow> zset_key) option"
  ip_use_redis :: bool

definition ip_layer_new ::
    "(string \<Rightarrow> 'net option) \<Rightarrow> client_ip_config option \<Rightarrow> (string \<Rightarrow> zset_key) option \<Rightarrow> bool
       \<Rightarrow> init_error + ('ip, 'net) ip_state" where
  "ip_layer_new parse_net c0 r ping_ok =
     (let c = (case c0 of Some c \<Rightarrow> c | None \<Rightarrow> default_client_ip_config) in
      and_then
        (if ip_enabled c then parse_trusted_proxy_networks parse_net (trusted_proxy_cidrs c)
         else Ok [])
        (\<lambda>ns. Ok \<lparr>ip_cfg = c, trusted = ns,
                  ip_memory = ip_limiter_new (max (requests_per_second c) 1), ip_redis = r,
                  ip_use_redis = (ip_enabled c \<and> ip_backend c = IpRedis \<and> r \<noteq> None \<and> ping_ok)\<rparr>))"

definition ip_recovery_tick :: "('ip, 'net) ip_state \<Rightarrow> bool \<Rightarrow> ('ip, 'net) ip_state" where
  "ip_recovery_tick st ping_ok =
     (if ip_redis st = None then st
      else if ip_use_redis st then st
      else if ping_ok then st\<lparr>ip_use_redis := True\<rparr> else st)"

text \<open>
  What a call reads of its surroundings: the monotonic clock, the clock of Redis, the
  member it makes up from the system time and a random number, and the fate of the Redis call.
\<close>

record ip_call_env =
  mono_now :: nat
  redis_now :: nat
  member :: string
  fate :: redis_call

datatype ip_outcome = Forwarded | TooMany

definition ip_check_memory ::
    "(('ip \<times> nat list) list \<Rightarrow> 'ip option) \<Rightarrow> ('ip, 'net) ip_state \<Rightarrow> 'ip \<Rightarrow> nat
       \<Rightarrow> ('ip, 'net) ip_state \<times> bool" where
  "ip_check_memory first_key st ip now =
     (case ip_check first_key (ip_memory st) ip now of (m, ok) \<Rightarrow> (st\<lparr>ip_memory := m\<rparr>, ok))"

definition ip_allowed ::
    "(('ip \<times> nat list) list \<Rightarrow> 'ip option) \<Rightarrow> ('ip \<Rightarrow> string) \<Rightarrow> ('ip, 'net) ip_state
       \<Rightarrow> 'ip \<Rightarrow> ip_call_env \<Rightarrow> ('ip, 'net) ip_state \<times> bool" where
  "ip_allowed first_key show_ip st ip env =
     (case (ip_use_redis st, ip_redis st) of
        (True, Some zs) \<Rightarrow>
          (let key = redis_key_prefix (ip_cfg st) @ show_ip ip;
               (z, ok) = client_ip_sliding 1000 (int (requests_per_second (ip_cfg st)))
                  (member env) (redis_now env) (zs key);
               ran = st\<lparr>ip_redis := Some (zs(key := z))\<rparr>
           in case fate env of
                Executed \<Rightarrow> (ran, ok)
              | LostRequest \<Rightarrow>
                  ip_check_memory first_key (st\<lparr>ip_use_redis := False\<rparr>) ip (mono_now env)
              | LostReply \<Rightarrow>
                  ip_check_memory first_key (ran\<lparr>ip_use_redis := False\<rparr>) ip (mono_now env))
      | _ \<Rightarrow> ip_check_memory first_key st ip (mono_now env))"

definition ip_layer_call ::
    "(('ip \<times> nat list) list \<Rightarrow> 'ip option) \<Rightarrow> ('ip \<Rightarrow> string) \<Rightarrow> (string \<Rightarrow> 'ip option)
       \<Rightarrow> ('net \<Rightarrow> 'ip \<Rightarrow> bool) \<Rightarrow> ('ip, 'net) ip_state \<Rightarrow> 'ip option \<Rightarrow> header_map \<Rightarrow> ip_call_env
       \<Rightarrow> ('ip, 'net) ip_state \<times> ip_outcome" where
  "ip_layer_call first_key show_ip parse_ip net_contains st peer headers env =
     (if \<not> ip_enabled (ip_cfg st) then (st, Forwarded)
      else case peer of
        None \<Rightarrow> (st, Forwarded)
      | Some p \<Rightarrow>
          (case ip_allowed first_key show_ip st
                  (effective_client_ip parse_ip net_contains p headers (trusted st)) env of
             (st', ok) \<Rightarrow> (st', if ok then Forwarded else TooMany)))"

lemma effective_client_ip_untrusted:
  "\<forall>n \<in> set ns. \<not> net_contains n p \<Longrightarrow> effective_client_ip parse_ip net_contains p headers ns = p"
  by (auto simp: effective_client_ip_def list_ex_iff)

text \<open>The bucket that decided about a call, and what the call leaves there.\<close>

definition decided_by_redis :: "('ip, 'net) ip_state \<Rightarrow> ip_call_env \<Rightarrow> bool" where
  "decided_by_redis st env \<longleftrightarrow> ip_use_redis st \<and> ip_redis st \<noteq> None \<and> fate env = Executed"

definition counted_in_memory :: "('ip, 'net) ip_state \<Rightarrow> 'ip \<Rightarrow> nat \<Rightarrow> ip_outcome \<Rightarrow> bool" where
  "counted_in_memory st ip now out \<longleftrightarrow>
     (case out of
        Forwarded \<Rightarrow> (\<exists>d. deque_of (ip_memory st) ip = d @ [now] \<and> length d < ip_limit (ip_memory st))
      | TooMany \<Rightarrow> ip_limit (ip_memory st) \<le> length (deque_of (ip_memory st) ip))"

definition counted_in_redis :: "('ip, 'net) ip_state \<Rightarrow> string \<Rightarrow> ip_call_env \<Rightarrow> ip_outcome \<Rightarrow> bool" where
  "counted_in_redis st key env out \<longleftrightarrow>
     (\<exists>zs. ip_redis st = Some zs \<and>
       (case out of
          Forwarded \<Rightarrow> map_of (zmembers (zs key)) (member env) = Some (redis_now env)
            \<and> length (zmembers (zs key)) \<le> requests_per_second (ip_cfg st)
        | TooMany \<Rightarrow> requests_per_second (ip_cfg st) \<le> length (zmembers (zs key))))"

lemma evict_other: "\<exists>k. \<forall>q. q \<noteq> k \<longrightarrow> map_of (evict first_key m ip) q = map_of m q"
  by (auto simp: evict_def delete_conv split: option.split)

lemma ip_check_counted:
  assumes "ip_check first_key s ip now = (s', ok)" "0 < ip_limit s" "ip_limit s < u32_bound"
  shows "ip_limit s' = ip_limit s
    \<and> (if ok then \<exists>d. deque_of s' ip = d @ [now] \<and> length d < ip_limit s else ip_limit s \<le> length (deque_of s' ip))
    \<and> (\<exists>k. \<forall>q. q \<notin> {ip, k} \<longrightarrow> map_of (ip_map s') q = map_of (ip_map s) q)
    \<and> (length (ip_map s) < MAX_TRACKED_IPS \<or> map_of (ip_map s) ip \<noteq> None \<longrightarrow>
         (\<forall>q. q \<noteq> ip \<longrightarrow> map_of (ip_map s') q = map_of (ip_map s) q))"
proof -
  let ?m = "evict first_key (ip_map s) ip"
  obtain k where k: "\<forall>q. q \<noteq> k \<longrightarrow> map_of ?m q = map_of (ip_map s) q"
    using evict_other [of first_key "ip_map s" ip] ..
  define d where "d = dropWhile (\<lambda>t. WINDOW_NS < now - t) (case map_of ?m ip of None \<Rightarrow> [] | Some d \<Rightarrow> d)"
  have full: "ip_limit s \<le> min (u32_bound - 1) (length d) \<longleftrightarrow> \<not> length d < ip_limit s" using assms(3) by auto
  have "(s', ok) = (if \<not> length d < ip_limit s then (s\<lparr>ip_map := AList.update ip d ?m\<rparr>, False)
      else (s\<lparr>ip_map := AList.update ip (d @ [now]) ?m\<rparr>, True))"
    using assms(1,2) unfolding ip_check_def Let_def d_def [symmetric] full by simp
  then have ok: "ok \<longleftrightarrow> length d < ip_limit s"
    and s': "s' = s\<lparr>ip_map := AList.update ip (if ok then d @ [now] else d) ?m\<rparr>"
    by (cases "length d < ip_limit s"; simp)+
  have all: "?m = ip_map s" if "length (ip_map s) < MAX_TRACKED_IPS \<or> map_of (ip_map s) ip \<noteq> None"
  proof -
    have "\<not> (MAX_TRACKED_IPS \<le> length (ip_map s) \<and> map_of (ip_map s) ip = None)" using that by auto
    then show ?thesis unfolding evict_def by (rule if_not_P)
  qed
  have own: "deque_of s' ip = (if ok then d @ [now] else d)" by (simp add: s' deque_of_def update_conv)
  have other: "map_of (ip_map s') q = map_of ?m q" if "q \<noteq> ip" for q using that by (simp add: s' update_conv)
  show ?thesis
  proof (intro conjI impI)
    show "ip_limit s' = ip_limit s" by (simp add: s')
    show "if ok then \<exists>d. deque_of s' ip = d @ [now] \<and> length d < ip_limit s else ip_limit s \<le> length (deque_of s' ip)"
      using ok own by (cases ok) auto
    show "\<exists>k. \<forall>q. q \<notin> {ip, k} \<longrightarrow> map_of (ip_map s') q = map_of (ip_map s) q"
      using other k by (intro exI [of _ k]) simp
    show "\<forall>q. q \<noteq> ip \<longrightarrow> map_of (ip_map s') q = map_of (ip_map s) q"
      if "length (ip_map s) < MAX_TRACKED_IPS \<or> map_of (ip_map s) ip \<noteq> None"
      using other unfolding all [OF that] by blast
  qed
qed

lemma ip_check_memory_counted:
  assumes "ip_check_memory first_key st ip now = (st', ok)" "0 < ip_limit (ip_memory st)" "ip_limit (ip_memory st) < u32_bound"
  shows "ip_redis st' = ip_redis st \<and> counted_in_memory st' ip now (if ok then Forwarded else TooMany)
    \<and> (\<exists>k. \<forall>q. q \<notin> {ip, k} \<longrightarrow> map_of (ip_map (ip_memory st')) q = map_of (ip_map (ip_memory st)) q)
    \<and> (length (ip_map (ip_memory st)) < MAX_TRACKED_IPS \<or> map_of (ip_map (ip_memory st)) ip \<noteq> None \<longrightarrow>
         (\<forall>q. q \<noteq> ip \<longrightarrow> map_of (ip_map (ip_memory st')) q = map_of (ip_map (ip_memory st)) q))"
proof -
  obtain m where m: "ip_check first_key (ip_memory st) ip now = (m, ok)" "st' = st\<lparr>ip_memory := m\<rparr>"
    using assms(1) by (auto simp: ip_check_memory_def split: prod.splits)
  show ?thesis
    using ip_check_counted [OF m(1) assms(2,3)] by (cases ok) (simp_all add: m(2) counted_in_memory_def)
qed

lemma client_ip_sliding_counted:
  assumes "client_ip_sliding window (int lim) m now k = (k', ok)"
  shows "if ok then map_of (zmembers k') m = Some now \<and> length (zmembers k') \<le> lim else lim \<le> length (zmembers k')"
proof -
  have "length (AList.update m now xs) \<le> Suc (length xs)" for xs :: "(string \<times> nat) list"
    by (induction xs) auto
  then have "length (AList.update m now xs) \<le> lim" if "\<not> lim \<le> length xs" for xs :: "(string \<times> nat) list"
    using that by (meson Suc_leI not_le order_trans)
  then show ?thesis
    using assms by (auto simp: client_ip_sliding_def Let_def update_conv split: if_splits)
qed

lemma ip_allowed_memory:
  assumes "ip_allowed first_key show_ip st p env = (st', ok)" "\<not> decided_by_redis st env"
    and "key = redis_key_prefix (ip_cfg st) @ show_ip p"
  shows "\<exists>st1. ip_check_memory first_key st1 p (mono_now env) = (st', ok) \<and> ip_memory st1 = ip_memory st
    \<and> (\<forall>zs. ip_redis st = Some zs \<longrightarrow> (\<exists>zs'. ip_redis st1 = Some zs' \<and> (\<forall>other. other \<noteq> key \<longrightarrow> zs' other = zs other)))"
proof (cases "ip_use_redis st \<and> ip_redis st \<noteq> None")
  case False
  then have "ip_check_memory first_key st p (mono_now env) = (st', ok)"
    using assms(1) by (cases "ip_use_redis st"; cases "ip_redis st") (simp_all add: ip_allowed_def)
  then show ?thesis by blast
next
  case True
  then obtain zs where zs: "ip_redis st = Some zs" "ip_use_redis st" by blast
  obtain z b where z: "client_ip_sliding 1000 (int (requests_per_second (ip_cfg st))) (member env) (redis_now env) (zs key) = (z, b)"
    by fastforce
  consider "fate env = LostRequest" | "fate env = LostReply"
    using assms(2) True by (cases "fate env") (auto simp: decided_by_redis_def)
  then show ?thesis
  proof cases
    case 1
    have "ip_check_memory first_key (st\<lparr>ip_use_redis := False\<rparr>) p (mono_now env) = (st', ok)"
      using assms(1) zs 1 by (simp add: ip_allowed_def Let_def split_beta)
    then show ?thesis by (intro exI conjI) (assumption, simp_all)
  next
    case 2
    have "ip_check_memory first_key (st\<lparr>ip_redis := Some (zs(key := z)), ip_use_redis := False\<rparr>) p (mono_now env) = (st', ok)"
      using assms(1) zs 2 z by (simp add: ip_allowed_def Let_def assms(3))
    then show ?thesis by (intro exI conjI) (assumption, simp_all add: zs)
  qed
qed

text \<open>
  Property C35. A peer outside the trusted networks cannot choose its bucket. Whatever headers it sends, its request is
  decided and counted under its own address: by the sorted set of its own Redis key when Redis answers, and else by
  its own in-process deque. A request that passes has been entered there within the limit, and one that is refused has
  found this bucket full. No other Redis key changes, and no other deque unless the table of \<open>MAX_TRACKED_IPS\<close>
  addresses is full and the peer is not in it; then at most one other address is forgotten.
\<close>

theorem untrusted_peer_own_bucket:
  assumes "\<forall>n \<in> set (trusted st). \<not> net_contains n p"
    and "ip_layer_call first_key show_ip parse_ip net_contains st (Some p) headers env = (st', out)"
    and "ip_enabled (ip_cfg st)" "0 < ip_limit (ip_memory st)" "ip_limit (ip_memory st) < u32_bound"
    and "m = ip_map (ip_memory st)" "m' = ip_map (ip_memory st')"
    and "key = redis_key_prefix (ip_cfg st) @ show_ip p"
  shows "ip_layer_call first_key show_ip parse_ip net_contains st (Some p) headers2 env = (st', out)
    \<and> (if decided_by_redis st env then counted_in_redis st' key env out else counted_in_memory st' p (mono_now env) out)
    \<and> (\<exists>k. \<forall>q. q \<notin> {p, k} \<longrightarrow> map_of m' q = map_of m q)
    \<and> (length m < MAX_TRACKED_IPS \<or> map_of m p \<noteq> None \<longrightarrow> (\<forall>q. q \<noteq> p \<longrightarrow> map_of m' q = map_of m q))
    \<and> (\<forall>zs. ip_redis st = Some zs \<longrightarrow> (\<exists>zs'. ip_redis st' = Some zs' \<and> (\<forall>other. other \<noteq> key \<longrightarrow> zs' other = zs other)))"
proof -
  have ip: "effective_client_ip parse_ip net_contains p h (trusted st) = p" for h
    using assms(1) by (rule effective_client_ip_untrusted)
  obtain ok where run: "ip_allowed first_key show_ip st p env = (st', ok)" and out: "out = (if ok then Forwarded else TooMany)"
    using assms(2,3) by (auto simp: ip_layer_call_def ip split: prod.splits)
  have same: "ip_layer_call first_key show_ip parse_ip net_contains st (Some p) headers2 env = (st', out)"
    using assms(3) run out by (simp add: ip_layer_call_def ip)
  show ?thesis
  proof (cases "decided_by_redis st env")
    case True
    then obtain zs where zs: "ip_redis st = Some zs" "ip_use_redis st" "fate env = Executed" by (auto simp: decided_by_redis_def)
    obtain z b where sliding: "client_ip_sliding 1000 (int (requests_per_second (ip_cfg st))) (member env) (redis_now env) (zs key) = (z, b)"
      by fastforce
    then have st': "st' = st\<lparr>ip_redis := Some (zs(key := z))\<rparr>" "b = ok"
      using run assms(8) zs by (simp_all add: ip_allowed_def)
    have "counted_in_redis st' key env out"
      using client_ip_sliding_counted [OF sliding] out by (simp add: st' counted_in_redis_def)
    then show ?thesis using same True unfolding assms(6,7) by (simp add: st' zs(1))
  next
    case False
    obtain st1 where mem: "ip_check_memory first_key st1 p (mono_now env) = (st', ok)"
      and st1: "ip_memory st1 = ip_memory st"
        "\<forall>zs. ip_redis st = Some zs \<longrightarrow> (\<exists>zs'. ip_redis st1 = Some zs' \<and> (\<forall>other. other \<noteq> key \<longrightarrow> zs' other = zs other))"
      using ip_allowed_memory [OF run False assms(8)] by blast
    note counted = ip_check_memory_counted [OF mem, unfolded st1(1), OF assms(4,5)]
    show ?thesis
      using same counted st1(2) unfolding assms(6,7) out if_not_P [OF False] by (intro conjI) (elim conjE, simp)+
  qed
qed

definition ex_ip_state :: "(string, string) ip_state" where
  "ex_ip_state =
     \<lparr>ip_cfg = default_client_ip_config\<lparr>ip_enabled := True, requests_per_second := 1\<rparr>,
      trusted = [''10''], ip_memory = ip_limiter_new 1, ip_redis = None, ip_use_redis = False\<rparr>"

definition ex_ip_env :: ip_call_env where
  "ex_ip_env = \<lparr>mono_now = 7, redis_now = 7, member = ''m'', fate = Executed\<rparr>"

theorem untrusted_peer_own_bucket_witness:
  "snd (ip_layer_call (\<lambda>_. None) id Some starts_with ex_ip_state (Some ''9.9'')
      [(''x-forwarded-for'', ''8.8'')] ex_ip_env) = Forwarded
   \<and> ip_map (ip_memory (fst (ip_layer_call (\<lambda>_. None) id Some starts_with ex_ip_state
      (Some ''9.9'') [(''x-forwarded-for'', ''8.8'')] ex_ip_env))) = [(''9.9'', [7])]"
proof -
  have u: "\<forall>n \<in> set (trusted ex_ip_state). \<not> starts_with n ''9.9''"
    by (simp add: ex_ip_state_def starts_with_def)
  have l: "ip_enabled (ip_cfg ex_ip_state)" "0 < ip_limit (ip_memory ex_ip_state)" "ip_limit (ip_memory ex_ip_state) < u32_bound"
    by (simp_all add: ex_ip_state_def ip_limiter_new_def u32_bound_def)
  let ?call = "\<lambda>h. ip_layer_call (\<lambda>_. None) id Some starts_with ex_ip_state
      (Some ''9.9'') h ex_ip_env"
  let ?st = "ex_ip_state\<lparr>ip_memory := \<lparr>ip_limit = 1, ip_map = [(''9.9'', [7])]\<rparr>\<rparr>"
  have "?call [] = (?st, Forwarded)"
    by (simp add: ip_layer_call_def ip_allowed_def ip_check_memory_def ip_check_def evict_def
        ex_ip_state_def ex_ip_env_def ip_limiter_new_def effective_client_ip_def header_str_def
        header_get_def MAX_TRACKED_IPS_def default_client_ip_config_def u32_bound_def Let_def
        starts_with_def)
  from untrusted_peer_own_bucket [OF u this l refl refl refl, of "[(''x-forwarded-for'', ''8.8'')]"]
  show ?thesis by simp
qed

end
