(* ===== verification/Identity_Rate.thy ===== *)
theory Identity_Rate
  imports Client_Ip
begin

text \<open>
  The rate limit per authenticated workspace (\<open>middleware/identity_rate_limit.rs\<close>,
  \<open>config/identity_rate_limit.rs\<close> and the script in \<open>app_redis.rs\<close>). Both backends implement the
  interface \<open>fixed_window\<close>; the lemmas on the bound are proved once for the interface.
\<close>

section \<open>The ideal fixed window\<close>

text \<open>
  A window is a count with the time at which it ends. A window that has ended does not
  count; a hit outside a live window opens one.
\<close>

definition live :: "nat \<Rightarrow> (nat \<times> nat) option \<Rightarrow> (nat \<times> nat) option" where
  "live now v = (case v of None \<Rightarrow> None | Some (c, e) \<Rightarrow> if now < e then Some (c, e) else None)"

definition fw_next :: "nat \<Rightarrow> (nat \<times> nat) option \<Rightarrow> nat \<Rightarrow> nat \<times> nat" where
  "fw_next width v now =
     (case live now v of None \<Rightarrow> (1, now + width) | Some (c, e) \<Rightarrow> (c + 1, e))"

fun fw_run :: "nat \<Rightarrow> nat \<Rightarrow> (nat \<times> nat) option \<Rightarrow> nat list \<Rightarrow> nat list" where
  "fw_run width limit v [] = []"
| "fw_run width limit v (now # ts) =
     (let v' = fw_next width v now in
      if fst v' \<le> limit then now # fw_run width limit (Some v') ts
      else fw_run width limit (Some v') ts)"

lemma fw_run_subset: "set (fw_run width limit v ts) \<subseteq> set ts"
  by (induction ts arbitrary: v) (auto simp: Let_def)

lemma live_live: "now \<le> now' \<Longrightarrow> live now' (live now v) = live now' v"
  by (auto simp: live_def split: option.split)

lemma fw_next_live:
  assumes "now \<le> now'" and "live now v = live now v'"
  shows "fw_next width v now' = fw_next width v' now'"
proof -
  have "live now' v = live now' v'"
    using assms live_live [of now now' v] live_live [of now now' v'] by simp
  then show ?thesis by (simp only: fw_next_def)
qed

lemma fw_run_live:
  assumes "\<forall>t \<in> set ts. now \<le> t" and "live now v = live now v'"
  shows "fw_run width limit v ts = fw_run width limit v' ts"
proof (cases ts)
  case (Cons t ts')
  then have "fw_next width v t = fw_next width v' t" using assms by (intro fw_next_live [of now]) auto
  with Cons show ?thesis by simp
qed simp

text \<open>What is left of a window bounds what it still accepts.\<close>

lemma fw_run_window:
  "sorted ts \<Longrightarrow> length (filter (\<lambda>t. t < e) (fw_run width limit (Some (c, e)) ts)) \<le> limit - c"
proof (induction ts arbitrary: c)
  case Nil
  then show ?case by simp
next
  case (Cons now ts)
  show ?case
  proof (cases "now < e")
    case True
    then show ?thesis using Cons.IH [of "Suc c"] Cons.prems
      by (auto simp: fw_next_def live_def Let_def)
  next
    case False
    then have "\<forall>t \<in> set (fw_run width limit (Some (c, e)) (now # ts)). \<not> t < e"
      using fw_run_subset [of width limit "Some (c, e)" "now # ts"] Cons.prems by fastforce
    then have "filter (\<lambda>t. t < e) (fw_run width limit (Some (c, e)) (now # ts)) = []"
      by (simp add: filter_empty_conv)
    then show ?thesis by simp
  qed
qed

lemma length_filter_mono: "(\<And>x. P x \<Longrightarrow> Q x) \<Longrightarrow> length (filter P xs) \<le> length (filter Q xs)"
  by (induction xs) (auto intro: le_SucI)

text \<open>After a window has ended, at most \<open>limit\<close> more are accepted within \<open>width\<close>.\<close>

lemma fw_run_after:
  "\<lbrakk>sorted ts; U \<le> e + width\<rbrakk> \<Longrightarrow>
     length (filter (\<lambda>t. e \<le> t \<and> t < U) (fw_run width limit (Some (c, e)) ts)) \<le> limit"
proof (induction ts arbitrary: c)
  case Nil
  then show ?case by simp
next
  case (Cons now ts)
  show ?case
  proof (cases "now < e")
    case True
    then show ?thesis using Cons.IH [of "Suc c"] Cons.prems
      by (auto simp: fw_next_def live_def Let_def)
  next
    case False
    let ?r = "fw_run width limit (Some (1, now + width)) ts"
    have "length (filter (\<lambda>t. e \<le> t \<and> t < U) ?r) \<le> length (filter (\<lambda>t. t < now + width) ?r)"
      using False Cons.prems(2) by (intro length_filter_mono) auto
    also have "\<dots> \<le> limit - 1" using Cons.prems(1) by (intro fw_run_window) simp
    finally show ?thesis using False by (auto simp: fw_next_def live_def Let_def)
  qed
qed

lemma length_filter_split:
  "length (filter P xs) \<le> length (filter (\<lambda>x. P x \<and> x < e) xs) + length (filter (\<lambda>x. P x \<and> e \<le> x) xs)"
  for xs :: "nat list"
  by (induction xs) auto

lemma fw_run_interval:
  "\<lbrakk>sorted ts; 0 < width\<rbrakk> \<Longrightarrow>
     length (filter (\<lambda>t. T \<le> t \<and> t < T + width) (fw_run width limit v ts)) \<le> 2 * limit"
proof (induction ts arbitrary: v)
  case Nil
  then show ?case by simp
next
  case (Cons now ts)
  obtain c e where ce: "fw_next width v now = (c, e)" by (cases "fw_next width v now")
  have c: "0 < c" and e: "now < e"
    using ce Cons.prems(2) by (auto simp: fw_next_def live_def split: option.splits if_splits)
  let ?r = "fw_run width limit (Some (c, e)) ts"
  let ?in = "\<lambda>t. T \<le> t \<and> t < T + width"
  have tl: "length (filter ?in ?r) \<le> 2 * limit" using Cons by simp
  show ?case
  proof (cases "?in now \<and> c \<le> limit")
    case False
    then show ?thesis using tl by (auto simp: ce Let_def)
  next
    case True
    have "length (filter (\<lambda>t. ?in t \<and> t < e) ?r) \<le> length (filter (\<lambda>t. t < e) ?r)"
      by (intro length_filter_mono) auto
    also have "\<dots> \<le> limit - c" using Cons.prems(1) by (intro fw_run_window) simp
    finally have one: "length (filter (\<lambda>t. ?in t \<and> t < e) ?r) \<le> limit - c" .
    have "length (filter (\<lambda>t. ?in t \<and> e \<le> t) ?r) \<le> length (filter (\<lambda>t. e \<le> t \<and> t < T + width) ?r)"
      by (intro length_filter_mono) auto
    also have "\<dots> \<le> limit" using Cons.prems(1) True e by (intro fw_run_after) auto
    finally have two: "length (filter (\<lambda>t. ?in t \<and> e \<le> t) ?r) \<le> limit" .
    have "Suc (length (filter ?in ?r)) \<le> 2 * limit"
      using True c one two length_filter_split [of ?in ?r e] by linarith
    with True show ?thesis by (simp add: ce Let_def)
  qed
qed

section \<open>The interface of the backends\<close>

text \<open>
  \<open>check c st w now\<close> serves one request of workspace \<open>w\<close>; \<open>view\<close> reads its window. The laws
  hold below \<open>cap\<close>, the width of the counter, and compare windows as far as they are live: a
  backend may forget ended windows at any time.
\<close>

definition below :: "nat \<Rightarrow> (nat \<times> nat) option \<Rightarrow> bool" where
  "below cap v = (case v of None \<Rightarrow> True | Some (c, e) \<Rightarrow> c < cap)"

lemma below_mono: "below n v \<Longrightarrow> n \<le> m \<Longrightarrow> below m v"
  by (auto simp: below_def split: option.splits)

fun check_run :: "('s \<Rightarrow> 'w \<Rightarrow> nat \<Rightarrow> 's \<times> bool) \<Rightarrow> 's \<Rightarrow> ('w \<times> nat) list \<Rightarrow> ('w \<times> nat) list" where
  "check_run check st [] = []"
| "check_run check st ((w, now) # evs) =
     (case check st w now of
        (st', ok) \<Rightarrow> (if ok then [(w, now)] else []) @ check_run check st' evs)"

locale fixed_window =
  fixes check :: "'c \<Rightarrow> 's \<Rightarrow> 'w \<Rightarrow> nat \<Rightarrow> 's \<times> bool"
    and view :: "'c \<Rightarrow> 's \<Rightarrow> 'w \<Rightarrow> (nat \<times> nat) option"
    and inv :: "'c \<Rightarrow> nat \<Rightarrow> 's \<Rightarrow> bool"
    and valid :: "'c \<Rightarrow> bool"
    and width :: "'c \<Rightarrow> nat"
    and limit :: "'c \<Rightarrow> nat"
    and cap :: nat
  assumes check_own: "\<lbrakk>valid c; inv c clock st; clock \<le> now; below cap (live now (view c st w));
      check c st w now = (st', ok)\<rbrakk> \<Longrightarrow>
        live now (view c st' w) = Some (fw_next (width c) (view c st w) now)
        \<and> (ok \<longleftrightarrow> fst (fw_next (width c) (view c st w) now) \<le> limit c)"
    and check_frame: "\<lbrakk>valid c; inv c clock st; clock \<le> now; w' \<noteq> w; check c st w now = (st', ok)\<rbrakk> \<Longrightarrow>
        live now (view c st' w') = live now (view c st w')"
    and check_inv: "\<lbrakk>valid c; inv c clock st; clock \<le> now; check c st w now = (st', ok)\<rbrakk> \<Longrightarrow>
        inv c now st'"
    and valid_width: "valid c \<Longrightarrow> 0 < width c"
begin

lemma count_after:
  assumes "\<forall>x. below n (live now (view c st x))" and "clock \<le> now" and "n < cap"
    and "valid c" and "inv c clock st" and "check c st w now = (st', ok)" and "0 < n"
  shows "below (Suc n) (live now (view c st' x))"
proof (cases "x = w")
  case True
  have "below cap (live now (view c st w))" using assms(1,3) below_mono less_imp_le by blast
  then have "live now (view c st' w) = Some (fw_next (width c) (view c st w) now)"
    using check_own [OF assms(4,5,2) _ assms(6)] by blast
  then show ?thesis using True assms(1) [rule_format, of w] assms(7)
    by (auto simp: fw_next_def below_def split: option.splits)
next
  case False
  then show ?thesis using check_frame [OF assms(4,5,2) False assms(6)] assms(1) below_mono [of n _ "Suc n"]
    by simp
qed

lemma live_below: "below n (live now v) \<Longrightarrow> now \<le> now' \<Longrightarrow> below n (live now' v)"
  by (auto simp: below_def live_def split: option.splits if_splits)

text \<open>
  The requests of the other workspaces do not matter, and neither does the forgetting
  of ended windows.
\<close>

lemma check_run_ideal:
  "\<lbrakk>valid c; inv c clock st; sorted (map snd evs); \<forall>e \<in> set evs. clock \<le> snd e;
    \<forall>x. below n (live clock (view c st x)); 0 < n; n + length evs \<le> cap\<rbrakk> \<Longrightarrow>
     times_of w (check_run (check c) st evs)
       = fw_run (width c) (limit c) (view c st w) (times_of w evs)"
proof (induction evs arbitrary: st clock n)
  case Nil
  then show ?case by (simp add: times_of_def)
next
  case (Cons e evs)
  obtain u now where e: "e = (u, now)" by (cases e)
  obtain st' ok where c: "check c st u now = (st', ok)" by (cases "check c st u now")
  have now: "clock \<le> now" using Cons.prems(4) e by simp
  have bel: "\<forall>x. below n (live now (view c st x))" using Cons.prems(5) now live_below by blast
  have cap: "n < cap" using Cons.prems(7) by simp
  have bel': "\<forall>x. below (Suc n) (live now (view c st' x))"
    using count_after [OF bel now cap Cons.prems(1,2) c Cons.prems(6)] by blast
  have IH: "times_of w (check_run (check c) st' evs)
      = fw_run (width c) (limit c) (view c st' w) (times_of w evs)"
    using Cons.prems(3,7) e
    by (intro Cons.IH [OF Cons.prems(1) check_inv [OF Cons.prems(1,2) now c] _ _ bel']) auto
  have later: "\<forall>t \<in> set (times_of w evs). now \<le> t"
    using Cons.prems(3) e by (auto simp: times_of_def)
  show ?case
  proof (cases "w = u")
    case True
    have b: "below cap (live now (view c st u))" using bel cap below_mono less_imp_le by blast
    note own = check_own [OF Cons.prems(1,2) now b c]
    let ?v = "fw_next (width c) (view c st u) now"
    have "live now (Some ?v) = Some ?v"
      using valid_width [OF Cons.prems(1)] by (auto simp: fw_next_def live_def split: option.splits)
    then have "fw_run (width c) (limit c) (view c st' u) (times_of u evs)
        = fw_run (width c) (limit c) (Some ?v) (times_of u evs)"
      using later True own by (intro fw_run_live [of _ now]) auto
    with IH own c e True show ?thesis by (auto simp: times_of_def Let_def)
  next
    case False
    have "fw_run (width c) (limit c) (view c st' w) (times_of w evs)
        = fw_run (width c) (limit c) (view c st w) (times_of w evs)"
      using later check_frame [OF Cons.prems(1,2) now False c] by (intro fw_run_live) auto
    with IH c e False show ?thesis by (auto simp: times_of_def)
  qed
qed

lemma check_run_bound:
  assumes "valid c" and "inv c 0 st" and "sorted (map snd evs)" and "length evs < cap"
    and "\<forall>x. view c st x = None" and "accepted = times_of w (check_run (check c) st evs)"
  shows "accepted = fw_run (width c) (limit c) None (times_of w evs)
    \<and> (\<forall>T. length (filter (\<lambda>t. T \<le> t \<and> t < T + width c) accepted) \<le> 2 * limit c)"
proof -
  have eq: "accepted = fw_run (width c) (limit c) None (times_of w evs)"
    using check_run_ideal [of c 0 st evs 1 w] assms by (simp add: below_def live_def)
  have "sorted (times_of w evs)" unfolding times_of_def using assms(3) by (rule sorted_filter)
  then show ?thesis using eq fw_run_interval valid_width [OF assms(1)] by blast
qed

end

section \<open>Configuration\<close>

datatype identity_scope = Models | Tools

record identity_config =
  id_enabled :: bool
  requests :: nat
  window_seconds :: nat
  id_backend :: client_ip_backend
  id_key_prefix :: string
  scopes :: "identity_scope list"

definition default_identity_config :: identity_config where
  "default_identity_config =
     \<lparr>id_enabled = False, requests = 100, window_seconds = 60, id_backend = IpMemory,
      id_key_prefix = ''gw:identityrl:'', scopes = [Models, Tools]\<rparr>"

text \<open>
  \<open>validate_identity_rate_limit\<close>; the two facts it reads of the rest of the configuration are
  arguments.
\<close>

definition validate_identity_rate_limit ::
    "identity_config option \<Rightarrow> bool \<Rightarrow> bool \<Rightarrow> init_error + unit" where
  "validate_identity_rate_limit c auth_disabled redis_url_set =
     (case c of
        None \<Rightarrow> Ok ()
      | Some l \<Rightarrow>
          if \<not> id_enabled l then Ok ()
          else if requests l = 0 \<or> \<not> (1 \<le> window_seconds l \<and> window_seconds l \<le> 86400)
               \<or> id_key_prefix l = [] \<or> scopes l = []
          then Err InvalidRateLimitConfig
          else if auth_disabled then Err InvalidRateLimitConfig
          else if id_backend l = IpRedis \<and> \<not> redis_url_set then Err InvalidRateLimitConfig
          else Ok ())"

definition valid_identity :: "identity_config \<Rightarrow> bool" where
  "valid_identity l \<longleftrightarrow> id_enabled l \<and> is_ok (validate_identity_rate_limit (Some l) False True)"

lemma valid_identity_bounds:
  "valid_identity l \<Longrightarrow> id_enabled l \<and> 0 < requests l \<and> 1 \<le> window_seconds l \<and> window_seconds l \<le> 86400"
  by (auto simp: valid_identity_def validate_identity_rate_limit_def is_ok_def split: if_splits)

section \<open>The in-process backend\<close>

datatype identity_error = IdRejected nat | IdUnavailable

record id_window =
  win_count :: nat
  win_expires :: nat

record 'w memory_state =
  windows :: "'w \<rightharpoonup> id_window"
  last_cleanup :: "nat option"

definition memory_state_new :: "'w memory_state" where
  "memory_state_new = \<lparr>windows = Map.empty, last_cleanup = None\<rparr>"

definition NS :: nat where "NS = 1000000000"

definition retain_live :: "nat \<Rightarrow> ('w \<rightharpoonup> id_window) \<Rightarrow> ('w \<rightharpoonup> id_window)" where
  "retain_live now m = (\<lambda>w. case m w of
     Some v \<Rightarrow> if now < win_expires v then Some v else None | None \<Rightarrow> None)"

definition cleanup :: "nat \<Rightarrow> nat \<Rightarrow> 'w memory_state \<Rightarrow> 'w memory_state" where
  "cleanup window now st =
     (if (case last_cleanup st of None \<Rightarrow> True | Some t \<Rightarrow> window \<le> now - t)
      then \<lparr>windows = retain_live now (windows st), last_cleanup = Some now\<rparr>
      else st)"

text \<open>\<open>left.as_secs() + u64::from(left.subsec_nanos() > 0)\<close>, at least 1.\<close>

definition retry_after_ns :: "nat \<Rightarrow> nat" where
  "retry_after_ns left = max (left div NS + (if 0 < left mod NS then 1 else 0)) 1"

definition check_memory_at ::
    "identity_config \<Rightarrow> 'w memory_state \<Rightarrow> 'w \<Rightarrow> nat \<Rightarrow> 'w memory_state \<times> (identity_error + unit)" where
  "check_memory_at c st0 workspace now =
     (let window = window_seconds c * NS;
          st = cleanup window now st0;
          w0 = (case windows st workspace of
                  Some w \<Rightarrow> w | None \<Rightarrow> \<lparr>win_count = 0, win_expires = now + window\<rparr>);
          w1 = (if win_expires w0 \<le> now then \<lparr>win_count = 0, win_expires = now + window\<rparr> else w0);
          w2 = w1\<lparr>win_count := saturating_add (win_count w1) 1\<rparr>;
          st' = st\<lparr>windows := (windows st)(workspace \<mapsto> w2)\<rparr>
      in (st', if requests c < win_count w2
               then Err (IdRejected (retry_after_ns (win_expires w2 - now))) else Ok ()))"

definition mem_check :: "identity_config \<Rightarrow> 'w memory_state \<Rightarrow> 'w \<Rightarrow> nat \<Rightarrow> 'w memory_state \<times> bool" where
  "mem_check c st w now = (case check_memory_at c st w now of (st', r) \<Rightarrow> (st', is_ok r))"

definition mem_view :: "'w memory_state \<Rightarrow> 'w \<Rightarrow> (nat \<times> nat) option" where
  "mem_view st w = map_option (\<lambda>v. (win_count v, win_expires v)) (windows st w)"

lemma cleanup_live: "live now (mem_view (cleanup window now st) w) = live now (mem_view st w)"
  by (auto simp: cleanup_def mem_view_def retain_live_def live_def split: option.splits)

lemma check_memory_windows:
  assumes "check_memory_at c st w now = (st', r)" and "below (u64_bound - 1) (live now (mem_view st w))"
  shows "mem_view st' w = Some (fw_next (window_seconds c * NS) (mem_view st w) now)
    \<and> (case r of
          Inr _ \<Rightarrow> fst (fw_next (window_seconds c * NS) (mem_view st w) now) \<le> requests c
        | Inl err \<Rightarrow> requests c < fst (fw_next (window_seconds c * NS) (mem_view st w) now)
            \<and> err = IdRejected (retry_after_ns
                (snd (fw_next (window_seconds c * NS) (mem_view st w) now) - now)))"
proof -
  let ?st = "cleanup (window_seconds c * NS) now st"
  have fw: "fw_next (window_seconds c * NS) (mem_view st w) now
      = fw_next (window_seconds c * NS) (mem_view ?st w) now"
    by (simp add: fw_next_def cleanup_live)
  have "below (u64_bound - 1) (live now (mem_view ?st w))"
    using assms(2) by (simp add: cleanup_live)
  then show ?thesis using assms(1) unfolding fw
    by (cases "windows ?st w")
      (auto simp: check_memory_at_def Let_def mem_view_def fw_next_def live_def below_def
        saturating_add_def u64_bound_def split: if_splits)
qed

lemma check_memory_frame:
  "\<lbrakk>check_memory_at c st w now = (st', r); w' \<noteq> w\<rbrakk> \<Longrightarrow>
     live now (mem_view st' w') = live now (mem_view st w')"
  using cleanup_live [of now "window_seconds c * NS" st w']
  by (auto simp: check_memory_at_def Let_def mem_view_def)

interpretation mem_fw: fixed_window mem_check "\<lambda>c. mem_view" "\<lambda>c clock st. True" valid_identity
    "\<lambda>c. window_seconds c * NS" requests "u64_bound - 1"
proof unfold_locales
  fix c :: identity_config and clock now :: nat and st st' :: "'w memory_state" and w :: 'w and ok
  assume v: "valid_identity c" and b: "below (u64_bound - 1) (live now (mem_view st w))"
    and ch: "mem_check c st w now = (st', ok)"
  obtain r where r: "check_memory_at c st w now = (st', r)" "ok = is_ok r"
    using ch by (auto simp: mem_check_def split: prod.splits)
  note own = check_memory_windows [OF r(1) b]
  have "live now (Some (fw_next (window_seconds c * NS) (mem_view st w) now))
      = Some (fw_next (window_seconds c * NS) (mem_view st w) now)"
    using valid_identity_bounds [OF v] by (auto simp: fw_next_def live_def NS_def split: option.splits)
  then show "live now (mem_view st' w) = Some (fw_next (window_seconds c * NS) (mem_view st w) now)
      \<and> (ok \<longleftrightarrow> fst (fw_next (window_seconds c * NS) (mem_view st w) now) \<le> requests c)"
    using own r(2) by (cases r) (auto simp: is_ok_def)
next
  fix c :: identity_config and now :: nat and st st' :: "'w memory_state" and w w' :: 'w and ok
  assume "w' \<noteq> w" and ch: "mem_check c st w now = (st', ok)"
  then show "live now (mem_view st' w') = live now (mem_view st w')"
    using check_memory_frame by (auto simp: mem_check_def split: prod.splits)
next
  fix c :: identity_config
  assume "valid_identity c"
  then show "0 < window_seconds c * NS" using valid_identity_bounds [of c] by (auto simp: NS_def)
qed simp

section \<open>The Redis backend\<close>

text \<open>
  A key holds a 64-bit count and possibly an expiry, in milliseconds of the Redis clock. Redis drops a key when its
  clock has passed the expiry; at the very millisecond the key is still there and \<open>PTTL\<close> is 0.
  \<open>identity_rate_limit_count\<close> is the script; an error reply is \<open>None\<close>.
\<close>

type_synonym counter_store = "string \<rightharpoonup> int \<times> nat option"

definition i64_bound :: int where "i64_bound = 9223372036854775808"

definition counter_at :: "nat \<Rightarrow> (int \<times> nat option) option \<Rightarrow> (int \<times> nat option) option" where
  "counter_at now k = (case k of
     Some (n, Some e) \<Rightarrow> if e < now then None else k | _ \<Rightarrow> k)"

definition identity_rate_limit_count ::
    "counter_store \<Rightarrow> string \<Rightarrow> nat \<Rightarrow> nat \<Rightarrow> counter_store \<times> (int \<times> int \<times> int) option" where
  "identity_rate_limit_count db key window_ms now =
     (let (n, expiry) = (case counter_at now (db key) of Some k \<Rightarrow> k | None \<Rightarrow> (0, None))
      in if i64_bound \<le> n + 1 then (db, None)
         else let count = n + 1 in
           if count < 1 then (db(key \<mapsto> (count, expiry)), None)
           else (case expiry of
              Some e \<Rightarrow> (db(key \<mapsto> (count, Some e)), Some (count, int e - int now, 0))
            | None \<Rightarrow> (db(key \<mapsto> (count, Some (now + window_ms))),
                Some (count, int window_ms, if 1 < count then 1 else 0))))"

text \<open>
  \<open>IdentityRateLimiter::check\<close>. \<open>fate\<close> says what happens to the Redis call under its
  timeout; \<open>show_id\<close> prints the workspace.
\<close>

record 'w identity_state =
  id_memory :: "'w memory_state"
  id_redis :: "counter_store option"

definition identity_key :: "('w \<Rightarrow> string) \<Rightarrow> identity_config \<Rightarrow> 'w \<Rightarrow> string" where
  "identity_key show_id c workspace = id_key_prefix c @ ''workspace:'' @ show_id workspace"

definition judge_count :: "identity_config \<Rightarrow> (int \<times> int \<times> int) option \<Rightarrow> identity_error + unit" where
  "judge_count c reply =
     (case reply of
        None \<Rightarrow> Err IdUnavailable
      | Some (count, ttl, repaired) \<Rightarrow>
          if count < 1 \<or> \<not> (0 \<le> ttl \<and> ttl \<le> 86400000) then Err IdUnavailable
          else if int (requests c) < count
          then Err (IdRejected (nat (max ((ttl + 999) div 1000) 1)))
          else Ok ())"

definition identity_check ::
    "('w \<Rightarrow> string) \<Rightarrow> identity_config \<Rightarrow> 'w identity_state \<Rightarrow> 'w \<Rightarrow> ip_call_env
       \<Rightarrow> 'w identity_state \<times> (identity_error + unit)" where
  "identity_check show_id c st workspace env =
     (if \<not> id_enabled c then (st, Ok ())
      else case id_backend c of
        IpMemory \<Rightarrow>
          (case check_memory_at c (id_memory st) workspace (mono_now env) of
             (m, r) \<Rightarrow> (st\<lparr>id_memory := m\<rparr>, r))
      | IpRedis \<Rightarrow>
          (case id_redis st of
             None \<Rightarrow> (st, Err IdUnavailable)
           | Some db \<Rightarrow>
               (case identity_rate_limit_count db (identity_key show_id c workspace)
                       (window_seconds c * 1000) (redis_now env) of
                  (db', reply) \<Rightarrow>
                    (case fate env of
                       Executed \<Rightarrow> (st\<lparr>id_redis := Some db'\<rparr>, judge_count c reply)
                     | LostReply \<Rightarrow> (st\<lparr>id_redis := Some db'\<rparr>, Err IdUnavailable)
                     | LostRequest \<Rightarrow> (st, Err IdUnavailable)))))"

text \<open>
  The Redis backend fails closed: a request of an enabled limiter passes only when the
  script ran, its reply arrived, and the count it stored is within the limit; without Redis, after a
  lost call or with a broken key the request is refused.
\<close>

theorem identity_redis_fails_closed:
  assumes "id_enabled c" and "id_backend c = IpRedis"
    and "identity_check show_id c st w env = (st', Ok ())"
  shows "fate env = Executed
    \<and> (\<exists>db db' n e. id_redis st = Some db \<and> id_redis st' = Some db'
        \<and> db' (identity_key show_id c w) = Some (n, Some e)
        \<and> 1 \<le> n \<and> n \<le> int (requests c))"
  using assms
  by (auto simp: identity_check_def identity_rate_limit_count_def judge_count_def Let_def
      split: option.splits prod.splits redis_call.splits if_splits)

definition ex_id_cfg :: identity_config where
  "ex_id_cfg = default_identity_config\<lparr>id_enabled := True, requests := 2, id_backend := IpRedis\<rparr>"

theorem identity_redis_fails_closed_witness:
  "\<exists>db' n e. id_redis (fst (identity_check id ex_id_cfg
        \<lparr>id_memory = memory_state_new, id_redis = Some (\<lambda>_. None)\<rparr> ''w'' ex_ip_env)) = Some db'
     \<and> db' (identity_key id ex_id_cfg ''w'') = Some (n, Some e) \<and> 1 \<le> n \<and> n \<le> 2"
proof -
  let ?st = "\<lparr>id_memory = memory_state_new, id_redis = Some (\<lambda>_. None)\<rparr> :: string identity_state"
  let ?db = "[identity_key id ex_id_cfg ''w'' \<mapsto> (1, Some 60007)]"
  have ok: "identity_check id ex_id_cfg ?st ''w'' ex_ip_env = (?st\<lparr>id_redis := Some ?db\<rparr>, Ok ())"
    by (simp add: identity_check_def ex_id_cfg_def default_identity_config_def ex_ip_env_def
        identity_rate_limit_count_def counter_at_def i64_bound_def judge_count_def Let_def fun_eq_iff)
  have c: "id_enabled ex_id_cfg" "id_backend ex_id_cfg = IpRedis" "requests ex_id_cfg = 2"
    by (simp_all add: ex_id_cfg_def)
  show ?thesis using identity_redis_fails_closed [OF c(1,2) ok] ok c(3) by auto
qed

definition red_check ::
    "identity_config \<Rightarrow> counter_store \<Rightarrow> string \<Rightarrow> nat \<Rightarrow> counter_store \<times> bool" where
  "red_check c db w now =
     (case identity_check id c \<lparr>id_memory = memory_state_new, id_redis = Some db\<rparr> w
             \<lparr>mono_now = 0, redis_now = now, member = [], fate = Executed\<rparr> of
        (st', r) \<Rightarrow> (the (id_redis st'), is_ok r))"

text \<open>The window of a key ends with the first millisecond after its expiry.\<close>

definition red_view :: "identity_config \<Rightarrow> counter_store \<Rightarrow> string \<Rightarrow> (nat \<times> nat) option" where
  "red_view c db w = (case db (identity_key id c w) of
     Some (n, Some e) \<Rightarrow> Some (nat n, Suc e) | _ \<Rightarrow> None)"

definition red_width :: "identity_config \<Rightarrow> nat" where
  "red_width c = Suc (window_seconds c * 1000)"

text \<open>Every key has a positive count and an expiry that lies at most a day ahead.\<close>

definition red_inv :: "identity_config \<Rightarrow> nat \<Rightarrow> counter_store \<Rightarrow> bool" where
  "red_inv c clock db \<longleftrightarrow> (\<forall>key n e. db key = Some (n, e) \<longrightarrow>
     0 < n \<and> (\<exists>t. e = Some t \<and> t \<le> clock + 86400000))"

definition red_valid :: "identity_config \<Rightarrow> bool" where
  "red_valid c \<longleftrightarrow> valid_identity c \<and> id_backend c = IpRedis"

lemma identity_key_inj: "identity_key id c w = identity_key id c w' \<longleftrightarrow> w = w'"
  by (simp add: identity_key_def)

lemma red_count_own:
  assumes v: "red_valid c" and inv: "red_inv c clock db" and le: "clock \<le> now"
    and b: "below (nat i64_bound - 1) (live now (red_view c db w))"
    and run: "identity_rate_limit_count db (identity_key id c w) (window_seconds c * 1000) now
      = (db', reply)"
  shows "red_view c db' w = Some (fw_next (red_width c) (red_view c db w) now)
    \<and> (is_ok (judge_count c reply)
        \<longleftrightarrow> fst (fw_next (red_width c) (red_view c db w) now) \<le> requests c)"
proof (cases "counter_at now (db (identity_key id c w))")
  case None
  then have "live now (red_view c db w) = None"
    by (auto simp: counter_at_def red_view_def live_def split: option.splits if_splits)
  with None run valid_identity_bounds [of c] v show ?thesis
    by (auto simp: identity_rate_limit_count_def Let_def i64_bound_def red_view_def fw_next_def
        judge_count_def is_ok_def red_valid_def red_width_def)
next
  case (Some k)
  then have k: "db (identity_key id c w) = Some k"
    by (auto simp: counter_at_def split: option.splits if_splits prod.splits)
  obtain n e where ne: "k = (n, Some e)" "0 < n" "e \<le> now + 86400000" "now \<le> e"
    using inv le k Some
    by (cases k) (fastforce simp: red_inv_def counter_at_def split: if_splits)
  then have l: "live now (red_view c db w) = Some (nat n, Suc e)"
    using k by (simp add: red_view_def live_def)
  with b have "n + 1 < i64_bound" by (auto simp: below_def i64_bound_def)
  with run Some ne l k show ?thesis
    by (auto simp: identity_rate_limit_count_def Let_def red_view_def fw_next_def judge_count_def
        is_ok_def nat_add_distrib split: if_splits)
qed

lemma red_check_cases:
  assumes "red_valid c" and "red_check c db w now = (db', ok)"
  obtains reply where "identity_rate_limit_count db (identity_key id c w)
      (window_seconds c * 1000) now = (db', reply)" "ok = is_ok (judge_count c reply)"
  using assms valid_identity_bounds [of c]
  by (auto simp: red_check_def identity_check_def red_valid_def split: prod.splits)

interpretation red_fw: fixed_window red_check red_view red_inv red_valid
    red_width requests "nat i64_bound - 1"
proof unfold_locales
  fix c clock now db db' w ok
  assume v: "red_valid c" and i: "red_inv c clock db" and le: "clock \<le> now"
    and b: "below (nat i64_bound - 1) (live now (red_view c db w))"
    and ch: "red_check c db w now = (db', ok)"
  obtain reply where r: "identity_rate_limit_count db (identity_key id c w)
      (window_seconds c * 1000) now = (db', reply)" "ok = is_ok (judge_count c reply)"
    using red_check_cases [OF v ch] .
  have "live now (Some (fw_next (red_width c) (red_view c db w) now))
      = Some (fw_next (red_width c) (red_view c db w) now)"
    using v valid_identity_bounds [of c]
    by (auto simp: red_valid_def fw_next_def live_def red_width_def split: option.splits)
  then show "live now (red_view c db' w) = Some (fw_next (red_width c) (red_view c db w) now)
      \<and> (ok \<longleftrightarrow> fst (fw_next (red_width c) (red_view c db w) now) \<le> requests c)"
    using red_count_own [OF v i le b r(1)] r(2) by simp
next
  fix c clock now db db' w w' ok
  assume v: "red_valid c" and ne: "w' \<noteq> w" and ch: "red_check c db w now = (db', ok)"
  obtain reply where r: "identity_rate_limit_count db (identity_key id c w)
      (window_seconds c * 1000) now = (db', reply)"
    using red_check_cases [OF v ch] .
  then have "db' (identity_key id c w') = db (identity_key id c w')"
    using ne by (auto simp: identity_rate_limit_count_def Let_def identity_key_inj
        split: prod.splits option.splits if_splits)
  then show "live now (red_view c db' w') = live now (red_view c db w')" by (simp add: red_view_def)
next
  fix c clock now db db' w ok
  assume v: "red_valid c" and i: "red_inv c clock db" and le: "clock \<le> now"
    and ch: "red_check c db w now = (db', ok)"
  obtain reply where r: "identity_rate_limit_count db (identity_key id c w)
      (window_seconds c * 1000) now = (db', reply)"
    using red_check_cases [OF v ch] .
  have old: "0 < n \<and> (\<exists>t. e = Some t \<and> t \<le> now + 86400000)" if "db key = Some (n, e)" for key n e
    using i le that by (fastforce simp: red_inv_def)
  show "red_inv c now db'"
    unfolding red_inv_def
  proof (intro allI impI)
    fix key n e
    assume k: "db' key = Some (n, e)"
    show "0 < n \<and> (\<exists>t. e = Some t \<and> t \<le> now + 86400000)"
      using k r old [of key] old [of "identity_key id c w"] v valid_identity_bounds [of c]
      by (auto simp: identity_rate_limit_count_def counter_at_def Let_def red_valid_def
          split: option.splits if_splits prod.splits)
  qed
next
  fix c assume "red_valid c"
  then show "0 < red_width c" by (simp add: red_width_def)
qed

section \<open>Properties\<close>

text \<open>
  Property C23. The in-process limiter is an ideal fixed window per workspace. The requests of the
  other workspaces and the periodic removal of ended windows never change a decision; in no
  interval of the length of a window does a workspace get more than twice its limit.
\<close>

theorem identity_memory_window:
  assumes "valid_identity c" and "sorted (map snd evs)" and "length evs < u64_bound - 1"
    and "accepted = times_of w (check_run (mem_check c) memory_state_new evs)"
  shows "accepted = fw_run (window_seconds c * NS) (requests c) None (times_of w evs)
    \<and> (\<forall>T. length (filter (\<lambda>t. T \<le> t \<and> t < T + window_seconds c * NS) accepted)
        \<le> 2 * requests c)"
  using assms
  by (intro mem_fw.check_run_bound [where st = memory_state_new and w = w and evs = evs])
    (auto simp: mem_view_def memory_state_new_def)

definition ex_mem_cfg :: identity_config where
  "ex_mem_cfg = default_identity_config\<lparr>id_enabled := True, requests := 1, window_seconds := 1\<rparr>"

definition ex_id_evs :: "(string \<times> nat) list" where
  "ex_id_evs = [(''a'', 0), (''b'', 5), (''a'', 999999999), (''a'', 1000000000)]"

theorem identity_memory_window_witness:
  "times_of ''a'' (check_run (mem_check ex_mem_cfg) memory_state_new ex_id_evs) = [0, 1000000000]"
proof -
  have h: "valid_identity ex_mem_cfg" "sorted (map snd ex_id_evs)" "length ex_id_evs < u64_bound - 1"
    by (simp_all add: valid_identity_def validate_identity_rate_limit_def is_ok_def ex_mem_cfg_def
        default_identity_config_def ex_id_evs_def u64_bound_def)
  have "fw_run (window_seconds ex_mem_cfg * NS) (requests ex_mem_cfg) None (times_of ''a'' ex_id_evs)
      = [0, 1000000000]"
    by (simp add: ex_mem_cfg_def ex_id_evs_def times_of_def NS_def fw_next_def live_def Let_def)
  then show ?thesis using identity_memory_window [OF h refl, of "''a''"] by simp
qed

text \<open>
  Property C24. The Redis limiter, while Redis answers, is an ideal fixed window per workspace on the clock of Redis,
  shared by all gateways: the expiry of the keys starts the windows and other workspaces do not interfere. Since a key
  lives through the millisecond of its expiry, a window is closed and one millisecond longer than configured; in no
  closed interval of the configured length does a workspace get more than twice its limit.
\<close>

theorem identity_redis_window:
  assumes "valid_identity c" and "id_backend c = IpRedis" and "sorted (map snd evs)"
    and "length evs < nat i64_bound - 1"
    and "accepted = times_of w (check_run (red_check c) Map.empty evs)"
  shows "accepted = fw_run (window_seconds c * 1000 + 1) (requests c) None (times_of w evs)
    \<and> (\<forall>T. length (filter (\<lambda>t. T \<le> t \<and> t \<le> T + window_seconds c * 1000) accepted)
        \<le> 2 * requests c)"
proof -
  have width: "t < T + red_width c \<longleftrightarrow> t \<le> T + window_seconds c * 1000" "red_width c = window_seconds c * 1000 + 1" for t T
    by (simp_all add: red_width_def less_Suc_eq_le)
  have "accepted = fw_run (red_width c) (requests c) None (times_of w evs)
    \<and> (\<forall>T. length (filter (\<lambda>t. T \<le> t \<and> t < T + red_width c) accepted) \<le> 2 * requests c)"
    using assms
    by (intro red_fw.check_run_bound [where st = Map.empty and w = w and evs = evs])
      (auto simp: red_view_def red_inv_def red_valid_def)
  then show ?thesis unfolding width(1) unfolding width(2) .
qed

definition ex_red_cfg :: identity_config where
  "ex_red_cfg = ex_mem_cfg\<lparr>id_backend := IpRedis\<rparr>"

theorem identity_redis_window_witness:
  "times_of ''a'' (check_run (red_check ex_red_cfg) Map.empty
      [(''a'', 0), (''b'', 5), (''a'', 999), (''a'', 1000), (''a'', 1001)]) = [0, 1001]"
proof -
  let ?evs = "[(''a'', 0 :: nat), (''b'', 5), (''a'', 999), (''a'', 1000), (''a'', 1001)]"
  have h: "valid_identity ex_red_cfg" "id_backend ex_red_cfg = IpRedis" "sorted (map snd ?evs)"
    "length ?evs < nat i64_bound - 1"
    by (simp_all add: valid_identity_def validate_identity_rate_limit_def is_ok_def ex_mem_cfg_def
        ex_red_cfg_def default_identity_config_def i64_bound_def)
  have "fw_run (window_seconds ex_red_cfg * 1000 + 1) (requests ex_red_cfg) None (times_of ''a'' ?evs)
      = [0, 1001]"
    by (simp add: ex_red_cfg_def ex_mem_cfg_def times_of_def fw_next_def live_def Let_def)
  then show ?thesis using identity_redis_window [OF h refl, of "''a''"] by simp
qed

lemma retry_after_ns_bounds:
  "1 \<le> retry_after_ns left \<and> left \<le> retry_after_ns left * NS
   \<and> (left \<le> n * NS \<longrightarrow> 1 \<le> n \<longrightarrow> retry_after_ns left \<le> n)"
proof -
  have pos: "0 < NS" by (simp add: NS_def)
  have dm: "left = left div NS * NS + left mod NS" by simp
  have lt: "left mod NS < NS" using pos by simp
  let ?q = "left div NS + (if 0 < left mod NS then 1 else 0)"
  have cover: "left \<le> ?q * NS"
  proof (cases "left mod NS = 0")
    case True
    with dm show ?thesis by simp
  next
    case False
    then have "?q * NS = left div NS * NS + NS" by (simp add: algebra_simps)
    with dm lt show ?thesis by linarith
  qed
  have "?q \<le> n" if "left \<le> n * NS"
  proof (cases "left mod NS = 0")
    case True
    then show ?thesis using that pos dm by (metis add.right_neutral mult_le_cancel2 less_irrefl)
  next
    case False
    then have "left div NS * NS < n * NS" using that dm by linarith
    then show ?thesis using False by simp
  qed
  moreover have "?q * NS \<le> max ?q 1 * NS" by (rule mult_le_mono1) simp
  ultimately have "left \<le> max ?q 1 * NS" "left \<le> n * NS \<longrightarrow> 1 \<le> n \<longrightarrow> max ?q 1 \<le> n"
    using cover by auto
  then show ?thesis unfolding retry_after_ns_def by simp
qed

text \<open>
  The advice of a rejection is sound. \<open>retry_after\<close> is at least one
  second and at most the window, and a workspace whose next request comes no earlier than
  that is served.
\<close>

theorem identity_retry_after_sound:
  assumes "valid_identity c" and "check_memory_at c st w now = (st', Err (IdRejected retry))"
    and "below (u64_bound - 1) (live now (mem_view st w))"
    and "\<forall>v. windows st w = Some v \<longrightarrow> win_expires v \<le> now + window_seconds c * NS"
    and "now + retry * NS \<le> later"
  shows "1 \<le> retry \<and> retry \<le> window_seconds c \<and> snd (check_memory_at c st' w later) = Ok ()"
proof -
  let ?W = "window_seconds c * NS"
  obtain n e where ne: "fw_next ?W (mem_view st w) now = (n, e)"
    by (cases "fw_next ?W (mem_view st w) now")
  have own: "mem_view st' w = Some (n, e)" "retry = retry_after_ns (e - now)"
    using check_memory_windows [OF assms(2,3)] ne by auto
  have v: "0 < requests c" "1 \<le> window_seconds c" using valid_identity_bounds [OF assms(1)] by auto
  have e: "e \<le> now + ?W"
    using ne assms(4) by (auto simp: fw_next_def live_def mem_view_def split: option.splits if_splits)
  have "e \<le> later" using retry_after_ns_bounds [of "e - now" 1] own(2) assms(5) by auto
  then have l: "live later (mem_view st' w) = None" using own(1) by (simp add: live_def)
  obtain st2 r where r: "check_memory_at c st' w later = (st2, r)"
    by (cases "check_memory_at c st' w later")
  have "\<not> requests c < 1" using v by simp
  then have "r = Ok ()"
    using check_memory_windows [OF r] l by (cases r) (auto simp: below_def fw_next_def)
  with r have "snd (check_memory_at c st' w later) = Ok ()" by simp
  moreover have "1 \<le> retry \<and> retry \<le> window_seconds c"
    using retry_after_ns_bounds [of "e - now" "window_seconds c"] own(2) e v(2) by auto
  ultimately show ?thesis by blast
qed

definition ex_full :: "string memory_state" where
  "ex_full = \<lparr>windows = [''a'' \<mapsto> \<lparr>win_count = 1, win_expires = 1000000000\<rparr>], last_cleanup = Some 0\<rparr>"

theorem identity_retry_after_sound_witness:
  "snd (check_memory_at ex_mem_cfg
      (fst (check_memory_at ex_mem_cfg ex_full ''a'' 5)) ''a'' 1000000005) = Ok ()"
proof -
  let ?st = "\<lparr>windows = [''a'' \<mapsto> \<lparr>win_count = Suc (Suc 0), win_expires = 1000000000\<rparr>], last_cleanup = Some 0\<rparr>"
  have run: "check_memory_at ex_mem_cfg ex_full ''a'' 5 = (?st, Err (IdRejected 1))"
    by (simp add: check_memory_at_def ex_mem_cfg_def default_identity_config_def ex_full_def
        cleanup_def NS_def Let_def saturating_add_def u64_bound_def retry_after_ns_def)
  have h: "valid_identity ex_mem_cfg" "below (u64_bound - 1) (live 5 (mem_view ex_full ''a''))"
    "\<forall>v. windows ex_full ''a'' = Some v \<longrightarrow> win_expires v \<le> 5 + window_seconds ex_mem_cfg * NS"
    "5 + 1 * NS \<le> 1000000005"
    by (simp_all add: valid_identity_def validate_identity_rate_limit_def is_ok_def ex_mem_cfg_def
        default_identity_config_def ex_full_def mem_view_def live_def below_def u64_bound_def NS_def)
  show ?thesis using identity_retry_after_sound [OF h(1) run h(2-4)] run by simp
qed

section \<open>Which requests are limited\<close>

datatype request_kind =
  KRouter | KUnifiedApi | KDirectProxy | KCustomProvider | KAgentEvents | KAgentTools | KX402Agent

definition applies_to :: "identity_config \<Rightarrow> request_kind option \<Rightarrow> bool" where
  "applies_to c kind =
     (case kind of
        Some KRouter \<Rightarrow> id_enabled c \<and> Models \<in> set (scopes c)
      | Some KUnifiedApi \<Rightarrow> id_enabled c \<and> Models \<in> set (scopes c)
      | Some KDirectProxy \<Rightarrow> id_enabled c \<and> Models \<in> set (scopes c)
      | Some KCustomProvider \<Rightarrow> id_enabled c \<and> Models \<in> set (scopes c)
      | Some KAgentTools \<Rightarrow> id_enabled c \<and> Tools \<in> set (scopes c)
      | _ \<Rightarrow> False)"

end
