(* ===== verification/Singleflight.thy ===== *)
theory Singleflight
  imports Gateway_Prelude
begin

text \<open>
  \<open>InMemorySessionSingleflight::get_or_try_init\<close> of
  \<open>agent/tools/mcp_streamable_http/session.rs\<close>: concurrent callers with the same key share one
  initialisation. The tasks are a list of callers that are scheduled in any order; a step runs a
  caller from one point where it can be interrupted to the next.
\<close>

section \<open>The transition system\<close>

text \<open>
  A broadcast channel has one sender in the map and one in its owner; nothing is sent twice.
  \<open>Open\<close>: a sender is alive and nothing was sent. \<open>Sent v\<close>: the value can be received by everybody
  who subscribed before. \<open>Closed\<close>: all senders are gone without a value.
\<close>

datatype 'v chan = Open | Sent 'v | Closed

text \<open>
  Where a caller stands. \<open>Start\<close>: before it takes the lock of the map. \<open>Own ch\<close>: it inserted
  \<open>ch\<close> and runs its initialiser. \<open>Sending ch v\<close>: in \<open>finish\<close>, after the removal of the entry and
  before the send. \<open>Dropping ch r\<close>: in \<open>Drop\<close>, after the removal and before the sender is
  dropped. \<open>Wait ch\<close>: in \<open>receiver.recv()\<close>. \<open>Returned r\<close>: with the result, where \<open>None\<close> is a
  caller whose future was dropped.
\<close>

datatype ('v, 'e) pc =
    Start
  | Own nat
  | Sending nat 'v
  | Dropping nat "('e + 'v) option"
  | Wait nat
  | Returned "('e + 'v) option"

record ('v, 'e) caller =
  c_key :: string
  c_pc :: "('v, 'e) pc"

record ('v, 'e) singleflight =
  in_flight :: "string \<rightharpoonup> nat"
  chans :: "'v chan list"
  callers :: "('v, 'e) caller list"

definition singleflight_new :: "string list \<Rightarrow> ('v, 'e) singleflight" where
  "singleflight_new keys =
     \<lparr>in_flight = Map.empty, chans = [], callers = map (\<lambda>k. \<lparr>c_key = k, c_pc = Start\<rparr>) keys\<rparr>"

text \<open>\<open>run i\<close> continues caller \<open>i\<close>; \<open>init i r\<close> is the end of its initialiser; \<open>cancel i\<close> drops its future.\<close>

datatype ('v, 'e) sf_event = Run nat | InitEnds nat "'e + 'v" | Cancel nat

definition set_pc :: "('v, 'e) singleflight \<Rightarrow> nat \<Rightarrow> ('v, 'e) pc \<Rightarrow> ('v, 'e) singleflight" where
  "set_pc s i p = s\<lparr>callers := (callers s)[i := (callers s ! i)\<lparr>c_pc := p\<rparr>]\<rparr>"

definition remove_entry :: "('v, 'e) singleflight \<Rightarrow> string \<Rightarrow> ('v, 'e) singleflight" where
  "remove_entry s k = s\<lparr>in_flight := (in_flight s)(k := None)\<rparr>"

definition set_chan :: "('v, 'e) singleflight \<Rightarrow> nat \<Rightarrow> 'v chan \<Rightarrow> ('v, 'e) singleflight" where
  "set_chan s ch c = s\<lparr>chans := (chans s)[ch := c]\<rparr>"

text \<open>The block that takes the lock and chooses the role.\<close>

definition choose_role :: "('v, 'e) singleflight \<Rightarrow> nat \<Rightarrow> ('v, 'e) singleflight" where
  "choose_role s i =
     (let k = c_key (callers s ! i) in
      case in_flight s k of
        Some ch \<Rightarrow> set_pc s i (Wait ch)
      | None \<Rightarrow>
          set_pc (s\<lparr>in_flight := (in_flight s)(k \<mapsto> length (chans s)), chans := chans s @ [Open]\<rparr>)
            i (Own (length (chans s))))"

definition sf_run :: "('v, 'e) singleflight \<Rightarrow> nat \<Rightarrow> ('v, 'e) singleflight option" where
  "sf_run s i =
     (case c_pc (callers s ! i) of
        Start \<Rightarrow> Some (choose_role s i)
      | Sending ch v \<Rightarrow> Some (set_pc (set_chan s ch (Sent v)) i (Returned (Some (Ok v))))
      | Dropping ch r \<Rightarrow> Some (set_pc (set_chan s ch Closed) i (Returned r))
      | Wait ch \<Rightarrow>
          (case chans s ! ch of
             Open \<Rightarrow> None
           | Sent v \<Rightarrow> Some (set_pc s i (Returned (Some (Ok v))))
           | Closed \<Rightarrow> Some (set_pc s i Start))
      | _ \<Rightarrow> None)"

definition sf_init_ends :: "('v, 'e) singleflight \<Rightarrow> nat \<Rightarrow> 'e + 'v \<Rightarrow> ('v, 'e) singleflight option" where
  "sf_init_ends s i r =
     (case c_pc (callers s ! i) of
        Own ch \<Rightarrow>
          (let s' = remove_entry s (c_key (callers s ! i)) in
           Some (set_pc s' i (case r of Inr v \<Rightarrow> Sending ch v | Inl e \<Rightarrow> Dropping ch (Some (Err e)))))
      | _ \<Rightarrow> None)"

definition sf_cancel :: "('v, 'e) singleflight \<Rightarrow> nat \<Rightarrow> ('v, 'e) singleflight option" where
  "sf_cancel s i =
     (case c_pc (callers s ! i) of
        Start \<Rightarrow> Some (set_pc s i (Returned None))
      | Wait ch \<Rightarrow> Some (set_pc s i (Returned None))
      | Own ch \<Rightarrow> Some (set_pc (remove_entry s (c_key (callers s ! i))) i (Dropping ch None))
      | _ \<Rightarrow> None)"

fun sf_step :: "('v, 'e) singleflight \<Rightarrow> ('v, 'e) sf_event \<Rightarrow> ('v, 'e) singleflight option" where
  "sf_step s (Run i) = (if i < length (callers s) then sf_run s i else None)"
| "sf_step s (InitEnds i r) = (if i < length (callers s) then sf_init_ends s i r else None)"
| "sf_step s (Cancel i) = (if i < length (callers s) then sf_cancel s i else None)"

text \<open>A schedule, with every initialiser that ended: the caller and its result.\<close>

inductive sf_reaches ::
    "('v, 'e) singleflight \<Rightarrow> (string \<times> 'v) set \<Rightarrow> ('v, 'e) singleflight \<Rightarrow> bool" for s0 where
  sf_init: "sf_reaches s0 {} s0"
| sf_next: "\<lbrakk>sf_reaches s0 vs s; sf_step s ev = Some s'; \<forall>i v. ev \<noteq> InitEnds i (Inr v)\<rbrakk>
    \<Longrightarrow> sf_reaches s0 vs s'"
| sf_produce: "\<lbrakk>sf_reaches s0 vs s; sf_step s (InitEnds i (Inr v)) = Some s'\<rbrakk>
    \<Longrightarrow> sf_reaches s0 (insert (c_key (callers s ! i), v) vs) s'"

section \<open>The invariant\<close>

text \<open>The channel that a caller will settle.\<close>

fun settles :: "('v, 'e) pc \<Rightarrow> nat option" where
  "settles (Own ch) = Some ch"
| "settles (Sending ch v) = Some ch"
| "settles (Dropping ch r) = Some ch"
| "settles _ = None"

definition owner_at :: "('v, 'e) singleflight \<Rightarrow> nat \<Rightarrow> string \<Rightarrow> nat \<Rightarrow> bool" where
  "owner_at s i k ch \<longleftrightarrow> i < length (callers s) \<and> c_key (callers s ! i) = k
     \<and> c_pc (callers s ! i) = Own ch"

definition settler :: "('v, 'e) singleflight \<Rightarrow> nat \<Rightarrow> nat \<Rightarrow> bool" where
  "settler s i ch \<longleftrightarrow> i < length (callers s) \<and> settles (c_pc (callers s ! i)) = Some ch"

text \<open>
  The entries of the map are exactly the channels of the running initialisers; a channel is
  open exactly while one caller is to settle it; a caller waits on a channel of its own key; and
  what is sent or returned was produced for the key.
\<close>

definition entries_inv :: "('v, 'e) singleflight \<Rightarrow> bool" where
  "entries_inv s \<longleftrightarrow> (\<forall>k ch. in_flight s k = Some ch \<longleftrightarrow> (\<exists>i. owner_at s i k ch))"

definition open_inv :: "('v, 'e) singleflight \<Rightarrow> bool" where
  "open_inv s \<longleftrightarrow>
     (\<forall>ch < length (chans s). chans s ! ch = Open \<longleftrightarrow> (\<exists>i. settler s i ch))
     \<and> (\<forall>i ch. settler s i ch \<longrightarrow> ch < length (chans s))
     \<and> (\<forall>i j ch. settler s i ch \<longrightarrow> settler s j ch \<longrightarrow> i = j)"

definition wait_inv :: "('v, 'e) singleflight \<Rightarrow> bool" where
  "wait_inv s \<longleftrightarrow> (\<forall>i < length (callers s). \<forall>ch. c_pc (callers s ! i) = Wait ch \<longrightarrow> ch < length (chans s))"

fun pc_ok :: "(string \<times> 'v) set \<Rightarrow> (nat \<Rightarrow> string) \<Rightarrow> string \<Rightarrow> ('v, 'e) pc \<Rightarrow> bool" where
  "pc_ok vs ck k Start = True"
| "pc_ok vs ck k (Own ch) = (ck ch = k)"
| "pc_ok vs ck k (Sending ch v) = (ck ch = k \<and> (k, v) \<in> vs)"
| "pc_ok vs ck k (Dropping ch r) = (\<forall>v. r \<noteq> Some (Ok v))"
| "pc_ok vs ck k (Wait ch) = (ck ch = k)"
| "pc_ok vs ck k (Returned r) = (\<forall>v. r = Some (Ok v) \<longrightarrow> (k, v) \<in> vs)"

definition key_inv :: "(string \<times> 'v) set \<Rightarrow> (nat \<Rightarrow> string) \<Rightarrow> ('v, 'e) singleflight \<Rightarrow> bool" where
  "key_inv vs ck s \<longleftrightarrow>
     (\<forall>i < length (callers s). pc_ok vs ck (c_key (callers s ! i)) (c_pc (callers s ! i)))
     \<and> (\<forall>ch < length (chans s). \<forall>v. chans s ! ch = Sent v \<longrightarrow> (ck ch, v) \<in> vs)"

lemma set_pc_simps [simp]:
  "length (callers (set_pc s i p)) = length (callers s)"
  "in_flight (set_pc s i p) = in_flight s"
  "chans (set_pc s i p) = chans s"
  by (simp_all add: set_pc_def)

lemma set_pc_key [simp]: "c_key (callers (set_pc s i p) ! j) = c_key (callers s ! j)"
proof (cases "i < length (callers s)")
  case True
  then show ?thesis by (simp add: set_pc_def nth_list_update)
next
  case False
  then show ?thesis by (simp add: set_pc_def list_update_beyond)
qed

lemma set_pc_pc:
  "i < length (callers s) \<Longrightarrow>
     c_pc (callers (set_pc s i p) ! j) = (if j = i then p else c_pc (callers s ! j))"
  by (simp add: set_pc_def nth_list_update)

lemma set_simps [simp]:
  "callers (remove_entry s k) = callers s" "chans (remove_entry s k) = chans s"
  "in_flight (remove_entry s k) = (in_flight s)(k := None)"
  "callers (set_chan s ch c) = callers s" "in_flight (set_chan s ch c) = in_flight s"
  "chans (set_chan s ch c) = (chans s)[ch := c]"
  by (simp_all add: remove_entry_def set_chan_def)

lemma owner_set_pc:
  "i < length (callers s) \<Longrightarrow> owner_at (set_pc s i p) j k ch \<longleftrightarrow>
     (if j = i then c_key (callers s ! i) = k \<and> p = Own ch else owner_at s j k ch)"
  by (auto simp: owner_at_def set_pc_pc)

lemma settler_set_pc:
  "i < length (callers s) \<Longrightarrow> settler (set_pc s i p) j ch \<longleftrightarrow>
     (if j = i then settles p = Some ch else settler s j ch)"
  by (auto simp: settler_def set_pc_pc)

lemma ex_other: "\<not> P i \<Longrightarrow> (\<exists>j. if j = i then A else P j) \<longleftrightarrow> A \<or> (\<exists>j. P j)"
  by metis

lemma owner_settler: "owner_at s i k ch \<Longrightarrow> settler s i ch"
  by (simp add: owner_at_def settler_def)

lemma owner_pc: "owner_at s i k ch \<Longrightarrow> c_pc (callers s ! i) = Own ch \<and> c_key (callers s ! i) = k"
  by (simp add: owner_at_def)

lemma settler_pc: "settler s i ch \<Longrightarrow> settles (c_pc (callers s ! i)) = Some ch"
  by (simp add: settler_def)

definition sf_inv :: "(string \<times> 'v) set \<Rightarrow> ('v, 'e) singleflight \<Rightarrow> bool" where
  "sf_inv vs s \<longleftrightarrow> entries_inv s \<and> open_inv s \<and> wait_inv s \<and> (\<exists>ck. key_inv vs ck s)"

text \<open>A caller that neither settled nor settles a channel changes neither the map nor the channels.\<close>

lemma quiet_inv:
  assumes "i < length (callers s)" and "settles (c_pc (callers s ! i)) = None" and "settles p = None"
    and "entries_inv s" and "open_inv s"
  shows "entries_inv (set_pc s i p) \<and> open_inv (set_pc s i p)"
proof -
  have "owner_at (set_pc s i p) j k ch \<longleftrightarrow> owner_at s j k ch" for j k ch
    using assms(1-3) owner_pc [of s i k ch] by (auto simp: owner_set_pc [OF assms(1)])
  moreover have "settler (set_pc s i p) j ch \<longleftrightarrow> settler s j ch" for j ch
    using assms(1-3) settler_pc [of s i ch] by (auto simp: settler_set_pc [OF assms(1)])
  ultimately show ?thesis using assms(4,5) by (simp add: entries_inv_def open_inv_def)
qed

lemma wait_inv_set_pc:
  assumes "i < length (callers s)" and "wait_inv s" and "\<forall>ch. p = Wait ch \<longrightarrow> ch < length (chans s)"
  shows "wait_inv (set_pc s i p)"
  using assms by (auto simp: wait_inv_def set_pc_pc)

lemma key_inv_set_pc:
  "\<lbrakk>i < length (callers s); key_inv vs ck s; pc_ok vs ck (c_key (callers s ! i)) p\<rbrakk>
     \<Longrightarrow> key_inv vs ck (set_pc s i p)"
  by (auto simp: key_inv_def set_pc_pc)

lemma key_inv_pc:
  "key_inv vs ck s \<Longrightarrow> i < length (callers s) \<Longrightarrow> pc_ok vs ck (c_key (callers s ! i)) (c_pc (callers s ! i))"
  by (simp add: key_inv_def)

lemma quiet_sf_inv:
  assumes "sf_inv vs s" and "i < length (callers s)" and "settles (c_pc (callers s ! i)) = None"
    and "p = Start \<or> p = Returned None
      \<or> (\<exists>v. p = Returned (Some (Ok v)) \<and> (c_key (callers s ! i), v) \<in> vs)"
  shows "sf_inv vs (set_pc s i p)"
proof -
  obtain ck where ck: "key_inv vs ck s" using assms(1) by (auto simp: sf_inv_def)
  have "key_inv vs ck (set_pc s i p)" using assms(4) by (intro key_inv_set_pc [OF assms(2) ck]) auto
  moreover have "entries_inv (set_pc s i p) \<and> open_inv (set_pc s i p)"
    using assms by (intro quiet_inv) (auto simp: sf_inv_def)
  moreover have "wait_inv (set_pc s i p)"
    using assms by (intro wait_inv_set_pc) (auto simp: sf_inv_def)
  ultimately show ?thesis by (auto simp: sf_inv_def)
qed

lemma choose_role_inv:
  assumes inv: "sf_inv vs s" and i: "i < length (callers s)" and st: "c_pc (callers s ! i) = Start"
  shows "sf_inv vs (choose_role s i)"
proof (cases "in_flight s (c_key (callers s ! i))")
  case (Some ch)
  obtain ck where ck: "key_inv vs ck s" using inv by (auto simp: sf_inv_def)
  obtain j where j: "owner_at s j (c_key (callers s ! i)) ch"
    using inv Some by (auto simp: sf_inv_def entries_inv_def)
  have "ck ch = c_key (callers s ! i)"
    using j key_inv_pc [OF ck, of j] by (auto simp: owner_at_def)
  moreover have "ch < length (chans s)"
    using inv owner_settler [OF j] by (auto simp: sf_inv_def open_inv_def)
  ultimately have "key_inv vs ck (set_pc s i (Wait ch))" "wait_inv (set_pc s i (Wait ch))"
    "entries_inv (set_pc s i (Wait ch)) \<and> open_inv (set_pc s i (Wait ch))"
    using inv i st ck key_inv_set_pc [of i s vs ck "Wait ch"] wait_inv_set_pc [of i s "Wait ch"]
      quiet_inv [of i s "Wait ch"]
    by (simp_all add: sf_inv_def)
  then show ?thesis using Some by (auto simp: choose_role_def sf_inv_def)
next
  case None
  let ?k = "c_key (callers s ! i)" and ?n = "length (chans s)"
  let ?t = "s\<lparr>in_flight := (in_flight s)(?k \<mapsto> ?n), chans := chans s @ [Open]\<rparr>"
  obtain ck where ck: "key_inv vs ck s" using inv by (auto simp: sf_inv_def)
  have op: "open_inv s" and en: "entries_inv s" and wt: "wait_inv s" using inv by (auto simp: sf_inv_def)
  have t: "owner_at ?t j k ch \<longleftrightarrow> owner_at s j k ch" "settler ?t j ch \<longleftrightarrow> settler s j ch" for j k ch
    by (auto simp: owner_at_def settler_def)
  have fresh: "\<not> settler s j ?n" for j using op by (auto simp: open_inv_def)
  have noown: "\<not> owner_at s j ?k ch" for j ch
    using en None unfolding entries_inv_def by (metis option.distinct(1))
  have noti: "\<not> owner_at s i k ch" "\<not> settler s i ch" for k ch
    using st by (auto simp: owner_at_def settler_def)
  have len: "i < length (callers ?t)" using i by simp
  have "entries_inv (set_pc ?t i (Own ?n))"
    unfolding entries_inv_def owner_set_pc [OF len] t
    using en noown noti by (auto simp: entries_inv_def ex_other)
  moreover have "open_inv (set_pc ?t i (Own ?n))"
    unfolding open_inv_def settler_set_pc [OF len] t
    using op fresh noti by (auto simp: open_inv_def ex_other nth_append less_Suc_eq split: if_splits)
  moreover have "wait_inv (set_pc ?t i (Own ?n))"
    using wt i by (auto simp: wait_inv_def set_pc_pc less_Suc_eq)
  moreover have "key_inv vs (ck(?n := ?k)) (set_pc ?t i (Own ?n))"
  proof (rule key_inv_set_pc [OF len])
    have lt: "ch < ?n" if "j < length (callers s)"
        "c_pc (callers s ! j) = Own ch \<or> c_pc (callers s ! j) = Sending ch v \<or> c_pc (callers s ! j) = Wait ch"
      for j ch v
    proof -
      have "settler s j ch \<Longrightarrow> ch < ?n" using op unfolding open_inv_def by blast
      then show ?thesis using that wt by (auto simp: settler_def wait_inv_def)
    qed
    show "key_inv vs (ck(?n := ?k)) ?t"
      unfolding key_inv_def
    proof (intro conjI allI impI)
      fix j assume "j < length (callers ?t)"
      then show "pc_ok vs (ck(?n := ?k)) (c_key (callers ?t ! j)) (c_pc (callers ?t ! j))"
        using key_inv_pc [OF ck, of j] lt [of j] by (cases "c_pc (callers s ! j)") auto
    next
      fix ch v assume "ch < length (chans ?t)" "chans ?t ! ch = Sent v"
      then show "((ck(?n := ?k)) ch, v) \<in> vs"
        using ck by (auto simp: key_inv_def nth_append less_Suc_eq)
    qed
  qed simp
  ultimately show ?thesis using None by (auto simp: choose_role_def Let_def sf_inv_def)
qed

text \<open>The owner settles its channel: \<open>finish\<close> sends, \<open>Drop\<close> closes.\<close>

lemma settle_inv:
  assumes inv: "sf_inv vs s" and i: "i < length (callers s)"
    and pc: "(\<exists>v. c_pc (callers s ! i) = Sending ch v \<and> c = Sent v \<and> p = Returned (Some (Ok v)))
      \<or> (\<exists>r. c_pc (callers s ! i) = Dropping ch r \<and> c = Closed \<and> p = Returned r)"
  shows "sf_inv vs (set_pc (set_chan s ch c) i p)"
proof -
  let ?t = "set_chan s ch c"
  obtain ck where ck: "key_inv vs ck s" using inv by (auto simp: sf_inv_def)
  have op: "open_inv s" and en: "entries_inv s" and wt: "wait_inv s" using inv by (auto simp: sf_inv_def)
  have len: "i < length (callers ?t)" using i by simp
  have t: "owner_at ?t j k h \<longleftrightarrow> owner_at s j k h" "settler ?t j h \<longleftrightarrow> settler s j h" for j k h
    by (auto simp: owner_at_def settler_def)
  have noti: "\<not> owner_at s i k h" for k h using pc by (auto simp: owner_at_def)
  have set_i: "settler s i ch" using pc i by (auto simp: settler_def)
  have uniq: "settler s j ch \<Longrightarrow> j = i" for j using op set_i unfolding open_inv_def by blast
  have i_only: "settler s i h \<Longrightarrow> h = ch" for h using pc by (auto simp: settler_def)
  have nop: "settles p = None" "\<And>h. p \<noteq> Own h" "c \<noteq> Open" using pc by auto
  have chl: "ch < length (chans s)" using op set_i unfolding open_inv_def by blast
  have "entries_inv (set_pc ?t i p)"
    unfolding entries_inv_def owner_set_pc [OF len] t
    using en noti nop(2) by (simp add: entries_inv_def ex_other)
  moreover have "open_inv (set_pc ?t i p)"
    unfolding open_inv_def settler_set_pc [OF len] t
  proof (intro conjI allI impI)
    fix h assume "h < length (chans (set_pc ?t i p))"
    then have h: "h < length (chans s)" by simp
    show "chans (set_pc ?t i p) ! h = Open \<longleftrightarrow>
        (\<exists>j. if j = i then settles p = Some h else settler s j h)"
    proof (cases "h = ch")
      case True
      then show ?thesis using chl nop uniq by auto
    next
      case False
      then have "chans (set_pc ?t i p) ! h = Open \<longleftrightarrow> (\<exists>j. settler s j h)"
        using op h unfolding open_inv_def by simp
      moreover have "(if j = i then settles p = Some h else settler s j h) \<longleftrightarrow> settler s j h" for j
        using nop(1) i_only [of h] False by auto
      ultimately show ?thesis by simp
    qed
  qed (use op nop in \<open>auto simp: open_inv_def split: if_splits\<close>)
  moreover have "wait_inv (set_pc ?t i p)"
    using wt pc i by (auto simp: wait_inv_def set_pc_pc)
  moreover have "key_inv vs ck (set_pc ?t i p)"
  proof (rule key_inv_set_pc [OF len])
    have "(ck ch, v) \<in> vs" if "c = Sent v" for v
      using that pc key_inv_pc [OF ck i] by auto
    then show "key_inv vs ck ?t"
      using ck chl by (auto simp: key_inv_def nth_list_update split: if_splits)
  qed (use pc key_inv_pc [OF ck i] in auto)
  ultimately show ?thesis by (auto simp: sf_inv_def)
qed

text \<open>The initialiser ends or its caller is dropped: the entry of the map goes.\<close>

lemma pc_ok_mono: "pc_ok vs ck k p \<Longrightarrow> vs \<subseteq> vs' \<Longrightarrow> pc_ok vs' ck k p"
  by (cases p) auto

lemma key_inv_mono: "key_inv vs ck s \<Longrightarrow> vs \<subseteq> vs' \<Longrightarrow> key_inv vs' ck s"
  by (auto simp: key_inv_def intro: pc_ok_mono)

lemma leave_inv:
  assumes inv: "sf_inv vs s" and i: "i < length (callers s)" and pc: "c_pc (callers s ! i) = Own ch"
    and p: "(\<exists>v. p = Sending ch v \<and> (c_key (callers s ! i), v) \<in> vs')
      \<or> (\<exists>r. p = Dropping ch r \<and> (\<forall>v. r \<noteq> Some (Ok v)))"
    and mono: "vs \<subseteq> vs'"
  shows "sf_inv vs' (set_pc (remove_entry s (c_key (callers s ! i))) i p)"
proof -
  let ?k = "c_key (callers s ! i)"
  let ?t = "remove_entry s ?k"
  obtain ck where ck: "key_inv vs ck s" using inv by (auto simp: sf_inv_def)
  have op: "open_inv s" and en: "entries_inv s" and wt: "wait_inv s" using inv by (auto simp: sf_inv_def)
  have len: "i < length (callers ?t)" using i by simp
  have t: "owner_at ?t j k h \<longleftrightarrow> owner_at s j k h" "settler ?t j h \<longleftrightarrow> settler s j h" for j k h
    by (auto simp: owner_at_def settler_def)
  have own: "owner_at s i ?k ch" using i pc by (simp add: owner_at_def)
  then have ent: "in_flight s ?k = Some ch" using en by (auto simp: entries_inv_def)
  have only: "j = i" if "owner_at s j ?k h" for j h
  proof -
    have "in_flight s ?k = Some h" using en that by (auto simp: entries_inv_def)
    then have "h = ch" using ent by simp
    then show ?thesis using op owner_settler [OF own] owner_settler [OF that]
      unfolding open_inv_def by blast
  qed
  have noti: "owner_at s i k h \<Longrightarrow> k = ?k" for k h by (auto simp: owner_at_def)
  have nop: "settles p = Some ch" "\<And>h. p \<noteq> Own h" using p by auto
  have same: "settler (set_pc ?t i p) j h \<longleftrightarrow> settler s j h" for j h
    using settler_set_pc [OF len, of p j h] nop(1) pc i by (auto simp: t settler_def)
  have "entries_inv (set_pc ?t i p)"
    unfolding entries_inv_def owner_set_pc [OF len] t
    using en only noti nop(2) by (auto simp: entries_inv_def) metis+
  moreover have "open_inv (set_pc ?t i p)" using op by (simp add: open_inv_def same)
  moreover have "wait_inv (set_pc ?t i p)" using wt p i by (auto simp: wait_inv_def set_pc_pc)
  moreover have "key_inv vs' ck (set_pc ?t i p)"
  proof (rule key_inv_set_pc [OF len])
    show "key_inv vs' ck ?t" using key_inv_mono [OF ck mono] by (simp add: key_inv_def)
  qed (use p key_inv_pc [OF ck i] pc in auto)
  ultimately show ?thesis by (auto simp: sf_inv_def)
qed

lemma sf_run_inv: "\<lbrakk>sf_inv vs s; i < length (callers s); sf_run s i = Some s'\<rbrakk> \<Longrightarrow> sf_inv vs s'"
proof (cases "c_pc (callers s ! i)")
  case (Wait ch)
  assume inv: "sf_inv vs s" and i: "i < length (callers s)" and r: "sf_run s i = Some s'"
  obtain ck where ck: "key_inv vs ck s" "wait_inv s" using inv by (auto simp: sf_inv_def)
  have ch: "ch < length (chans s)" using ck(2) Wait i by (auto simp: wait_inv_def)
  have "(c_key (callers s ! i), v) \<in> vs" if "chans s ! ch = Sent v" for v
  proof -
    have "ck ch = c_key (callers s ! i)" using key_inv_pc [OF ck(1) i] Wait by simp
    moreover have "(ck ch, v) \<in> vs" using ck(1) that ch by (auto simp: key_inv_def)
    ultimately show ?thesis by simp
  qed
  then show ?thesis
    using r Wait i inv by (auto simp: sf_run_def split: chan.splits intro!: quiet_sf_inv)
qed (auto simp: sf_run_def intro: choose_role_inv settle_inv)

lemma sf_cancel_inv: "\<lbrakk>sf_inv vs s; i < length (callers s); sf_cancel s i = Some s'\<rbrakk> \<Longrightarrow> sf_inv vs s'"
  by (cases "c_pc (callers s ! i)") (auto simp: sf_cancel_def intro: quiet_sf_inv leave_inv)

lemma sf_init_ends_inv:
  "\<lbrakk>sf_inv vs s; i < length (callers s); sf_init_ends s i r = Some s';
    vs' = (case r of Inr v \<Rightarrow> insert (c_key (callers s ! i), v) vs | Inl e \<Rightarrow> vs)\<rbrakk> \<Longrightarrow> sf_inv vs' s'"
  by (cases "c_pc (callers s ! i)"; cases r)
    (auto simp: sf_init_ends_def Let_def intro!: leave_inv)

lemma sf_new_inv: "sf_inv {} (singleflight_new keys)"
proof -
  have "c_pc (callers (singleflight_new keys) ! i) = Start" if "i < length keys" for i
    using that by (simp add: singleflight_new_def)
  moreover have "length (callers (singleflight_new keys)) = length keys"
    by (simp add: singleflight_new_def)
  ultimately show ?thesis
    by (auto simp: sf_inv_def entries_inv_def open_inv_def wait_inv_def key_inv_def owner_at_def
        settler_def) (simp_all add: singleflight_new_def)
qed

lemma sf_reaches_inv: "sf_reaches (singleflight_new keys) vs s \<Longrightarrow> sf_inv vs s"
proof (induction rule: sf_reaches.induct)
  case sf_init
  then show ?case by (rule sf_new_inv)
next
  case (sf_next vs s ev s')
  then show ?case
    by (cases ev) (auto split: if_splits sum.splits intro: sf_run_inv sf_cancel_inv sf_init_ends_inv)
next
  case (sf_produce vs s i v s')
  then show ?case by (auto split: if_splits intro: sf_init_ends_inv)
qed

section \<open>Properties\<close>

text \<open>
  Property C2. Single flight. However the callers are scheduled, dropped or fail, at most one
  initialiser runs for a key at any time, and a value that a caller returns was produced by
  an initialiser of a caller with the same key.
\<close>

theorem singleflight_one_owner:
  assumes "sf_reaches (singleflight_new keys) vs s"
    and "i < length (callers s)" and "j < length (callers s)"
    and "c_key (callers s ! i) = c_key (callers s ! j)"
  shows "(c_pc (callers s ! i) = Own ch \<longrightarrow> c_pc (callers s ! j) = Own ch' \<longrightarrow> i = j)
    \<and> (c_pc (callers s ! i) = Returned (Some (Ok v)) \<longrightarrow> (c_key (callers s ! i), v) \<in> vs)"
proof -
  have inv: "sf_inv vs s" using assms(1) by (rule sf_reaches_inv)
  have "i = j" if "c_pc (callers s ! i) = Own ch" "c_pc (callers s ! j) = Own ch'"
  proof -
    let ?k = "c_key (callers s ! i)"
    have o: "owner_at s i ?k ch" "owner_at s j ?k ch'" using that assms by (auto simp: owner_at_def)
    then have "in_flight s ?k = Some ch" "in_flight s ?k = Some ch'"
      using inv unfolding sf_inv_def entries_inv_def by blast+
    then have "ch = ch'" by simp
    then have "settler s i ch" "settler s j ch" using o owner_settler by blast+
    then show ?thesis using inv unfolding sf_inv_def open_inv_def by blast
  qed
  moreover obtain ck where "key_inv vs ck s" using inv by (auto simp: sf_inv_def)
  ultimately show ?thesis using key_inv_pc [of vs ck s i] assms(2) by auto
qed

text \<open>
  The measure: the callers that have not returned, then how far each is from its next return.
\<close>

fun pc_weight :: "'v chan list \<Rightarrow> ('v, 'e) pc \<Rightarrow> nat" where
  "pc_weight cs Start = 2"
| "pc_weight cs (Own ch) = 1"
| "pc_weight cs (Wait ch) = (if cs ! ch = Closed then 3 else 1)"
| "pc_weight cs _ = 0"

fun pending :: "('v, 'e) pc \<Rightarrow> nat" where
  "pending (Returned r) = 0"
| "pending _ = 1"

definition total :: "(('v, 'e) pc \<Rightarrow> nat) \<Rightarrow> ('v, 'e) singleflight \<Rightarrow> nat" where
  "total f s = sum_list (map (\<lambda>c. f (c_pc c)) (callers s))"

definition sf_measure :: "(('v, 'e) singleflight \<times> ('v, 'e) singleflight) set" where
  "sf_measure = measures [total pending, \<lambda>s. total (pc_weight (chans s)) s]"

lemma sum_list_update_nat:
  "i < length xs \<Longrightarrow> sum_list (xs[i := x]) + xs ! i = sum_list xs + (x :: nat)"
  by (induction xs arbitrary: i) (auto split: nat.splits)

lemma total_set_pc:
  assumes "i < length (callers s)"
  shows "total f (set_pc s i p) + f (c_pc (callers s ! i)) = total f s + f p"
  using sum_list_update_nat [of i "map (\<lambda>c. f (c_pc c)) (callers s)" "f p"] assms
  by (simp add: total_def set_pc_def map_update)

lemma total_callers: "callers s = callers t \<Longrightarrow> total f s = total f t"
  by (simp add: total_def)

lemma total_cong:
  "(\<And>i. i < length (callers s) \<Longrightarrow> f (c_pc (callers s ! i)) = g (c_pc (callers s ! i)))
     \<Longrightarrow> total f s = total g s"
  unfolding total_def by (intro arg_cong [where f = sum_list] nth_equalityI) auto

lemma returns_decreases:
  assumes "i < length (callers s)" and "callers t = callers s"
    and "pending (c_pc (callers s ! i)) = 1"
  shows "(set_pc t i (Returned r), s) \<in> sf_measure"
  using total_set_pc [of i t pending "Returned r"] assms total_callers [of t s pending]
  by (simp add: sf_measure_def)

lemma moves_decreases:
  assumes "i < length (callers s)" and "callers t = callers s"
    and "pending (c_pc (callers s ! i)) = 1" and "pending p = 1"
    and "pc_weight (chans t) p < pc_weight (chans s) (c_pc (callers s ! i))"
    and "\<And>j. j < length (callers s) \<Longrightarrow>
      pc_weight (chans t) (c_pc (callers s ! j)) = pc_weight (chans s) (c_pc (callers s ! j))"
  shows "(set_pc t i p, s) \<in> sf_measure"
proof -
  have "total pending (set_pc t i p) = total pending s"
    using total_set_pc [of i t pending p] assms total_callers [of t s pending] by simp
  moreover have "total (pc_weight (chans t)) t = total (pc_weight (chans s)) s"
    using total_cong [of s "pc_weight (chans t)" "pc_weight (chans s)"] assms(2,6)
      total_callers [of t s "pc_weight (chans t)"] by simp
  ultimately show ?thesis
    using total_set_pc [of i t "pc_weight (chans t)" p] assms by (simp add: sf_measure_def)
qed

lemma choose_role_decreases:
  assumes inv: "sf_inv vs s" and i: "i < length (callers s)" and st: "c_pc (callers s ! i) = Start"
  shows "(choose_role s i, s) \<in> sf_measure"
proof (cases "in_flight s (c_key (callers s ! i))")
  case (Some ch)
  obtain j where j: "owner_at s j (c_key (callers s ! i)) ch"
    using inv Some by (auto simp: sf_inv_def entries_inv_def)
  have "chans s ! ch = Open"
    using inv owner_settler [OF j] unfolding sf_inv_def open_inv_def by blast
  then show ?thesis using Some st i by (auto simp: choose_role_def Let_def intro!: moves_decreases)
next
  case None
  have "ch < length (chans s)" if "j < length (callers s)" "c_pc (callers s ! j) = Wait ch" for j ch
    using inv that by (auto simp: sf_inv_def wait_inv_def)
  then have "pc_weight (chans s @ [Open]) (c_pc (callers s ! j)) = pc_weight (chans s) (c_pc (callers s ! j))"
    if "j < length (callers s)" for j
    using that by (cases "c_pc (callers s ! j)") (auto simp: nth_append)
  then show ?thesis using None st i by (auto simp: choose_role_def Let_def intro!: moves_decreases)
qed

lemma sf_step_decreases:
  assumes inv: "sf_inv vs s" and st: "sf_step s ev = Some s'"
  shows "(s', s) \<in> sf_measure"
proof (cases ev)
  case (Run i)
  then have i: "i < length (callers s)" and r: "sf_run s i = Some s'" using st by (auto split: if_splits)
  show ?thesis using r i
    by (cases "c_pc (callers s ! i)")
      (auto simp: sf_run_def choose_role_decreases [OF inv i] split: chan.splits
        intro!: returns_decreases moves_decreases)
next
  case (InitEnds i r)
  then have i: "i < length (callers s)" and r: "sf_init_ends s i r = Some s'"
    using st by (auto split: if_splits)
  show ?thesis using r i
    by (cases "c_pc (callers s ! i)")
      (auto simp: sf_init_ends_def Let_def split: sum.splits intro!: moves_decreases)
next
  case (Cancel i)
  then have i: "i < length (callers s)" and r: "sf_cancel s i = Some s'" using st by (auto split: if_splits)
  show ?thesis using r i
    by (cases "c_pc (callers s ! i)")
      (auto simp: sf_cancel_def intro!: returns_decreases moves_decreases)
qed

text \<open>
  Property C1. No lost wake-up and no livelock. Every step of a schedule decreases a
  well-founded measure, so every schedule of finitely many callers ends; and while a caller
  has not returned some step is possible without any cancellation. So every
  maximal schedule ends with every caller returned, also when initialisers fail or owners
  are dropped.
\<close>

theorem singleflight_all_return:
  assumes "sf_reaches (singleflight_new keys) vs s"
  shows "wf (sf_measure :: (('v, 'e) singleflight \<times> ('v, 'e) singleflight) set)
    \<and> (\<forall>ev s'. sf_step s ev = Some s' \<longrightarrow> (s' :: ('v, 'e) singleflight, s) \<in> sf_measure)
    \<and> ((\<forall>ev s'. sf_step s ev = Some s' \<longrightarrow> (\<exists>i. ev = Cancel i))
        \<longrightarrow> (\<forall>c \<in> set (callers s). \<exists>r. c_pc c = Returned r))"
proof -
  have inv: "sf_inv vs s" using assms(1) by (rule sf_reaches_inv)
  have "\<exists>r. c_pc (callers s ! i) = Returned r"
    if stuck: "\<forall>ev s'. sf_step s ev = Some s' \<longrightarrow> (\<exists>i. ev = Cancel i)" and i: "i < length (callers s)" for i
  proof -
    have run: "sf_run s j = None" if "j < length (callers s)" for j
      using stuck [rule_format, of "Run j"] that by (cases "sf_run s j") auto
    have noinit: "sf_init_ends s j r = None" if "j < length (callers s)" for j r
      using stuck [rule_format, of "InitEnds j r"] that by (cases "sf_init_ends s j r") auto
    have none: "settles (c_pc (callers s ! j)) = None" if "j < length (callers s)" for j
      using run [OF that] noinit [OF that]
      by (cases "c_pc (callers s ! j)") (auto simp: sf_run_def sf_init_ends_def Let_def)
    show ?thesis
    proof (cases "c_pc (callers s ! i)")
      case (Wait ch)
      then have "chans s ! ch = Open" using run [OF i] by (auto simp: sf_run_def split: chan.splits)
      moreover have "ch < length (chans s)" using inv Wait i by (auto simp: sf_inv_def wait_inv_def)
      ultimately obtain j where "settler s j ch" using inv unfolding sf_inv_def open_inv_def by blast
      then show ?thesis using none by (auto simp: settler_def)
    qed (use run [OF i] none [OF i] in \<open>auto simp: sf_run_def\<close>)
  qed
  moreover have "wf (sf_measure :: (('v, 'e) singleflight \<times> ('v, 'e) singleflight) set)"
    by (simp add: sf_measure_def)
  ultimately show ?thesis using sf_step_decreases [OF inv] by (auto simp: in_set_conv_nth)
qed

section \<open>A schedule\<close>

text \<open>
  Two callers of one key: the first owns and fails, the second, which waited, then owns and
  succeeds.
\<close>

fun sf_exec :: "('v, 'e) singleflight \<Rightarrow> ('v, 'e) sf_event list \<Rightarrow> ('v, 'e) singleflight option" where
  "sf_exec s [] = Some s"
| "sf_exec s (ev # evs) = Option.bind (sf_step s ev) (\<lambda>s'. sf_exec s' evs)"

definition ex_schedule :: "(nat, string) sf_event list" where
  "ex_schedule = [Run 0, Run 1, InitEnds 0 (Inl ''down''), Run 0, Run 1, Run 1, InitEnds 1 (Inr 5), Run 1]"

definition ex_done :: "(nat, string) singleflight" where
  "ex_done = \<lparr>in_flight = Map.empty, chans = [Closed, Sent 5],
     callers = [\<lparr>c_key = ''k'', c_pc = Returned (Some (Inl ''down''))\<rparr>,
                \<lparr>c_key = ''k'', c_pc = Returned (Some (Inr 5))\<rparr>]\<rparr>"

lemmas sf_eval = sf_run_def choose_role_def sf_init_ends_def sf_cancel_def set_pc_def remove_entry_def
  set_chan_def singleflight_new_def Let_def

lemma sf_exec_reaches:
  "\<lbrakk>sf_reaches s0 vs s; sf_exec s evs = Some s'; \<forall>i v. InitEnds i (Inr v) \<notin> set evs\<rbrakk>
     \<Longrightarrow> sf_reaches s0 vs s'"
proof (induction evs arbitrary: s)
  case Nil
  then show ?case by simp
next
  case (Cons ev evs)
  then obtain t where t: "sf_step s ev = Some t" "sf_exec t evs = Some s'"
    by (auto simp: bind_eq_Some_conv)
  have "sf_reaches s0 vs t"
    using Cons.prems(3) by (intro sf_next [OF Cons.prems(1) t(1)]) (metis list.set_intros(1))
  then show ?case using Cons.IH t(2) Cons.prems(3) by auto
qed

definition ex_middle :: "(nat, string) singleflight" where
  "ex_middle = \<lparr>in_flight = [''k'' \<mapsto> 1], chans = [Closed, Open],
     callers = [\<lparr>c_key = ''k'', c_pc = Returned (Some (Inl ''down''))\<rparr>,
                \<lparr>c_key = ''k'', c_pc = Own 1\<rparr>]\<rparr>"

lemma ex_reached: "sf_reaches (singleflight_new [''k'', ''k'']) {(''k'', 5)} ex_done"
proof -
  let ?s0 = "singleflight_new [''k'', ''k''] :: (nat, string) singleflight"
  have "sf_exec ?s0 (take 6 ex_schedule) = Some ex_middle"
    by (simp add: ex_schedule_def ex_middle_def sf_eval fun_eq_iff)
  then have m: "sf_reaches ?s0 {} ex_middle"
    by (rule sf_exec_reaches [OF sf_init]) (simp add: ex_schedule_def)
  obtain t where t: "sf_step ex_middle (InitEnds 1 (Inr 5)) = Some t" "sf_step t (Run 1) = Some ex_done"
    by (simp add: ex_middle_def ex_done_def sf_eval fun_eq_iff)
  have "sf_reaches ?s0 {(''k'', 5)} t"
    using sf_produce [OF m t(1)] by (simp add: ex_middle_def)
  then show ?thesis using t(2) by (rule sf_next) simp
qed

theorem singleflight_one_owner_witness: "(c_key (callers ex_done ! 1), 5) \<in> {(''k'', 5)}"
  using singleflight_one_owner [OF ex_reached, of 1 1 0 0 5] by (simp add: ex_done_def)

theorem singleflight_all_return_witness:
  "\<exists>r0 r1. map c_pc (callers ex_done) = [Returned r0, Returned r1]"
proof -
  have pc: "\<exists>r. c_pc (callers ex_done ! i) = Returned r" if "i < length (callers ex_done)" for i
    using that by (auto simp: ex_done_def less_Suc_eq)
  have "sf_step ex_done ev = None" for ev
    using pc by (cases ev) (fastforce simp: sf_run_def sf_init_ends_def sf_cancel_def)+
  then have "\<forall>c \<in> set (callers ex_done). \<exists>r. c_pc c = Returned r"
    using singleflight_all_return [OF ex_reached] by simp
  then show ?thesis by (simp add: ex_done_def)
qed

end
