(* ===== verification/Tool_Types.thy ===== *)
theory Tool_Types
  imports Json
begin

text \<open>
  The configuration of the agent tools (\<open>config/agent.rs\<close>) and the requests and responses of the tool
  executors (\<open>agent/tools/types.rs\<close>). A UUID is its 128-bit value.
\<close>

section \<open>Configuration\<close>

type_synonym uuid = nat

datatype catalog_source = CatalogStatic | CatalogRedis | CatalogHybrid
datatype response_mode = HttpStrict | AgentToolCompatible
datatype conflict_action = ConflictDisabled | ConflictWarn | ConflictStrict
datatype metadata_redaction = RedactionDisabled | RedactionBasic

datatype tool_target_kind = MockTool | HttpTool | McpHttpTool | McpStreamableHttpTool | McpSseTool | OpenApiTool

record rate_card =
  fixed_micros :: nat
  currency :: string

definition default_rate_card :: rate_card where
  "default_rate_card = \<lparr>fixed_micros = 0, currency = ''USD''\<rparr>"

record tool_allowlist =
  workspace_ids :: "uuid list"
  virtual_key_ids :: "uuid list"
  agent_ids :: "string list"

definition default_allowlist :: tool_allowlist where
  "default_allowlist = \<lparr>workspace_ids = [], virtual_key_ids = [], agent_ids = []\<rparr>"

record tool_target =
  tool_id :: string
  target_name :: string
  target_description :: string
  target_kind_of :: tool_target_kind
  target_url :: "string option"
  target_method :: string
  target_service_slug :: "string option"
  target_operation_id :: "string option"
  target_operation_slug :: "string option"
  risk_level :: string
  target_timeout_ms :: "nat option"
  input_schema :: json
  detect_business_errors :: bool
  validation :: "json option"
  request_contract :: "json option"
  target_rate_card :: rate_card
  allowlist :: tool_allowlist

definition default_target :: tool_target where
  "default_target =
     \<lparr>tool_id = [], target_name = [], target_description = [], target_kind_of = MockTool, target_url = None,
      target_method = ''POST'', target_service_slug = None, target_operation_id = None,
      target_operation_slug = None, risk_level = ''medium'', target_timeout_ms = None,
      input_schema = JObject [(''type'', JString ''object'')], detect_business_errors = False,
      validation = None, request_contract = None, target_rate_card = default_rate_card,
      allowlist = default_allowlist\<rparr>"

section \<open>Requests and responses\<close>

record tool_call_request =
  req_source :: "string option"
  req_agent_id :: "string option"
  req_agent_name :: "string option"
  req_run_id :: "string option"
  req_step_id :: "string option"
  req_parent_step_id :: "string option"
  req_tool_call_id :: "string option"
  req_tool_execution_id :: "string option"
  req_parallel_group_id :: "string option"
  req_tool_id :: string
  req_arguments :: json
  req_snapshot_revision :: "int option"
  req_schema_hash :: "string option"
  req_tool_version :: "int option"
  req_target_hash :: "string option"
  req_target_revision :: "int option"
  req_timeout_ms :: "nat option"
  idempotency_key :: "string option"

definition default_request :: tool_call_request where
  "default_request =
     \<lparr>req_source = None, req_agent_id = None, req_agent_name = None, req_run_id = None, req_step_id = None,
      req_parent_step_id = None, req_tool_call_id = None, req_tool_execution_id = None,
      req_parallel_group_id = None, req_tool_id = [], req_arguments = JObject [],
      req_snapshot_revision = None, req_schema_hash = None, req_tool_version = None,
      req_target_hash = None, req_target_revision = None, req_timeout_ms = None, idempotency_key = None\<rparr>"

datatype tool_status = Completed | Denied | Blocked | Failed | Timeout

record tool_error_envelope =
  envelope_code :: string
  envelope_message :: string
  envelope_retryable :: bool

record tool_billing =
  bill_reason :: string
  billable :: bool
  cost_micros :: nat
  bill_currency :: string
  dedupe_key :: string

record tool_metadata =
  execution_source :: string
  meta_target_kind :: string
  meta_target_id :: string
  meta_target_hash :: string
  meta_auth_revision :: string
  cache_hit :: bool
  reinitialized :: bool
  protocol_version :: "string option"
  meta_sse_used :: bool
  failure_class :: "string option"
  blocked_before_dispatch :: bool
  latency_ms :: "nat option"
  service_slug :: "string option"
  operation_id :: "string option"
  operation_slug :: "string option"
  http_method :: "string option"
  http_status :: "nat option"
  request_bytes :: "nat option"
  response_bytes :: "nat option"
  meta_target_revision :: "nat option"
  schema_hash :: "string option"
  rate_card_revision :: "nat option"
  billing_status :: "string option"
  billing_reason :: "string option"
  executed :: "bool option"
  failure_stage :: "string option"

definition default_metadata :: tool_metadata where
  "default_metadata =
     \<lparr>execution_source = [], meta_target_kind = [], meta_target_id = [], meta_target_hash = [],
      meta_auth_revision = [], cache_hit = False, reinitialized = False, protocol_version = None,
      meta_sse_used = False, failure_class = None, blocked_before_dispatch = False, latency_ms = None,
      service_slug = None, operation_id = None, operation_slug = None, http_method = None,
      http_status = None, request_bytes = None, response_bytes = None, meta_target_revision = None,
      schema_hash = None, rate_card_revision = None, billing_status = None, billing_reason = None,
      executed = None, failure_stage = None\<rparr>"

record tool_cost =
  amount_micros :: nat
  cost_currency :: string
  cost_source :: string

record tool_policy =
  allowed :: bool
  decision :: string
  policy_reason :: string

record tool_events =
  started_event_id :: "string option"
  completed_event_id :: "string option"

definition default_events :: tool_events where
  "default_events = \<lparr>started_event_id = None, completed_event_id = None\<rparr>"

record tool_call_response =
  status :: tool_status
  tool_call_id :: "string option"
  tool_execution_id :: string
  tool_output :: json
  resp_error :: "tool_error_envelope option"
  gateway_metadata :: "tool_metadata option"
  billing :: tool_billing
  cost :: tool_cost
  policy :: tool_policy
  events :: tool_events

datatype tool_execution_error = ToolTargetUnavailable | ToolExecutionFailed

text \<open>
  What every executor promises about money: a response is billable exactly when the call
  completed, the billed amount is the cost, and a call that did not complete costs nothing.
\<close>

definition fair_billing :: "tool_target \<Rightarrow> tool_call_response \<Rightarrow> bool" where
  "fair_billing target r \<longleftrightarrow>
     (billable (billing r) \<longleftrightarrow> status r = Completed)
     \<and> cost_micros (billing r) = amount_micros (cost r)
     \<and> amount_micros (cost r) = (if status r = Completed then fixed_micros (target_rate_card target) else 0)
     \<and> bill_currency (billing r) = currency (target_rate_card target)
     \<and> cost_currency (cost r) = currency (target_rate_card target)
     \<and> (resp_error r = None \<longleftrightarrow> status r = Completed)"

end
