(* ===== verification/Agent_Context.thy ===== *)
theory Agent_Context
  imports Mcp_Transport Tool_Types
begin

text \<open>
  Who an agent is: the authenticated identity of a request (\<open>types/extensions.rs\<close>), the context that a client
  reports about itself in headers (\<open>agent/context.rs\<close>, \<open>agent/headers.rs\<close>) and the name that the gateway
  resolves from both (\<open>agent/name.rs\<close>).
\<close>

section \<open>Identities\<close>

text \<open>The hyphenated lower-case form of a UUID.\<close>

definition lower_hex_digit :: "nat \<Rightarrow> char" where
  "lower_hex_digit n = (if n < 10 then char_of (48 + n) else char_of (87 + n))"

definition uuid_hex :: "uuid \<Rightarrow> nat \<Rightarrow> nat \<Rightarrow> string" where
  "uuid_hex u i j = map (\<lambda>k. lower_hex_digit (u div 16 ^ (31 - k) mod 16)) [i ..< j]"

definition uuid_string :: "uuid \<Rightarrow> string" where
  "uuid_string u = uuid_hex u 0 8 @ ''-'' @ uuid_hex u 8 12 @ ''-'' @ uuid_hex u 12 16 @ ''-'' @ uuid_hex u 16 20
     @ ''-'' @ uuid_hex u 20 32"

text \<open>The list of providers that a master key allows, which no modelled code reads, is left out.\<close>

record auth_context =
  api_key :: string
  user_id :: uuid
  org_id :: uuid
  workspace_type :: "string option"
  auth_virtual_key_id :: "uuid option"
  virtual_key_prefix :: string
  master_key_id :: "uuid option"
  master_key_base_url :: "string option"
  department_id :: uuid
  entity_type :: string
  entity_id :: uuid
  entity_name :: string
  registered_agent_name :: "string option"
  body_ttl_days :: nat
  is_custom_provider :: bool

text \<open>The identity that the virtual key itself proves.\<close>

definition auth_is_agent :: "auth_context \<Rightarrow> bool" where
  "auth_is_agent auth \<longleftrightarrow> eq_ignore_ascii_case (entity_type auth) ''agent'' \<and> entity_id auth \<noteq> 0"

section \<open>Enumerations\<close>

datatype step_kind =
    SkPlanning | SkReasoning | SkLlmCall | SkToolCall | SkToolResult | SkHandoff | SkApproval | SkCheckpoint
  | SkFinalAnswer | SkRetry | SkErrorRecovery | SkUnknown

datatype step_source = SsRuntime | SsGateway | SsRule | SsHeuristic | SsUnknown

datatype confidence = CfHigh | CfMedium | CfLow | CfUnknown

datatype event_phase = PhBefore | PhAfter | PhState | PhUnknown

datatype policy_stage = PsPreAction | PsPostAction | PsAuditOnly

datatype policy_mode = PmAudit | PmEnforce

datatype event_source_trust = EtSelfReported | EtAdapterDetected | EtGatewayObserved | EtGatewayExecuted | EtRegistered

datatype trust_level = TlSelfReported | TlAuthBound | TlRegistryVerified | TlSystemDerived

fun step_kind_str :: "step_kind \<Rightarrow> string" where
  "step_kind_str SkPlanning = ''planning''"
| "step_kind_str SkReasoning = ''reasoning''"
| "step_kind_str SkLlmCall = ''llm_call''"
| "step_kind_str SkToolCall = ''tool_call''"
| "step_kind_str SkToolResult = ''tool_result''"
| "step_kind_str SkHandoff = ''handoff''"
| "step_kind_str SkApproval = ''approval''"
| "step_kind_str SkCheckpoint = ''checkpoint''"
| "step_kind_str SkFinalAnswer = ''final_answer''"
| "step_kind_str SkRetry = ''retry''"
| "step_kind_str SkErrorRecovery = ''error_recovery''"
| "step_kind_str SkUnknown = ''unknown''"

text \<open>Every parser trims and lower-cases its input and has a default; \<open>alias_of\<close> is the match on the words.\<close>

definition alias_of :: "(string \<times> 'a) list \<Rightarrow> 'a \<Rightarrow> string \<Rightarrow> 'a" where
  "alias_of table d s = (case map_of table (to_ascii_lowercase (trim s)) of Some x \<Rightarrow> x | None \<Rightarrow> d)"

definition parse_step_kind :: "string \<Rightarrow> step_kind" where
  "parse_step_kind = alias_of
     [(''planning'', SkPlanning), (''reasoning'', SkReasoning), (''llm_call'', SkLlmCall), (''llm-call'', SkLlmCall),
      (''tool_call'', SkToolCall), (''tool-call'', SkToolCall), (''tool_result'', SkToolResult),
      (''tool-result'', SkToolResult), (''handoff'', SkHandoff), (''approval'', SkApproval),
      (''checkpoint'', SkCheckpoint), (''final_answer'', SkFinalAnswer), (''final-answer'', SkFinalAnswer),
      (''retry'', SkRetry), (''error_recovery'', SkErrorRecovery), (''error-recovery'', SkErrorRecovery)] SkUnknown"

fun step_source_str :: "step_source \<Rightarrow> string" where
  "step_source_str SsRuntime = ''runtime''"
| "step_source_str SsGateway = ''gateway''"
| "step_source_str SsRule = ''rule''"
| "step_source_str SsHeuristic = ''heuristic''"
| "step_source_str SsUnknown = ''unknown''"

definition parse_step_source :: "string \<Rightarrow> step_source" where
  "parse_step_source = alias_of
     [(''runtime'', SsRuntime), (''gateway'', SsGateway), (''rule'', SsRule), (''heuristic'', SsHeuristic)] SsUnknown"

fun confidence_str :: "confidence \<Rightarrow> string" where
  "confidence_str CfHigh = ''high''"
| "confidence_str CfMedium = ''medium''"
| "confidence_str CfLow = ''low''"
| "confidence_str CfUnknown = ''unknown''"

definition parse_confidence :: "string \<Rightarrow> confidence" where
  "parse_confidence = alias_of [(''high'', CfHigh), (''medium'', CfMedium), (''low'', CfLow)] CfUnknown"

fun event_phase_str :: "event_phase \<Rightarrow> string" where
  "event_phase_str PhBefore = ''before''"
| "event_phase_str PhAfter = ''after''"
| "event_phase_str PhState = ''state''"
| "event_phase_str PhUnknown = ''unknown''"

definition parse_event_phase :: "string \<Rightarrow> event_phase" where
  "parse_event_phase = alias_of [(''before'', PhBefore), (''after'', PhAfter), (''state'', PhState)] PhUnknown"

fun policy_stage_str :: "policy_stage \<Rightarrow> string" where
  "policy_stage_str PsPreAction = ''pre_action''"
| "policy_stage_str PsPostAction = ''post_action''"
| "policy_stage_str PsAuditOnly = ''audit_only''"

definition parse_policy_stage :: "string \<Rightarrow> policy_stage" where
  "parse_policy_stage = alias_of
     [(''pre_action'', PsPreAction), (''pre-action'', PsPreAction), (''post_action'', PsPostAction),
      (''post-action'', PsPostAction), (''audit_only'', PsAuditOnly), (''audit-only'', PsAuditOnly)] PsAuditOnly"

fun policy_mode_str :: "policy_mode \<Rightarrow> string" where
  "policy_mode_str PmAudit = ''audit''"
| "policy_mode_str PmEnforce = ''enforce''"

definition parse_policy_mode :: "string \<Rightarrow> policy_mode" where
  "parse_policy_mode = alias_of [(''enforce'', PmEnforce)] PmAudit"

fun source_trust_str :: "event_source_trust \<Rightarrow> string" where
  "source_trust_str EtSelfReported = ''self_reported''"
| "source_trust_str EtAdapterDetected = ''adapter_detected''"
| "source_trust_str EtGatewayObserved = ''gateway_observed''"
| "source_trust_str EtGatewayExecuted = ''gateway_executed''"
| "source_trust_str EtRegistered = ''registered''"

definition parse_source_trust :: "string \<Rightarrow> event_source_trust" where
  "parse_source_trust = alias_of
     [(''adapter_detected'', EtAdapterDetected), (''adapter-detected'', EtAdapterDetected),
      (''gateway_observed'', EtGatewayObserved), (''gateway-observed'', EtGatewayObserved),
      (''gateway_executed'', EtGatewayExecuted), (''gateway-executed'', EtGatewayExecuted),
      (''registered'', EtRegistered)] EtSelfReported"

fun trust_level_str :: "trust_level \<Rightarrow> string" where
  "trust_level_str TlSelfReported = ''self_reported''"
| "trust_level_str TlAuthBound = ''auth_bound''"
| "trust_level_str TlRegistryVerified = ''registry_verified''"
| "trust_level_str TlSystemDerived = ''system_derived''"

section \<open>The reported context\<close>

record agent_context =
  agent_id_external :: "string option"
  ctx_agent_name :: "string option"
  agent_uid :: "uuid option"
  ctx_run_id :: "string option"
  ctx_step_id :: "string option"
  ctx_parent_step_id :: "string option"
  ctx_tool_call_id :: "string option"
  handoff_id :: "string option"
  graph_node :: "string option"
  iteration :: "nat option"
  state_hash :: "string option"
  ctx_step_kind :: "step_kind option"
  ctx_step_source :: step_source
  ctx_step_confidence :: confidence
  ctx_trust_level :: trust_level
  ctx_partial :: bool

definition default_agent_context :: agent_context where
  "default_agent_context =
     \<lparr>agent_id_external = None, ctx_agent_name = None, agent_uid = None, ctx_run_id = None, ctx_step_id = None,
      ctx_parent_step_id = None, ctx_tool_call_id = None, handoff_id = None, graph_node = None, iteration = None,
      state_hash = None, ctx_step_kind = None, ctx_step_source = SsUnknown, ctx_step_confidence = CfUnknown,
      ctx_trust_level = TlSelfReported, ctx_partial = False\<rparr>"

definition context_is_empty :: "agent_context \<Rightarrow> bool" where
  "context_is_empty c \<longleftrightarrow> agent_id_external c = None \<and> ctx_agent_name c = None \<and> agent_uid c = None
     \<and> ctx_run_id c = None \<and> ctx_step_id c = None \<and> ctx_parent_step_id c = None \<and> ctx_tool_call_id c = None
     \<and> handoff_id c = None \<and> graph_node c = None \<and> iteration c = None \<and> state_hash c = None
     \<and> ctx_step_kind c = None \<and> ctx_step_source c = SsUnknown \<and> ctx_step_confidence c = CfUnknown
     \<and> ctx_trust_level c = TlSelfReported"

definition agent_identity_for_namespace :: "agent_context \<Rightarrow> uuid option \<Rightarrow> string" where
  "agent_identity_for_namespace c vk =
     (case agent_uid c of
        Some uid \<Rightarrow> uuid_string uid
      | None \<Rightarrow>
          (case agent_id_external c of
             Some external \<Rightarrow> external
           | None \<Rightarrow> (case vk of Some i \<Rightarrow> ''vk:'' @ uuid_string i | None \<Rightarrow> ''unknown'')))"

definition header_string :: "header_map \<Rightarrow> nat \<Rightarrow> string \<Rightarrow> string option" where
  "header_string headers max_value_bytes name =
     (case header_str headers name of
        None \<Rightarrow> None
      | Some v \<Rightarrow>
          if trim v = [] \<or> max_value_bytes < length (trim v) then None else Some (trim v))"

definition parse_agent_context_from_headers :: "header_map \<Rightarrow> nat \<Rightarrow> agent_context option" where
  "parse_agent_context_from_headers headers max_value_bytes =
     (let get_header = header_string headers max_value_bytes;
          c = default_agent_context
            \<lparr>agent_id_external := get_header ''alephant-agent-id'',
             ctx_agent_name := get_header ''alephant-agent-name'',
             ctx_run_id := get_header ''alephant-run-id'',
             ctx_step_id := get_header ''alephant-step-id'',
             ctx_parent_step_id := get_header ''alephant-parent-step-id'',
             ctx_tool_call_id := get_header ''alephant-tool-call-id'',
             handoff_id := get_header ''alephant-handoff-id'',
             graph_node := get_header ''alephant-graph-node'',
             iteration := Option.bind (get_header ''alephant-iteration'') (parse_bounded u32_bound),
             state_hash := get_header ''alephant-state-hash'',
             ctx_step_kind := map_option parse_step_kind (get_header ''alephant-step-kind''),
             ctx_step_source := (case get_header ''alephant-step-source'' of
                 Some s \<Rightarrow> parse_step_source s | None \<Rightarrow> SsUnknown)\<rparr> in
      if context_is_empty c then None
      else Some (c\<lparr>ctx_partial := agent_id_external c = None \<or> ctx_run_id c = None,
        ctx_step_confidence := CfHigh, ctx_trust_level := TlSelfReported\<rparr>))"

definition is_agent_header_name :: "string \<Rightarrow> bool" where
  "is_agent_header_name name =
     (let lower = to_ascii_lowercase name in
      starts_with ''alephant-agent-'' lower
      \<or> lower \<in> {''alephant-step-source'', ''alephant-step-attempt'', ''alephant-step-input-hash'',
           ''alephant-run-id'', ''alephant-step-id'', ''alephant-parent-step-id'', ''alephant-tool-call-id'',
           ''alephant-handoff-id'', ''alephant-graph-node'', ''alephant-iteration'', ''alephant-state-hash'',
           ''alephant-step-kind''})"

section \<open>The name of an agent\<close>

record name_conflict =
  cf_registered :: string
  cf_self_reported :: string
  cf_source :: string

record resolved_name =
  rn_name :: "string option"
  rn_source :: "string option"
  rn_trust_level :: "trust_level option"
  rn_conflict :: "name_conflict option"

definition nonempty_trimmed :: "string option \<Rightarrow> string option" where
  "nonempty_trimmed v = Option.bind v (\<lambda>s. if trim s = [] then None else Some (trim s))"

definition parse_agent_name_from_vk_label :: "string \<Rightarrow> string option" where
  "parse_agent_name_from_vk_label label =
     (case split_once (CHR '':'') label of
        None \<Rightarrow> None
      | Some (prefix, name) \<Rightarrow>
          if \<not> eq_ignore_ascii_case (trim prefix) ''agent'' then None
          else if trim name = [] then None else Some (trim name))"

definition resolve_agent_name :: "string option \<Rightarrow> string option \<Rightarrow> string option \<Rightarrow> resolved_name" where
  "resolve_agent_name registered event_name header_name =
     (let reported = (case nonempty_trimmed event_name of
             Some n \<Rightarrow> Some (n, ''self_reported_event'')
           | None \<Rightarrow> map_option (\<lambda>n. (n, ''self_reported_header'')) (nonempty_trimmed header_name)) in
      case nonempty_trimmed registered of
        Some r \<Rightarrow>
          \<lparr>rn_name = Some r, rn_source = Some ''virtual_key_label'', rn_trust_level = Some TlAuthBound,
           rn_conflict = Option.bind reported (\<lambda>(n, source).
             if n \<noteq> r then Some \<lparr>cf_registered = r, cf_self_reported = n, cf_source = source\<rparr> else None)\<rparr>
      | None \<Rightarrow>
          (case reported of
             Some (n, source) \<Rightarrow>
               \<lparr>rn_name = Some n, rn_source = Some source, rn_trust_level = Some TlSelfReported, rn_conflict = None\<rparr>
           | None \<Rightarrow> \<lparr>rn_name = None, rn_source = None, rn_trust_level = None, rn_conflict = None\<rparr>))"

section \<open>Lemmas\<close>

text \<open>The text of a UUID has 36 characters and determines its 128 bits.\<close>

lemma uuid_string_length: "length (uuid_string u) = 36"
  by (simp add: uuid_string_def uuid_hex_def)

lemma lower_hex_digit_inj: "\<lbrakk>a < 16; b < 16; lower_hex_digit a = lower_hex_digit b\<rbrakk> \<Longrightarrow> a = b"
  by (drule arg_cong [where f = "of_char :: char \<Rightarrow> nat"]) (auto simp: lower_hex_digit_def split: if_splits)

lemma nibbles_eq:
  "(\<And>k. k < n \<Longrightarrow> u div 16 ^ k mod 16 = v div 16 ^ k mod (16 :: nat)) \<Longrightarrow> u mod 16 ^ n = v mod 16 ^ n"
proof (induction n)
  case (Suc n)
  have "x mod 16 ^ Suc n = 16 ^ n * (x div 16 ^ n mod 16) + x mod 16 ^ n" for x :: nat
    using mod_mult2_eq [of x "16 ^ n" 16] by (simp add: mult.commute)
  then show ?case using Suc.IH Suc.prems by (metis less_Suc_eq)
qed simp

lemma uuid_string_inj:
  assumes "u < 2 ^ 128" "v < 2 ^ 128" "uuid_string u = uuid_string v"
  shows "u = v"
proof -
  have parts: "uuid_hex u 0 8 = uuid_hex v 0 8" "uuid_hex u 8 12 = uuid_hex v 8 12" "uuid_hex u 12 16 = uuid_hex v 12 16"
      "uuid_hex u 16 20 = uuid_hex v 16 20" "uuid_hex u 20 32 = uuid_hex v 20 32"
    using assms(3) by (auto simp: uuid_string_def append_eq_append_conv uuid_hex_def simp del: upt_rec_numeral)
  have nib: "u div 16 ^ (31 - k) mod 16 = v div 16 ^ (31 - k) mod 16" if "k < 32" for k
  proof -
    consider "k < 8" | "8 \<le> k" "k < 12" | "12 \<le> k" "k < 16" | "16 \<le> k" "k < 20" | "20 \<le> k" using that by linarith
    then have "\<exists>i j. i \<le> k \<and> k < j \<and> uuid_hex u i j = uuid_hex v i j"
      by cases (use that parts in blast)+
    then have "lower_hex_digit (u div 16 ^ (31 - k) mod 16) = lower_hex_digit (v div 16 ^ (31 - k) mod 16)"
      by (auto simp: uuid_hex_def)
    then show ?thesis by (rule lower_hex_digit_inj [rotated 2]) simp_all
  qed
  have "u div 16 ^ k mod 16 = v div 16 ^ k mod 16" if "k < 32" for k
    using nib [of "31 - k"] that by (simp add: diff_diff_cancel)
  then have "u mod 16 ^ 32 = v mod 16 ^ 32" by (rule nibbles_eq)
  moreover have "(16 :: nat) ^ 32 = 2 ^ 128" by simp
  ultimately show ?thesis using assms(1,2) by simp
qed

lemma resolved_auth_bound:
  "rn_trust_level (resolve_agent_name registered ev hn) = Some TlAuthBound \<longleftrightarrow> nonempty_trimmed registered \<noteq> None"
  by (auto simp: resolve_agent_name_def Let_def split: option.split)

lemma resolved_registered:
  "nonempty_trimmed registered = Some r \<Longrightarrow> rn_name (resolve_agent_name registered ev hn) = Some r"
  by (simp add: resolve_agent_name_def Let_def)

lemma resolved_never_verified:
  "rn_trust_level (resolve_agent_name registered ev hn) \<in> {None, Some TlSelfReported, Some TlAuthBound}"
  by (auto simp: resolve_agent_name_def Let_def split: option.split)

text \<open>A header value that is taken over is bounded, and a client cannot report trust.\<close>

lemma header_string_bound: "header_string headers n name = Some v \<Longrightarrow> v \<noteq> [] \<and> length v \<le> n"
  by (auto simp: header_string_def split: option.splits if_splits)

lemma header_context_untrusted:
  assumes "parse_agent_context_from_headers headers n = Some c"
  shows "ctx_trust_level c = TlSelfReported" "agent_uid c = None" "ctx_step_confidence c = CfHigh"
  using assms by (auto simp: parse_agent_context_from_headers_def Let_def default_agent_context_def split: if_splits)

lemma header_context_bounded:
  assumes "parse_agent_context_from_headers headers n = Some c" "agent_id_external c = Some v"
  shows "v \<noteq> [] \<and> length v \<le> n"
proof (rule header_string_bound)
  show "header_string headers n ''alephant-agent-id'' = Some v"
    using assms by (auto simp: parse_agent_context_from_headers_def Let_def default_agent_context_def split: if_splits)
qed

text \<open>Printing and parsing of the enumerations.\<close>

lemma alias_of_word:
  "\<lbrakk>s \<noteq> []; visible (hd s); visible (last s); to_ascii_lowercase s = s\<rbrakk>
   \<Longrightarrow> alias_of table d s = (case map_of table s of Some x \<Rightarrow> x | None \<Rightarrow> d)"
  by (simp add: alias_of_def trim_visible)

lemma word_simps:
  "visible c \<longleftrightarrow> byte c \<in> {33 .. 126}" "to_ascii_lowercase [] = []"
  "to_ascii_lowercase (c # s) = ascii_lower_char c # to_ascii_lowercase s"
  by (auto simp: visible_def to_ascii_lowercase_def)

lemmas words = alias_of_word word_simps ascii_lower_char_def is_ascii_uppercase_def byte_def

text \<open>
  The enumerations that agents and adapters write as text are read back as they are printed: step kinds,
  step sources, confidences, event phases, policy stages, policy modes and source trust levels. So an event that
  passes through the log keeps its meaning.
\<close>

lemma agent_enums_roundtrip:
  "parse_step_kind (step_kind_str k) = k \<and> parse_step_source (step_source_str src) = src
   \<and> parse_confidence (confidence_str cf) = cf \<and> parse_event_phase (event_phase_str ph) = ph
   \<and> parse_policy_stage (policy_stage_str ps) = ps \<and> parse_policy_mode (policy_mode_str pm) = pm
   \<and> parse_source_trust (source_trust_str tr) = tr"
proof (intro conjI)
  show "parse_step_kind (step_kind_str k) = k" by (cases k) (simp_all add: parse_step_kind_def words)
  show "parse_step_source (step_source_str src) = src" by (cases src) (simp_all add: parse_step_source_def words)
  show "parse_confidence (confidence_str cf) = cf" by (cases cf) (simp_all add: parse_confidence_def words)
  show "parse_event_phase (event_phase_str ph) = ph" by (cases ph) (simp_all add: parse_event_phase_def words)
  show "parse_policy_stage (policy_stage_str ps) = ps" by (cases ps) (simp_all add: parse_policy_stage_def words)
  show "parse_policy_mode (policy_mode_str pm) = pm" by (cases pm) (simp_all add: parse_policy_mode_def words)
  show "parse_source_trust (source_trust_str tr) = tr" by (cases tr) (simp_all add: parse_source_trust_def words)
qed

end
