(* ===== verification/Json_Update.thy ===== *)
theory Json_Update
  imports Json "HOL-Library.Multiset"
begin

text \<open>
  The law of \<open>Map::remove\<close> on the ordered objects of \<open>Json\<close>: the last entry fills the hole, so the entries that
  remain are those before, as a multiset.
\<close>

text \<open>Removing an entry moves another one, and changes nothing else.\<close>

lemma swap_remove_split:
  assumes "index_of k m = Some i"
  obtains a v b where "m = a @ (k, v) # b" "mset (swap_remove k m) = mset (a @ b)"
proof -
  have i: "i < length m" "fst (m ! i) = k" using index_of_Some [OF assms] by auto
  let ?xs = "m[i := last m]" and ?r = "take i m @ drop (Suc i) m"
  have ne: "?xs \<noteq> []" "m \<noteq> []" using i by auto
  have "last ?xs = last m"
    using ne i by (cases "i = length m - 1") (simp_all add: last_conv_nth)
  then have xs: "butlast ?xs @ [last m] = ?xs" using ne(1) by (metis append_butlast_last_id)
  have split: "take i m @ (k, snd (m ! i)) # drop (Suc i) m = m"
    using id_take_nth_drop [OF i(1)] i(2) by (metis prod.collapse)
  have "mset (butlast ?xs) + {#last m#} = mset ?xs" using arg_cong [OF xs, of mset] by simp
  also have "\<dots> = mset m - {#m ! i#} + {#last m#}" using i(1) by (simp add: mset_update)
  finally have "mset (butlast ?xs) = mset m - {#m ! i#}" by simp
  moreover have "m ! i = (k, snd (m ! i))" using i(2) by (metis prod.collapse)
  ultimately have "mset (butlast ?xs) = mset ?r" using arg_cong [OF split, of mset] by (metis add_mset_remove_trivial mset.simps(2) mset_append union_mset_add_mset_right)
  then have "mset (swap_remove k m) = mset ?r" using assms by (simp add: swap_remove_def)
  then show ?thesis by (rule that [OF split [symmetric]])
qed

lemma map_of_swap_remove:
  assumes "distinct (map fst m)"
  shows "map_of (swap_remove k m) x = (if x = k then None else map_of m x)" (is ?look)
    and "distinct (map fst (swap_remove k m))" (is ?dist)
proof -
  have "?look \<and> ?dist"
  proof (cases "index_of k m")
    case None
    then have "swap_remove k m = m" by (simp add: swap_remove_def)
    moreover have "map_of m k = None" using None by (simp add: index_of_None map_of_eq_None_iff)
    ultimately show ?thesis using assms by simp
  next
    case (Some i)
    obtain a v b where m: "m = a @ (k, v) # b" and same: "mset (swap_remove k m) = mset (a @ b)"
      using swap_remove_split [OF Some] .
    have d: "distinct (map fst (a @ b))" "k \<notin> fst ` set (a @ b)" using assms by (auto simp: m)
    have "mset (map fst (swap_remove k m)) = mset (map fst (a @ b))" using same by (metis mset_map)
    then have d': ?dist using d(1) mset_eq_imp_distinct_iff by blast
    have "set (swap_remove k m) = set (a @ b)" using same by (metis set_mset_mset)
    then have "map_of (swap_remove k m) = map_of (a @ b)"
      using d(1) d' by (simp only: map_of_inject_set)
    moreover have "map_of (a @ b) x = (if x = k then None else map_of m x)"
    proof (cases "x = k")
      case True
      then show ?thesis using d(2) by (simp add: map_of_eq_None_iff del: map_of_append)
    next
      case False
      then show ?thesis by (simp add: m map_add_def split: option.split)
    qed
    ultimately show ?thesis using d' by simp
  qed
  then show ?look ?dist by blast+
qed

end
