(* ===== verification/Agent_Policy.thy ===== *)
theory Agent_Policy
  imports Agent_Context Json_Update
begin

text \<open>
  The events of agents (\<open>agent/event.rs\<close>) and the policy gate for them (\<open>agent/policy.rs\<close>): the request to the
  policy service, the reading of its answer, and the record of the decision in the metadata of an event. The messages
  of the service are those of \<open>proto/evaluate.proto\<close>; the service itself is a parameter.
\<close>

section \<open>Events\<close>

datatype agent_event_source = EsAlephant | EsLangGraph | EsOpenAiAgents | EsN8n | EsCrewAi | EsMastra | EsUnknown

fun event_source_str :: "agent_event_source \<Rightarrow> string" where
  "event_source_str EsAlephant = ''alephant''"
| "event_source_str EsLangGraph = ''langgraph''"
| "event_source_str EsOpenAiAgents = ''openai_agents''"
| "event_source_str EsN8n = ''n8n''"
| "event_source_str EsCrewAi = ''crewai''"
| "event_source_str EsMastra = ''mastra''"
| "event_source_str EsUnknown = ''unknown''"

definition parse_event_source :: "string \<Rightarrow> agent_event_source" where
  "parse_event_source = alias_of
     [(''alephant'', EsAlephant), (''alephant_agent'', EsAlephant), (''alephant-agent'', EsAlephant),
      (''langgraph'', EsLangGraph), (''lang_graph'', EsLangGraph), (''lang-graph'', EsLangGraph),
      (''openai_agents'', EsOpenAiAgents), (''openai-agents'', EsOpenAiAgents), (''openaiagents'', EsOpenAiAgents),
      (''openai_agent_sdk'', EsOpenAiAgents), (''openai-agent-sdk'', EsOpenAiAgents), (''n8n'', EsN8n),
      (''crew_ai'', EsCrewAi), (''crew-ai'', EsCrewAi), (''crewai'', EsCrewAi), (''mastra'', EsMastra)] EsUnknown"

text \<open>Times are nanoseconds since the epoch.\<close>

record agent_event =
  ev_version :: string
  ev_event_id :: string
  ev_event_type :: string
  ev_event_source :: agent_event_source
  ev_event_phase :: event_phase
  ev_policy_stage :: policy_stage
  ev_policy_mode :: policy_mode
  ev_event_source_trust :: event_source_trust
  ev_sequence :: "nat option"
  ev_observed_at :: int
  ev_timestamp :: "int option"
  ev_name :: "string option"
  ev_alephant_agent_name :: "string option"
  ev_alephant_agent_name_source :: "string option"
  ev_alephant_agent_trust_level :: "string option"
  ev_workspace_id :: string
  ev_virtual_key_id :: "uuid option"
  ev_agent_id_external :: "string option"
  ev_agent_uid :: "uuid option"
  ev_run_id :: "string option"
  ev_step_id :: "string option"
  ev_parent_step_id :: "string option"
  ev_tool_call_id :: "string option"
  ev_handoff_id :: "string option"
  ev_graph_node :: "string option"
  ev_step_kind :: "step_kind option"
  ev_step_source :: step_source
  ev_step_confidence :: confidence
  ev_trust_level :: trust_level
  ev_context_conflict :: bool
  ev_step_id_conflict :: bool
  ev_attempt :: "nat option"
  ev_input_hash :: "string option"
  ev_metadata :: json
  ev_billing_mirror_trusted :: bool

section \<open>The messages of the policy service\<close>

datatype decision_kind =
  DkUnspecified | DkAllow | DkDeny | DkBlock | DkApprovalRequired | DkAuditWarning

text \<open>\<open>TryFrom<i32>\<close> of a generated enumeration.\<close>

fun decision_kind_of :: "int \<Rightarrow> decision_kind option" where
  "decision_kind_of n =
     (if n = 0 then Some DkUnspecified else if n = 1 then Some DkAllow else if n = 2 then Some DkDeny
      else if n = 3 then Some DkBlock else if n = 4 then Some DkApprovalRequired
      else if n = 5 then Some DkAuditWarning else None)"

datatype policy_phase = PpModelRequest | PpToolCall | PpRunUpdate

fun policy_phase_number :: "policy_phase \<Rightarrow> int" where
  "policy_phase_number PpModelRequest = 1"
| "policy_phase_number PpToolCall = 2"
| "policy_phase_number PpRunUpdate = 3"

fun policy_scope_name :: "int \<Rightarrow> string" where
  "policy_scope_name n =
     (if n = 1 then ''AGENT_POLICY_SCOPE_NONE'' else if n = 2 then ''AGENT_POLICY_SCOPE_WORKSPACE''
      else if n = 3 then ''AGENT_POLICY_SCOPE_DEPARTMENT'' else if n = 4 then ''AGENT_POLICY_SCOPE_AGENT''
      else ''AGENT_POLICY_SCOPE_UNSPECIFIED'')"

text \<open>The issue of an answer and its copy in a decision have the same fields.\<close>

record policy_issue =
  pi_field :: string
  pi_reason :: string
  pi_blocked_by :: string
  pi_reason_message :: string
  pi_actual :: string
  pi_expected :: "string list"
  pi_actual_value :: "64 word option"
  pi_expected_value :: "64 word option"
  pi_unit :: string
  pi_operator :: string

record policy_response =
  pr_allowed :: bool
  pr_reason :: string
  pr_blocked_by :: string
  pr_route_hint :: string
  pr_snapshot_revision :: int
  pr_reason_message :: string
  pr_policy_id :: string
  pr_policy_scope :: int
  pr_violations :: "policy_issue list"
  pr_warnings :: "policy_issue list"
  pr_decision :: int

record policy_runtime =
  rt_request_count :: "int option"
  rt_duration_sec :: "int option"
  rt_retry_count :: "int option"

record policy_request =
  pq_workspace_id :: string
  pq_request_id :: string
  pq_agent_id :: string
  pq_department_id :: string
  pq_run_id :: string
  pq_phase :: int
  pq_model :: string
  pq_provider :: string
  pq_tool_name :: string
  pq_estimated_cost_cents :: "int option"
  pq_runtime :: "policy_runtime option"
  pq_locale :: string
  pq_user_id :: string
  pq_virtual_key_id :: string
  pq_step_id :: string
  pq_metadata :: string
  pq_entity_type :: string
  pq_entity_id :: string
  pq_tool_execution_id :: string
  pq_tool_id :: string
  pq_tool_call_id :: string
  pq_snapshot_revision_text :: string
  pq_policy_revision_text :: string
  pq_schema_hash :: string
  pq_arguments_hash :: string
  pq_estimated_cost_micros :: int
  pq_currency :: string

section \<open>The request\<close>

fun as_i64 :: "json \<Rightarrow> int option" where
  "as_i64 (JNumber (PosInt n)) = (if n < 2 ^ 63 then Some (int n) else None)"
| "as_i64 (JNumber (NegInt i)) = Some i"
| "as_i64 _ = None"

definition metadata_string :: "json \<Rightarrow> string \<Rightarrow> string" where
  "metadata_string metadata key =
     (case Option.bind (get key metadata) as_str of Some s \<Rightarrow> s | None \<Rightarrow> [])"

definition metadata_i64 :: "json \<Rightarrow> string \<Rightarrow> int option" where
  "metadata_i64 metadata key = Option.bind (get key metadata) as_i64"

definition metadata_i32 :: "json \<Rightarrow> string \<Rightarrow> int option" where
  "metadata_i32 metadata key =
     Option.bind (metadata_i64 metadata key) (\<lambda>i. if - (2 ^ 31) \<le> i \<and> i < 2 ^ 31 then Some i else None)"

definition saturating_mul_i64 :: "int \<Rightarrow> int \<Rightarrow> int" where
  "saturating_mul_i64 a b = max (- (2 ^ 63)) (min (2 ^ 63 - 1) (a * b))"

definition runtime_context_from_metadata :: "json \<Rightarrow> policy_runtime option" where
  "runtime_context_from_metadata metadata =
     (let r = \<lparr>rt_request_count = metadata_i32 metadata ''request_count'',
               rt_duration_sec = metadata_i32 metadata ''duration_sec'',
               rt_retry_count = metadata_i32 metadata ''retry_count''\<rparr> in
      if rt_request_count r = None \<and> rt_duration_sec r = None \<and> rt_retry_count r = None then None else Some r)"

fun phase_for_step_kind :: "step_kind option \<Rightarrow> policy_phase" where
  "phase_for_step_kind (Some SkPlanning) = PpModelRequest"
| "phase_for_step_kind (Some SkReasoning) = PpModelRequest"
| "phase_for_step_kind (Some SkLlmCall) = PpModelRequest"
| "phase_for_step_kind (Some SkToolCall) = PpToolCall"
| "phase_for_step_kind _ = PpRunUpdate"

definition policy_agent_id :: "auth_context \<Rightarrow> agent_event \<Rightarrow> string" where
  "policy_agent_id auth event =
     (if auth_is_agent auth then uuid_string (entity_id auth)
      else case ev_agent_uid event of
        Some i \<Rightarrow> uuid_string i
      | None \<Rightarrow>
          (case auth_virtual_key_id auth of
             Some i \<Rightarrow> ''vk:'' @ uuid_string i
           | None \<Rightarrow> (case ev_agent_id_external event of Some x \<Rightarrow> x | None \<Rightarrow> [])))"

definition text_or_empty :: "string option \<Rightarrow> string" where
  "text_or_empty x = (case x of Some s \<Rightarrow> s | None \<Rightarrow> [])"

definition uuid_or_empty :: "uuid \<Rightarrow> string" where
  "uuid_or_empty u = (if u = 0 then [] else uuid_string u)"

definition estimated_micros_of :: "json \<Rightarrow> int" where
  "estimated_micros_of m =
     (case metadata_i64 m ''estimated_cost_micros'' of
        Some i \<Rightarrow> i
      | None \<Rightarrow>
          (case metadata_i64 m ''estimated_cost_cents'' of
             Some cents \<Rightarrow> saturating_mul_i64 cents 10000
           | None \<Rightarrow> 0))"

definition build_validate_agent_policy_request ::
    "json_printer \<Rightarrow> auth_context \<Rightarrow> agent_event \<Rightarrow> policy_request" where
  "build_validate_agent_policy_request to_vec auth event =
     (let m = ev_metadata event; tool_name = metadata_string m ''tool_name'' in
      \<lparr>pq_workspace_id = uuid_string (org_id auth),
       pq_request_id = ev_event_id event,
       pq_agent_id = policy_agent_id auth event,
       pq_department_id = uuid_or_empty (department_id auth),
       pq_run_id = text_or_empty (ev_run_id event),
       pq_phase = policy_phase_number (phase_for_step_kind (ev_step_kind event)),
       pq_model = metadata_string m ''model'',
       pq_provider = metadata_string m ''provider'',
       pq_tool_name = (if tool_name = [] then text_or_empty (ev_name event) else tool_name),
       pq_estimated_cost_cents = metadata_i64 m ''estimated_cost_cents'',
       pq_runtime = runtime_context_from_metadata m,
       pq_locale = [],
       pq_user_id = uuid_string (user_id auth),
       pq_virtual_key_id = (case auth_virtual_key_id auth of Some i \<Rightarrow> uuid_string i | None \<Rightarrow> []),
       pq_step_id = text_or_empty (ev_step_id event),
       pq_metadata = to_vec m,
       pq_entity_type = entity_type auth,
       pq_entity_id = uuid_or_empty (entity_id auth),
       pq_tool_execution_id = metadata_string m ''tool_execution_id'',
       pq_tool_id = metadata_string m ''tool_id'',
       pq_tool_call_id = (case ev_tool_call_id event of
           Some i \<Rightarrow> i | None \<Rightarrow> metadata_string m ''tool_call_id''),
       pq_snapshot_revision_text = metadata_string m ''snapshot_revision_text'',
       pq_policy_revision_text = metadata_string m ''policy_revision_text'',
       pq_schema_hash = metadata_string m ''schema_hash'',
       pq_arguments_hash = metadata_string m ''arguments_hash'',
       pq_estimated_cost_micros = estimated_micros_of m,
       pq_currency = metadata_string m ''currency''\<rparr>)"

section \<open>The decision\<close>

record policy_decision =
  pd_event_id :: string
  pd_event_type :: string
  pd_run_id :: "string option"
  pd_step_id :: "string option"
  pd_allowed :: bool
  pd_policy_decision :: string
  pd_policy_stage :: string
  pd_sink_status :: string
  pd_reason :: string
  pd_blocked_by :: string
  pd_route_hint :: string
  pd_snapshot_revision :: int
  pd_reason_message :: string
  pd_policy_id :: string
  pd_policy_scope :: string
  pd_violations :: "policy_issue list"
  pd_warnings :: "policy_issue list"

definition event_decision_from_policy_response :: "policy_response \<Rightarrow> bool \<times> string" where
  "event_decision_from_policy_response response =
     (case (case decision_kind_of (pr_decision response) of Some k \<Rightarrow> k | None \<Rightarrow> DkUnspecified) of
        DkAllow \<Rightarrow> (True, ''allowed'')
      | DkDeny \<Rightarrow> (False, ''denied'')
      | DkBlock \<Rightarrow> (False, ''blocked'')
      | DkApprovalRequired \<Rightarrow> (False, ''approval_required'')
      | DkAuditWarning \<Rightarrow> (True, ''audit_warning'')
      | DkUnspecified \<Rightarrow> if pr_allowed response then (True, ''allowed'') else (False, ''denied''))"

definition decision_from_policy_response :: "agent_event \<Rightarrow> policy_response \<Rightarrow> policy_decision" where
  "decision_from_policy_response event response =
     (let (ok, verdict) = event_decision_from_policy_response response in
      \<lparr>pd_event_id = ev_event_id event, pd_event_type = ev_event_type event, pd_run_id = ev_run_id event,
       pd_step_id = ev_step_id event, pd_allowed = ok, pd_policy_decision = verdict,
       pd_policy_stage = policy_stage_str (ev_policy_stage event), pd_sink_status = [],
       pd_reason = pr_reason response, pd_blocked_by = pr_blocked_by response,
       pd_route_hint = pr_route_hint response, pd_snapshot_revision = pr_snapshot_revision response,
       pd_reason_message = pr_reason_message response, pd_policy_id = pr_policy_id response,
       pd_policy_scope = policy_scope_name (pr_policy_scope response), pd_violations = pr_violations response,
       pd_warnings = pr_warnings response\<rparr>)"

definition local_decision :: "agent_event \<Rightarrow> string \<Rightarrow> string \<Rightarrow> policy_decision" where
  "local_decision event verdict reason =
     \<lparr>pd_event_id = ev_event_id event, pd_event_type = ev_event_type event, pd_run_id = ev_run_id event,
      pd_step_id = ev_step_id event, pd_allowed = True, pd_policy_decision = verdict,
      pd_policy_stage = policy_stage_str (ev_policy_stage event), pd_sink_status = [],
      pd_reason = reason, pd_blocked_by = [], pd_route_hint = [], pd_snapshot_revision = 0,
      pd_reason_message = [], pd_policy_id = [], pd_policy_scope = policy_scope_name 1, pd_violations = [],
      pd_warnings = []\<rparr>"

definition disabled_allowed_decision :: "agent_event \<Rightarrow> policy_decision" where
  "disabled_allowed_decision event = local_decision event ''allowed'' ''policy_disabled_allowed''"

definition skipped_audit_decision :: "agent_event \<Rightarrow> policy_decision" where
  "skipped_audit_decision event = local_decision event ''skipped'' ''policy_skipped_audit_event''"

text \<open>How the call of the service ends: an answer, a status, or the timeout. \<open>None\<close> is a gateway without client.\<close>

datatype policy_call = PolicyAnswered policy_response | PolicyStatus | PolicyElapsed

datatype agent_policy_error = PolicyUnavailable

definition validate_agent_policy ::
    "bool \<Rightarrow> (policy_request \<Rightarrow> policy_call) option \<Rightarrow> json_printer \<Rightarrow> auth_context \<Rightarrow> agent_event
       \<Rightarrow> agent_policy_error + policy_decision" where
  "validate_agent_policy policy_enabled client to_vec auth event =
     (if \<not> policy_enabled then Ok (disabled_allowed_decision event)
      else case client of
        None \<Rightarrow> Err PolicyUnavailable
      | Some call \<Rightarrow>
          (case call (build_validate_agent_policy_request to_vec auth event) of
             PolicyAnswered response \<Rightarrow> Ok (decision_from_policy_response event response)
           | PolicyStatus \<Rightarrow> Err PolicyUnavailable
           | PolicyElapsed \<Rightarrow> Err PolicyUnavailable))"

section \<open>The decision in the metadata\<close>

text \<open>
  The search for an unused key. It ends because an object has finitely many keys; the \<open>u32\<close> index of the code does
  not wrap, as that takes an object of more than four thousand million keys.
\<close>

definition original_key :: "string \<Rightarrow> nat \<Rightarrow> string" where
  "original_key base i = base @ ''_'' @ show_nat i"

lemma original_key_inj: "original_key base i = original_key base j \<longleftrightarrow> i = j"
  by (simp add: original_key_def show_nat_inj)

lemma finite_used_keys: "finite {j. (i :: nat) \<le> j \<and> original_key base j \<in> fst ` set m}"
  by (rule inj_on_finite [of "original_key base" _ "fst ` set m"]) (auto simp: original_key_inj inj_on_def)

function numbered_original_key :: "string \<Rightarrow> nat \<Rightarrow> json_object \<Rightarrow> string" where
  "numbered_original_key base i m =
     (if map_of m (original_key base i) = None then original_key base i else numbered_original_key base (Suc i) m)"
  by auto

termination
proof (relation "measure (\<lambda>(base, i, m). card {j. i \<le> j \<and> original_key base j \<in> fst ` set m})")
  fix base i and m :: json_object
  assume "map_of m (original_key base i) \<noteq> None"
  then have "original_key base i \<in> fst ` set m" by (metis map_of_eq_None_iff)
  then have "i \<in> {j. i \<le> j \<and> original_key base j \<in> fst ` set m}" by simp
  moreover have "i \<notin> {j. Suc i \<le> j \<and> original_key base j \<in> fst ` set m}"
    "{j. Suc i \<le> j \<and> original_key base j \<in> fst ` set m} \<subseteq> {j. i \<le> j \<and> original_key base j \<in> fst ` set m}"
    by auto
  ultimately have "{j. Suc i \<le> j \<and> original_key base j \<in> fst ` set m} \<subset> {j. i \<le> j \<and> original_key base j \<in> fst ` set m}"
    by blast
  then show "((base, Suc i, m), base, i, m) \<in> measure (\<lambda>(base, i, m). card {j. i \<le> j \<and> original_key base j \<in> fst ` set m})"
    by (simp add: psubset_card_mono finite_used_keys)
qed simp

declare numbered_original_key.simps [simp del]

definition available_policy_original_key :: "json_object \<Rightarrow> string" where
  "available_policy_original_key m =
     (if map_of m ''policy_original'' = None then ''policy_original''
      else if map_of m ''policy_client_original'' = None then ''policy_client_original''
      else numbered_original_key ''policy_client_original'' 1 m)"

definition json_int :: "int \<Rightarrow> json" where
  "json_int i = JNumber (if 0 \<le> i then PosInt (nat i) else NegInt i)"

definition policy_summary_value :: "policy_decision \<Rightarrow> json" where
  "policy_summary_value d =
     JObject [(''allowed'', JBool (pd_allowed d)), (''decision'', JString (pd_policy_decision d)),
       (''policyDecision'', JString (pd_policy_decision d)), (''reason'', JString (pd_reason d)),
       (''blocked_by'', JString (pd_blocked_by d)), (''route_hint'', JString (pd_route_hint d)),
       (''policy_id'', JString (pd_policy_id d)), (''policy_scope'', JString (pd_policy_scope d)),
       (''snapshot_revision'', json_int (pd_snapshot_revision d))]"

definition forced_object :: "json \<Rightarrow> json_object" where
  "forced_object metadata = (case metadata of JObject m \<Rightarrow> m | other \<Rightarrow> [(''value'', other)])"

definition attach_policy_decision_to_metadata :: "json \<Rightarrow> policy_decision \<Rightarrow> json" where
  "attach_policy_decision_to_metadata metadata d =
     (let m = forced_object metadata;
          m' = (case map_of m ''policy'' of
                  None \<Rightarrow> m
                | Some existing \<Rightarrow>
                    (let rest = swap_remove ''policy'' m in map_insert (available_policy_original_key rest) existing rest)) in
      JObject (map_insert ''policy'' (policy_summary_value d) m'))"

text \<open>\<open>chars().take(n)\<close> on UTF-8: up to the start of the character after the \<open>n\<close>-th.\<close>

fun take_chars :: "nat \<Rightarrow> string \<Rightarrow> string" where
  "take_chars n [] = []"
| "take_chars n (c # s) =
     (if utf8_cont c then c # take_chars n s
      else case n of 0 \<Rightarrow> [] | Suc k \<Rightarrow> c # take_chars k s)"

definition truncate_policy_field :: "string \<Rightarrow> string" where
  "truncate_policy_field s = take_chars 128 s"

definition compact_policy_decision_metadata :: "policy_decision \<Rightarrow> json" where
  "compact_policy_decision_metadata d =
     JObject [(''metadata_truncated'', JBool True),
       (''metadata_truncation_reason'', JString ''agent_policy_metadata_limit''),
       (''policy'',
          JObject [(''allowed'', JBool (pd_allowed d)), (''decision'', JString (pd_policy_decision d)),
            (''policyDecision'', JString (pd_policy_decision d)),
            (''reason'', JString (truncate_policy_field (pd_reason d))),
            (''blocked_by'', JString (truncate_policy_field (pd_blocked_by d))),
            (''policy_id'', JString (truncate_policy_field (pd_policy_id d))),
            (''policy_scope'', JString (pd_policy_scope d)),
            (''snapshot_revision'', json_int (pd_snapshot_revision d))])]"

section \<open>Lemmas\<close>

text \<open>The gate is closed unless the policy is off or the service answers that the event is allowed.\<close>

definition policy_allows :: "bool \<Rightarrow> (policy_request \<Rightarrow> policy_call) option \<Rightarrow> policy_request \<Rightarrow> bool" where
  "policy_allows policy_enabled client request \<longleftrightarrow>
     \<not> policy_enabled
     \<or> (\<exists>call response. client = Some call \<and> call request = PolicyAnswered response
          \<and> (pr_decision response \<in> {1, 5} \<or> pr_decision response \<notin> {1, 2, 3, 4, 5} \<and> pr_allowed response))"

lemma event_decision_allowed:
  "fst (event_decision_from_policy_response r) \<longleftrightarrow>
     pr_decision r \<in> {1, 5} \<or> pr_decision r \<notin> {1, 2, 3, 4, 5} \<and> pr_allowed r"
  by (simp add: event_decision_from_policy_response_def)

lemma validate_allows:
  "(\<exists>d. validate_agent_policy on client to_vec auth event = Ok d \<and> pd_allowed d)
     \<longleftrightarrow> policy_allows on client (build_validate_agent_policy_request to_vec auth event)"
proof (cases on)
  case False
  then show ?thesis
    by (simp add: validate_agent_policy_def policy_allows_def disabled_allowed_decision_def local_decision_def)
next
  case True
  have dec: "pd_allowed (decision_from_policy_response event r) = fst (event_decision_from_policy_response r)" for r
    by (simp add: decision_from_policy_response_def split_beta)
  show ?thesis
  proof (cases client)
    case None
    then show ?thesis using True by (simp add: validate_agent_policy_def policy_allows_def)
  next
    case (Some call)
    then show ?thesis
      using True by (cases "call (build_validate_agent_policy_request to_vec auth event)")
        (auto simp: validate_agent_policy_def policy_allows_def dec event_decision_allowed)
  qed
qed

text \<open>The key that the search finds is unused.\<close>

lemma numbered_original_key_fresh: "map_of m (numbered_original_key base i m) = None"
  by (induction base i m rule: numbered_original_key.induct) (subst numbered_original_key.simps, simp)

lemma numbered_original_key_prefix: "\<exists>n. numbered_original_key base i m = original_key base n"
  by (induction base i m rule: numbered_original_key.induct) (subst numbered_original_key.simps, auto)

lemma available_key_found:
  "map_of m (available_policy_original_key m) = None" "available_policy_original_key m \<noteq> ''policy''"
  using numbered_original_key_fresh numbered_original_key_prefix [of "''policy_client_original''" 1 m]
  by (auto simp: available_policy_original_key_def original_key_def)

text \<open>
  The decision is recorded whatever the metadata is, under its own key; every entry of the client is kept, its own
  entry \<open>policy\<close> under a key that was unused.
\<close>

lemma attach_policy_decision:
  assumes "json_wf metadata"
  obtains m where "attach_policy_decision_to_metadata metadata d = JObject m"
    "map_of m ''policy'' = Some (policy_summary_value d)"
    "\<And>k v. map_of (forced_object metadata) k = Some v \<Longrightarrow> k \<noteq> ''policy'' \<Longrightarrow> map_of m k = Some v"
    "\<And>v. map_of (forced_object metadata) ''policy'' = Some v \<Longrightarrow>
       \<exists>k. k \<noteq> ''policy'' \<and> map_of (forced_object metadata) k = None \<and> map_of m k = Some v"
proof -
  let ?m = "forced_object metadata" and ?p = "policy_summary_value d"
  have dist: "distinct (map fst ?m)" using assms(1) by (cases metadata) (auto simp: forced_object_def)
  show ?thesis
  proof (cases "map_of ?m ''policy''")
    case None
    show ?thesis
      by (rule that [of "map_insert ''policy'' ?p ?m"])
        (simp_all add: attach_policy_decision_to_metadata_def Let_def None)
  next
    case (Some existing)
    let ?r = "swap_remove ''policy'' ?m"
    note look = map_of_swap_remove(1) [OF dist, of "''policy''"] and key = available_key_found [of ?r]
    show ?thesis
      by (rule that [of "map_insert ''policy'' ?p (map_insert (available_policy_original_key ?r) existing ?r)"])
        (use key in \<open>auto simp: attach_policy_decision_to_metadata_def Let_def Some look\<close>)
  qed
qed

end
