(* ===== verification/Mcp_Session.thy ===== *)
theory Mcp_Session
  imports Mcp_Transport
begin

text \<open>
  The sessions of the MCP streamable HTTP client
  (\<open>agent/tools/mcp_streamable_http/session.rs\<close> and \<open>ToolExecutionContext\<close> of
  \<open>agent/tools/executor.rs\<close>): their keys, the check before a cached session is used, and the
  Redis lock around their initialisation. The single flight within a process is in
  \<open>Singleflight\<close>.
\<close>

section \<open>Context and sessions\<close>

text \<open>\<open>has_redis\<close> says whether \<open>ctx.redis\<close> is \<open>Some\<close>.\<close>

record tool_ctx =
  workspace_id :: string
  virtual_key_id :: "string option"
  agent_id :: string
  caller_principal_id :: string
  target_id :: string
  target_revision :: nat
  target_hash :: string
  auth_revision :: string
  has_redis :: bool
  mcp_session_cache_ttl_secs :: nat
  mcp_session_lock_ttl_secs :: nat
  mcp_session_max_concurrent_per_session :: nat
  mcp_sse_max_event_bytes :: nat
  mcp_sse_max_line_bytes :: nat
  mcp_sse_max_events :: nat
  mcp_sse_max_batch_items :: nat
  mcp_sse_idle_timeout_ms :: nat

text \<open>Times are nanoseconds since the epoch.\<close>

record mcp_session =
  session_id :: string
  negotiated_protocol_version :: string
  s_target_hash :: string
  s_auth_revision :: string
  server_info :: json
  capabilities :: json
  created_at :: int
  last_used_at :: int
  expires_at :: int

definition CLIENT_PROTOCOL_FAMILY :: string where
  "CLIENT_PROTOCOL_FAMILY = ''mcp-2025-06-18-compatible''"

definition SESSION_LOCK_TIMEOUT_BUFFER_SECS :: nat where
  "SESSION_LOCK_TIMEOUT_BUFFER_SECS = 1"

definition session_key :: "tool_ctx \<Rightarrow> string" where
  "session_key ctx =
     ''agent:mcp:streamable-http:session:workspace:'' @ workspace_id ctx
     @ '':vk:'' @ (case virtual_key_id ctx of Some vk \<Rightarrow> vk | None \<Rightarrow> ''no-vk'')
     @ '':agent:'' @ agent_id ctx @ '':caller:'' @ caller_principal_id ctx
     @ '':target:'' @ target_id ctx @ '':target-rev:'' @ show_nat (target_revision ctx)
     @ '':target-hash:'' @ target_hash ctx @ '':auth-rev:'' @ auth_revision ctx
     @ '':protocol:'' @ CLIENT_PROTOCOL_FAMILY"

definition session_lock_key :: "tool_ctx \<Rightarrow> string" where
  "session_lock_key ctx = ''agent:mcp:streamable-http:session-lock:'' @ session_key ctx"

definition validate_session_id :: "string \<Rightarrow> string + unit" where
  "validate_session_id sid =
     (if sid = [] then Err ''session id must not be empty''
      else if 256 < length sid then Err ''session id must be at most 256 bytes''
      else if \<not> list_all (\<lambda>c. 0x21 \<le> byte c \<and> byte c \<le> 0x7e) sid
      then Err ''session id must contain only visible ASCII bytes''
      else Ok ())"

definition should_evict_session :: "tool_ctx \<Rightarrow> int \<Rightarrow> mcp_session \<Rightarrow> bool" where
  "should_evict_session ctx now s \<longleftrightarrow>
     s_target_hash s \<noteq> target_hash ctx \<or> s_auth_revision s \<noteq> auth_revision ctx
     \<or> expires_at s \<le> now \<or> \<not> is_ok (validate_session_id (session_id s))
     \<or> \<not> is_ok (validate_supported_protocol_version (negotiated_protocol_version s))"

definition session_lock_ttl_secs_for_timeout :: "tool_ctx \<Rightarrow> nat \<Rightarrow> nat" where
  "session_lock_ttl_secs_for_timeout ctx timeout_ms =
     (let timeout_secs = saturating_add (timeout_ms div 1000) (if timeout_ms mod 1000 \<noteq> 0 then 1 else 0)
      in max (mcp_session_lock_ttl_secs ctx)
           (saturating_add timeout_secs SESSION_LOCK_TIMEOUT_BUFFER_SECS))"

section \<open>The Redis lock\<close>

text \<open>
  A key holds a value and the time, in milliseconds of the Redis clock, at which it
  expires. \<open>SET key value NX EX ttl\<close> and the script \<open>DEL_IF_VALUE_SCRIPT\<close>.
\<close>

type_synonym lock_store = "string \<rightharpoonup> string \<times> nat"

definition lock_at :: "nat \<Rightarrow> lock_store \<Rightarrow> string \<Rightarrow> string option" where
  "lock_at now db key = (case db key of
     Some (v, e) \<Rightarrow> if e < now then None else Some v | None \<Rightarrow> None)"

definition set_nx_ex :: "lock_store \<Rightarrow> nat \<Rightarrow> string \<Rightarrow> string \<Rightarrow> nat \<Rightarrow> lock_store \<times> bool" where
  "set_nx_ex db now key v ttl_secs =
     (if lock_at now db key = None then (db(key \<mapsto> (v, now + ttl_secs * 1000)), True) else (db, False))"

definition del_if_value :: "lock_store \<Rightarrow> nat \<Rightarrow> string \<Rightarrow> string \<Rightarrow> lock_store \<times> bool" where
  "del_if_value db now key v =
     (if lock_at now db key = Some v then (db(key := None), True) else (db, False))"

record lock_token =
  tok_key :: string
  tok_value :: string

text \<open>\<open>uuid\<close> is the fresh value that the caller makes up.\<close>

definition try_acquire_session_lock_with_ttl ::
    "tool_ctx \<Rightarrow> nat \<Rightarrow> string \<Rightarrow> lock_store \<Rightarrow> nat \<Rightarrow> lock_store \<times> lock_token option" where
  "try_acquire_session_lock_with_ttl ctx ttl_secs uuid db now =
     (if \<not> has_redis ctx
      then (db, Some \<lparr>tok_key = session_lock_key ctx, tok_value = ''local-no-redis''\<rparr>)
      else case set_nx_ex db now (session_lock_key ctx) uuid (max ttl_secs 1) of
        (db', acquired) \<Rightarrow>
          (db', if acquired then Some \<lparr>tok_key = session_lock_key ctx, tok_value = uuid\<rparr> else None))"

definition try_acquire_session_lock ::
    "tool_ctx \<Rightarrow> string \<Rightarrow> lock_store \<Rightarrow> nat \<Rightarrow> lock_store \<times> lock_token option" where
  "try_acquire_session_lock ctx = try_acquire_session_lock_with_ttl ctx (mcp_session_lock_ttl_secs ctx)"

definition release_session_lock ::
    "tool_ctx \<Rightarrow> lock_token \<Rightarrow> lock_store \<Rightarrow> nat \<Rightarrow> lock_store \<times> bool" where
  "release_session_lock ctx token db now =
     (if \<not> has_redis ctx then (db, True) else del_if_value db now (tok_key token) (tok_value token))"

text \<open>
  What the gateways do to the store, in the order of the Redis clock.
\<close>

datatype lock_op =
    LockAcquire tool_ctx nat string nat
  | LockRelease tool_ctx lock_token nat

fun lock_time :: "lock_op \<Rightarrow> nat" where
  "lock_time (LockAcquire ctx ttl uuid now) = now"
| "lock_time (LockRelease ctx tok now) = now"

fun lock_step :: "lock_store \<Rightarrow> lock_op \<Rightarrow> lock_store" where
  "lock_step db (LockAcquire ctx ttl uuid now) =
     fst (try_acquire_session_lock_with_ttl ctx ttl uuid db now)"
| "lock_step db (LockRelease ctx tok now) = fst (release_session_lock ctx tok db now)"

fun releases :: "string \<Rightarrow> string \<Rightarrow> lock_op \<Rightarrow> bool" where
  "releases key v (LockAcquire ctx ttl uuid now) = False"
| "releases key v (LockRelease ctx tok now) = (has_redis ctx \<and> tok_key tok = key \<and> tok_value tok = v)"

section \<open>Lemmas\<close>

lemma lock_step_keeps:
  assumes "db key = Some (v, e)" and "lock_time op < e" and "\<not> releases key v op"
  shows "lock_step db op key = Some (v, e)"
proof (cases op)
  case (LockAcquire ctx ttl uuid now)
  then show ?thesis using assms
    by (auto simp: try_acquire_session_lock_with_ttl_def set_nx_ex_def lock_at_def split: if_splits)
next
  case (LockRelease ctx tok now)
  then show ?thesis using assms
    by (auto simp: release_session_lock_def del_if_value_def lock_at_def)
qed

lemma lock_run_keeps:
  "\<lbrakk>db key = Some (v, e); \<forall>op \<in> set ops. lock_time op < e \<and> \<not> releases key v op\<rbrakk>
     \<Longrightarrow> foldl lock_step db ops key = Some (v, e)"
  by (induction ops arbitrary: db) (auto simp: lock_step_keeps)

lemma lock_ttl_covers:
  assumes "timeout_ms + 2000 < u64_bound"
  shows "timeout_ms + 1000 \<le> session_lock_ttl_secs_for_timeout ctx timeout_ms * 1000"
proof -
  define c where "c = timeout_ms div 1000 + (if timeout_ms mod 1000 \<noteq> 0 then 1 else 0)"
  have c: "timeout_ms \<le> c * 1000"
    using div_mult_mod_eq [of timeout_ms 1000] by (auto simp: c_def)
  have "c + 1 < u64_bound" using assms by (auto simp: c_def)
  then have "session_lock_ttl_secs_for_timeout ctx timeout_ms = max (mcp_session_lock_ttl_secs ctx) (c + 1)"
    by (simp add: session_lock_ttl_secs_for_timeout_def saturating_add_def Let_def c_def
        SESSION_LOCK_TIMEOUT_BUFFER_SECS_def)
  moreover have "(c + 1) * 1000 \<le> max (mcp_session_lock_ttl_secs ctx) (c + 1) * 1000"
    by (rule mult_le_mono1) simp
  ultimately show ?thesis using c by simp
qed

text \<open>
  Property C31. The lock protects a whole lifecycle. A lifecycle that takes the lock at \<open>t0\<close>, with the
  TTL that the code computes from its own timeout, holds it until \<open>t0\<close> plus the timeout:
  whatever the other gateways do in between, as long as they release with their own tokens only,
  no acquire of that key succeeds, even one second after the deadline.
\<close>

theorem session_lock_covers_lifecycle:
  assumes "has_redis ctx" and "timeout_ms + 2000 < u64_bound"
    and "try_acquire_session_lock_with_ttl ctx (session_lock_ttl_secs_for_timeout ctx timeout_ms) uuid db t0
      = (db1, Some token)"
    and "\<forall>op \<in> set ops. t0 \<le> lock_time op \<and> lock_time op < t0 + timeout_ms + 1000
      \<and> \<not> releases (session_lock_key ctx) uuid op"
    and "session_lock_key other = session_lock_key ctx" and "has_redis other"
    and "t < t0 + timeout_ms + 1000"
  shows "snd (try_acquire_session_lock_with_ttl other ttl uuid' (foldl lock_step db1 ops) t) = None"
proof -
  let ?ttl = "session_lock_ttl_secs_for_timeout ctx timeout_ms"
  have e: "t0 + timeout_ms + 1000 \<le> t0 + max ?ttl 1 * 1000"
    using lock_ttl_covers [OF assms(2), of ctx] by (simp add: max_def)
  have "db1 (session_lock_key ctx) = Some (uuid, t0 + max ?ttl 1 * 1000)"
    using assms(1,3) by (auto simp: try_acquire_session_lock_with_ttl_def set_nx_ex_def split: if_splits)
  then have "foldl lock_step db1 ops (session_lock_key ctx) = Some (uuid, t0 + max ?ttl 1 * 1000)"
    using assms(4) e by (intro lock_run_keeps) fastforce+
  then show ?thesis
    using assms(5-7) e
    by (simp add: try_acquire_session_lock_with_ttl_def set_nx_ex_def lock_at_def)
qed

definition ex_ctx :: tool_ctx where
  "ex_ctx = \<lparr>workspace_id = ''w'', virtual_key_id = None, agent_id = ''a'', caller_principal_id = ''c'',
     target_id = ''t'', target_revision = 0, target_hash = ''h'', auth_revision = ''0/static'',
     has_redis = True, mcp_session_cache_ttl_secs = 300, mcp_session_lock_ttl_secs = 1,
     mcp_session_max_concurrent_per_session = 1, mcp_sse_max_event_bytes = 100,
     mcp_sse_max_line_bytes = 100, mcp_sse_max_events = 5, mcp_sse_max_batch_items = 5,
     mcp_sse_idle_timeout_ms = 50\<rparr>"

theorem session_lock_covers_lifecycle_witness:
  "snd (try_acquire_session_lock_with_ttl ex_ctx 9 ''u3''
      (foldl lock_step (fst (try_acquire_session_lock_with_ttl ex_ctx
            (session_lock_ttl_secs_for_timeout ex_ctx 2500) ''u1'' Map.empty 0))
        [LockAcquire ex_ctx 9 ''u2'' 10,
         LockRelease ex_ctx \<lparr>tok_key = session_lock_key ex_ctx, tok_value = ''u2''\<rparr> 20]) 3400) = None"
proof -
  let ?ttl = "session_lock_ttl_secs_for_timeout ex_ctx 2500"
  let ?tok = "\<lparr>tok_key = session_lock_key ex_ctx, tok_value = ''u1''\<rparr>"
  have r: "has_redis ex_ctx" by (simp add: ex_ctx_def)
  have "\<exists>db1. try_acquire_session_lock_with_ttl ex_ctx ?ttl ''u1'' Map.empty 0 = (db1, Some ?tok)"
    by (simp add: try_acquire_session_lock_with_ttl_def r set_nx_ex_def lock_at_def)
  then obtain db1 where db1: "try_acquire_session_lock_with_ttl ex_ctx ?ttl ''u1'' Map.empty 0
      = (db1, Some ?tok)" ..
  show ?thesis
    unfolding db1 fst_conv
    by (rule session_lock_covers_lifecycle [OF r _ db1 _ refl r]) (simp_all add: u64_bound_def)
qed

end
