(* ===== verification/Egress.thy ===== *)
theory Egress
  imports Mcp_Transport "HOL-Library.Word"
begin

text \<open>
  Where a tool call may connect to: \<open>agent/tools/egress_policy.rs\<close>, the message endpoint of the
  MCP event-stream transport (\<open>agent/tools/mcp_sse/endpoint.rs\<close>) and the egress check of the OpenAPI
  executor (\<open>agent/tools/openapi/egress.rs\<close>).

  The \<open>url\<close> crate is a parameter: \<open>url_parse\<close> and \<open>url_join\<close> give the parts that the code reads of
  a URL.
\<close>

unbundle bit_operations_syntax

section \<open>Addresses and URLs\<close>

datatype url_host = Domain string | Ipv4 "32 word" | Ipv6 "128 word"

record url =
  scheme :: string
  username :: string
  password :: "string option"
  host :: "url_host option"
  host_str :: "string option"
  port_or_known_default :: "nat option"
  fragment :: "string option"
  as_text :: string

type_synonym url_parser = "string \<Rightarrow> url option"

text \<open>\<open>Ipv4Addr::octets\<close>, \<open>Ipv6Addr::segments()[0]\<close> and \<open>to_ipv4_mapped\<close>.\<close>

definition octet :: "nat \<Rightarrow> 32 word \<Rightarrow> nat" where
  "octet i a = unat (drop_bit (8 * (3 - i)) a) mod 256"

definition segment0 :: "128 word \<Rightarrow> 128 word" where
  "segment0 a = drop_bit 112 a"

definition ipv6_mapped_ipv4 :: "128 word \<Rightarrow> 32 word option" where
  "ipv6_mapped_ipv4 a = (if drop_bit 32 a = 0xffff then Some (ucast a) else None)"

definition ipv4_new :: "nat \<Rightarrow> nat \<Rightarrow> nat \<Rightarrow> nat \<Rightarrow> 32 word" where
  "ipv4_new a b c d = word_of_nat (((a * 256 + b) * 256 + c) * 256 + d)"

definition ipv4_is_loopback :: "32 word \<Rightarrow> bool" where
  "ipv4_is_loopback a \<longleftrightarrow> octet 0 a = 127"

definition ipv6_is_loopback :: "128 word \<Rightarrow> bool" where
  "ipv6_is_loopback a \<longleftrightarrow> a = 1"

section \<open>The egress policy\<close>

record egress_policy =
  https_only :: bool
  block_loopback :: bool
  block_link_local :: bool
  block_metadata_ip :: bool
  block_private_network :: bool
  allow_environment_proxy :: bool

definition default_egress_policy :: egress_policy where
  "default_egress_policy =
     \<lparr>https_only = True, block_loopback = True, block_link_local = True, block_metadata_ip = True,
      block_private_network = True, allow_environment_proxy = False\<rparr>"

datatype egress_error =
    HttpsRequired
  | LoopbackBlocked
  | MetadataBlocked
  | LinkLocalBlocked
  | PrivateNetworkBlocked
  | UnsupportedUrl

definition is_metadata_ipv4 :: "32 word \<Rightarrow> bool" where
  "is_metadata_ipv4 a \<longleftrightarrow> a = ipv4_new 169 254 169 254"

definition is_link_local_ipv4 :: "32 word \<Rightarrow> bool" where
  "is_link_local_ipv4 a \<longleftrightarrow> octet 0 a = 169 \<and> octet 1 a = 254"

definition is_private_ipv4 :: "32 word \<Rightarrow> bool" where
  "is_private_ipv4 a \<longleftrightarrow> octet 0 a = 10
     \<or> (octet 0 a = 172 \<and> 16 \<le> octet 1 a \<and> octet 1 a \<le> 31)
     \<or> (octet 0 a = 192 \<and> octet 1 a = 168)"

definition is_link_local_ipv6 :: "128 word \<Rightarrow> bool" where
  "is_link_local_ipv6 a \<longleftrightarrow> (segment0 a AND 0xffc0) = 0xfe80"

definition is_unique_local_ipv6 :: "128 word \<Rightarrow> bool" where
  "is_unique_local_ipv6 a \<longleftrightarrow> (segment0 a AND 0xfe00) = 0xfc00"

fun is_loopback_host :: "url_host \<Rightarrow> bool" where
  "is_loopback_host (Domain d) = eq_ignore_ascii_case d ''localhost''"
| "is_loopback_host (Ipv4 a) = ipv4_is_loopback a"
| "is_loopback_host (Ipv6 a) =
     (case ipv6_mapped_ipv4 a of Some m \<Rightarrow> ipv4_is_loopback m | None \<Rightarrow> ipv6_is_loopback a)"

fun is_metadata_host :: "url_host \<Rightarrow> bool" where
  "is_metadata_host (Ipv4 a) = (a = ipv4_new 169 254 169 254)"
| "is_metadata_host (Ipv6 a) = (case ipv6_mapped_ipv4 a of Some m \<Rightarrow> is_metadata_ipv4 m | None \<Rightarrow> False)"
| "is_metadata_host (Domain d) = False"

fun is_link_local_host :: "url_host \<Rightarrow> bool" where
  "is_link_local_host (Ipv4 a) = is_link_local_ipv4 a"
| "is_link_local_host (Ipv6 a) =
     (case ipv6_mapped_ipv4 a of Some m \<Rightarrow> is_link_local_ipv4 m | None \<Rightarrow> is_link_local_ipv6 a)"
| "is_link_local_host (Domain d) = False"

fun is_private_network_host :: "url_host \<Rightarrow> bool" where
  "is_private_network_host (Ipv4 a) = is_private_ipv4 a"
| "is_private_network_host (Ipv6 a) =
     (case ipv6_mapped_ipv4 a of Some m \<Rightarrow> is_private_ipv4 m | None \<Rightarrow> is_unique_local_ipv6 a)"
| "is_private_network_host (Domain d) = False"

definition http_scheme :: "string \<Rightarrow> bool" where
  "http_scheme s \<longleftrightarrow> s = ''http'' \<or> s = ''https''"

definition check_host :: "egress_policy \<Rightarrow> string \<Rightarrow> url_host \<Rightarrow> egress_error + unit" where
  "check_host cfg sch h =
     (if block_loopback cfg \<and> is_loopback_host h then Err LoopbackBlocked
      else if block_metadata_ip cfg \<and> is_metadata_host h then Err MetadataBlocked
      else if block_link_local cfg \<and> is_link_local_host h then Err LinkLocalBlocked
      else if block_private_network cfg \<and> is_private_network_host h then Err PrivateNetworkBlocked
      else if https_only cfg \<and> sch \<noteq> ''https'' then Err HttpsRequired
      else Ok ())"

definition validate_target_url :: "url_parser \<Rightarrow> string \<Rightarrow> egress_policy \<Rightarrow> egress_error + unit" where
  "validate_target_url url_parse u cfg =
     (case url_parse u of
        None \<Rightarrow> Err UnsupportedUrl
      | Some parsed \<Rightarrow>
          if \<not> http_scheme (scheme parsed) then Err UnsupportedUrl
          else (case host parsed of
             None \<Rightarrow> Err UnsupportedUrl
           | Some h \<Rightarrow> check_host cfg (scheme parsed) h))"

section \<open>The message endpoint\<close>

definition resolve_message_endpoint ::
    "url_parser \<Rightarrow> (url \<Rightarrow> string \<Rightarrow> url option) \<Rightarrow> string \<Rightarrow> string \<Rightarrow> message_endpoint_error + url" where
  "resolve_message_endpoint url_parse url_join sse_url endpoint =
     (case url_parse sse_url of
        None \<Rightarrow> Err Invalid
      | Some base \<Rightarrow>
          if \<not> http_scheme (scheme base) then Err UnsafeEndpoint
          else
            (case (if starts_with ''http://'' endpoint \<or> starts_with ''https://'' endpoint
                   then url_parse endpoint else url_join base endpoint) of
               None \<Rightarrow> Err Invalid
             | Some resolved \<Rightarrow>
                 if \<not> http_scheme (scheme resolved) \<or> username resolved \<noteq> [] \<or> password resolved \<noteq> None
                    \<or> fragment resolved \<noteq> None
                 then Err UnsafeEndpoint
                 else if scheme base \<noteq> scheme resolved \<or> host_str base \<noteq> host_str resolved
                    \<or> port_or_known_default base \<noteq> port_or_known_default resolved
                 then Err CrossOrigin
                 else Ok resolved))"

section \<open>The OpenAPI egress check\<close>

datatype openapi_egress_error =
    SchemeMismatch
  | HostMismatch
  | PortMismatch
  | UserInfoForbidden
  | FragmentForbidden
  | MissingHost
  | MissingPort
  | MetadataHostBlocked
  | EgressPolicyBlocked

record openapi_target =
  allowed_scheme :: string
  canonical_host :: string
  allowed_port :: nat

definition is_known_metadata_hostname :: "string \<Rightarrow> bool" where
  "is_known_metadata_hostname h \<longleftrightarrow> to_ascii_lowercase h \<in>
     {''metadata.google.internal'', ''metadata'', ''instance-data'', ''instance-data.ec2.internal''}"

definition validate_openapi_egress ::
    "url_parser \<Rightarrow> 'x openapi_target_scheme \<Rightarrow> url \<Rightarrow> egress_policy \<Rightarrow> openapi_egress_error + unit" where
  "validate_openapi_egress url_parse target u policy =
     (if scheme u \<noteq> allowed_scheme target then Err SchemeMismatch
      else if username u \<noteq> [] \<or> password u \<noteq> None then Err UserInfoForbidden
      else if fragment u \<noteq> None then Err FragmentForbidden
      else case host_str u of
        None \<Rightarrow> Err MissingHost
      | Some h \<Rightarrow>
          if \<not> eq_ignore_ascii_case h (canonical_host target) then Err HostMismatch
          else (case port_or_known_default u of
             None \<Rightarrow> Err MissingPort
           | Some port \<Rightarrow>
               if port \<noteq> allowed_port target then Err PortMismatch
               else if is_known_metadata_hostname h then Err MetadataHostBlocked
               else (case validate_target_url url_parse (as_text u) policy of
                  Inl _ \<Rightarrow> Err EgressPolicyBlocked
                | Inr _ \<Rightarrow> Ok ())))"

section \<open>Networks\<close>

text \<open>An address is in the network \<open>base/len\<close> when it agrees with \<open>base\<close> in the first \<open>len\<close> bits.\<close>

definition in_net :: "nat \<Rightarrow> nat \<Rightarrow> 'a::len word \<Rightarrow> bool" where
  "in_net base len a \<longleftrightarrow> unat a div 2 ^ (LENGTH('a) - len) = base div 2 ^ (LENGTH('a) - len)"

definition v4 :: "nat \<Rightarrow> nat \<Rightarrow> nat \<Rightarrow> nat \<Rightarrow> nat" where
  "v4 a b c d = ((a * 256 + b) * 256 + c) * 256 + d"

text \<open>The networks that a tool call must not reach, as CIDR blocks.\<close>

definition internal_v4 :: "32 word \<Rightarrow> bool" where
  "internal_v4 a \<longleftrightarrow> in_net (v4 127 0 0 0) 8 a \<or> in_net (v4 169 254 0 0) 16 a \<or> in_net (v4 10 0 0 0) 8 a
     \<or> in_net (v4 172 16 0 0) 12 a \<or> in_net (v4 192 168 0 0) 16 a"

definition internal_v6 :: "128 word \<Rightarrow> bool" where
  "internal_v6 a \<longleftrightarrow> unat a = 1 \<or> in_net (0xfe80 * 2 ^ 112) 10 a \<or> in_net (0xfc00 * 2 ^ 112) 7 a
     \<or> (in_net (0xffff * 2 ^ 32) 96 a \<and> internal_v4 (ucast a))"

lemma unat_bound32: "unat (a :: 32 word) < 4294967296"
  using unsigned_less [of a] by simp

lemma octets:
  "octet 0 a = unat a div 65536 div 256" "octet (Suc 0) a = unat a div 65536 mod 256"
proof -
  have "unat a div 65536 div 256 < 256" using unat_bound32 [of a] by (simp add: div_mult2_eq [symmetric] less_mult_imp_div_less)
  then show "octet 0 a = unat a div 65536 div 256"
    unfolding octet_def unat_drop_bit_eq unfolding drop_bit_eq_div by (simp add: div_mult2_eq [symmetric])
  show "octet (Suc 0) a = unat a div 65536 mod 256"
    unfolding octet_def unat_drop_bit_eq unfolding drop_bit_eq_div by simp
qed

lemma split16:
  fixes q :: nat
  shows "q = 43518 \<longleftrightarrow> q div 256 = 169 \<and> q mod 256 = 254"
    "q = 49320 \<longleftrightarrow> q div 256 = 192 \<and> q mod 256 = 168"
    "q div 16 = 2753 \<longleftrightarrow> q div 256 = 172 \<and> 16 \<le> q mod 256 \<and> q mod 256 \<le> 31"
proof -
  have q: "q = 256 * (q div 256) + q mod 256" by simp
  show "q = 43518 \<longleftrightarrow> q div 256 = 169 \<and> q mod 256 = 254"
    by (rule iffI, simp, use q in linarith)
  show "q = 49320 \<longleftrightarrow> q div 256 = 192 \<and> q mod 256 = 168"
    by (rule iffI, simp, use q in linarith)
  show "q div 16 = 2753 \<longleftrightarrow> q div 256 = 172 \<and> 16 \<le> q mod 256 \<and> q mod 256 \<le> 31"
  proof
    assume h: "q div 16 = 2753"
    have "q div 256 = q div 16 div 16" by (simp add: div_mult2_eq [symmetric])
    then have d: "q div 256 = 172" using h by simp
    moreover have "44048 \<le> q" "q < 44064" using h by linarith+
    ultimately show "q div 256 = 172 \<and> 16 \<le> q mod 256 \<and> q mod 256 \<le> 31" using q by linarith
  next
    assume "q div 256 = 172 \<and> 16 \<le> q mod 256 \<and> q mod 256 \<le> 31"
    then have "44048 \<le> q" "q < 44064" using q by linarith+
    then show "q div 16 = 2753" by linarith
  qed
qed

lemma internal_v4_iff:
  "internal_v4 a \<longleftrightarrow> ipv4_is_loopback a \<or> is_link_local_ipv4 a \<or> is_private_ipv4 a"
proof -
  have d: "unat a div 16777216 = unat a div 65536 div 256" "unat a div 1048576 = unat a div 65536 div 16"
    by (simp_all add: div_mult2_eq [symmetric])
  show ?thesis
    unfolding internal_v4_def in_net_def v4_def ipv4_is_loopback_def is_link_local_ipv4_def
      is_private_ipv4_def
    by (auto simp: octets d split16)
qed

lemma metadata_link_local: "is_metadata_ipv4 a \<Longrightarrow> is_link_local_ipv4 a"
  by (simp add: is_metadata_ipv4_def is_link_local_ipv4_def ipv4_new_def octets)

lemma and_prefix:
  fixes n :: nat
  assumes "n < 65536"
  shows "n AND 0xffc0 = n div 64 * 64" "n AND 0xfe00 = n div 512 * 512"
proof -
  have t: "take_bit 16 n = n" using assms by (simp add: take_bit_eq_mod)
  have c: "(0xffc0 :: nat) = push_bit 6 (mask 10)" "(0xfe00 :: nat) = push_bit 9 (mask 7)"
    by (simp_all add: mask_eq_exp_minus_1 push_bit_eq_mult)
  have "take_bit 16 n AND push_bit 6 (mask 10) = push_bit 6 (drop_bit 6 (take_bit 16 n))"
    by (rule bit_eqI) (auto simp: bit_simps)
  then show "n AND 0xffc0 = n div 64 * 64"
    unfolding t c by (simp add: push_bit_eq_mult drop_bit_eq_div)
  have "take_bit 16 n AND push_bit 9 (mask 7) = push_bit 9 (drop_bit 9 (take_bit 16 n))"
    by (rule bit_eqI) (auto simp: bit_simps)
  then show "n AND 0xfe00 = n div 512 * 512"
    unfolding t c by (simp add: push_bit_eq_mult drop_bit_eq_div)
qed

lemma unat_segment0: "unat (segment0 a) = unat a div 2 ^ 112"
  unfolding segment0_def unat_drop_bit_eq unfolding drop_bit_eq_div ..

lemma segment0_bound: "unat a div 2 ^ 112 < 65536" for a :: "128 word"
proof -
  have "unat a < 2 ^ 128" using unsigned_less [of a] by simp
  then have "unat a < 65536 * 2 ^ 112" by simp
  then show ?thesis by (rule less_mult_imp_div_less)
qed

lemma segment0_and:
  "segment0 a AND 0xffc0 = 0xfe80 \<longleftrightarrow> unat a div 2 ^ 118 = 0x3fa"
  "segment0 a AND 0xfe00 = 0xfc00 \<longleftrightarrow> unat a div 2 ^ 121 = 0x7e"
proof -
  let ?n = "unat a div 2 ^ 112"
  have d: "?n div 64 = unat a div 2 ^ 118" "?n div 512 = unat a div 2 ^ 121"
    by (simp_all add: div_mult2_eq [symmetric])
  have "segment0 a AND 0xffc0 = 0xfe80 \<longleftrightarrow> unat (segment0 a AND 0xffc0) = unat (0xfe80 :: 128 word)"
    by (simp only: word_unat_eq_iff)
  also have "\<dots> \<longleftrightarrow> ?n AND 0xffc0 = 0xfe80" by (simp add: unsigned_and_eq unat_segment0)
  also have "\<dots> \<longleftrightarrow> ?n div 64 * 64 = 0x3fa * 64" by (simp only: and_prefix [OF segment0_bound]) simp
  also have "\<dots> \<longleftrightarrow> ?n div 64 = 0x3fa" by (simp only: mult_cancel2) simp
  finally show "segment0 a AND 0xffc0 = 0xfe80 \<longleftrightarrow> unat a div 2 ^ 118 = 0x3fa" by (simp only: d)
  have "segment0 a AND 0xfe00 = 0xfc00 \<longleftrightarrow> unat (segment0 a AND 0xfe00) = unat (0xfc00 :: 128 word)"
    by (simp only: word_unat_eq_iff)
  also have "\<dots> \<longleftrightarrow> ?n AND 0xfe00 = 0xfc00" by (simp add: unsigned_and_eq unat_segment0)
  also have "\<dots> \<longleftrightarrow> ?n div 512 * 512 = 0x7e * 512" by (simp only: and_prefix [OF segment0_bound]) simp
  also have "\<dots> \<longleftrightarrow> ?n div 512 = 0x7e" by (simp only: mult_cancel2) simp
  finally show "segment0 a AND 0xfe00 = 0xfc00 \<longleftrightarrow> unat a div 2 ^ 121 = 0x7e" by (simp only: d)
qed

lemma mapped_iff: "drop_bit 32 a = 0xffff \<longleftrightarrow> unat a div 2 ^ 32 = 0xffff" for a :: "128 word"
proof -
  have "drop_bit 32 a = 0xffff \<longleftrightarrow> unat (drop_bit 32 a) = unat (0xffff :: 128 word)"
    by (simp only: word_unat_eq_iff)
  then show ?thesis unfolding unat_drop_bit_eq unfolding drop_bit_eq_div by simp
qed

lemma internal_v6_iff:
  "internal_v6 a \<longleftrightarrow>
     (case ipv6_mapped_ipv4 a of
        Some m \<Rightarrow> internal_v4 m
      | None \<Rightarrow> ipv6_is_loopback a \<or> is_link_local_ipv6 a \<or> is_unique_local_ipv6 a)"
proof (cases "unat a div 2 ^ 32 = 0xffff")
  case True
  then have "unat a = 65535 * 4294967296 + unat a mod 4294967296"
    using div_mult_mod_eq [of "unat a" 4294967296] by simp
  moreover have "unat a mod 4294967296 < 4294967296" by simp
  ultimately have "unat a < 281474976710656" "4294967296 \<le> unat a" by linarith+
  then have "unat a div 2 ^ 118 = 0" "unat a div 2 ^ 121 = 0" "unat a \<noteq> 1" by auto
  with True show ?thesis
    by (simp add: internal_v6_def in_net_def ipv6_mapped_ipv4_def mapped_iff)
next
  case False
  have "ipv6_is_loopback a \<longleftrightarrow> unat a = 1"
    unfolding ipv6_is_loopback_def word_unat_eq_iff by simp
  with False show ?thesis
    by (simp add: internal_v6_def in_net_def ipv6_mapped_ipv4_def mapped_iff is_link_local_ipv6_def
        is_unique_local_ipv6_def segment0_and)
qed

section \<open>Properties\<close>

fun external_host :: "url_host \<Rightarrow> bool" where
  "external_host (Domain d) = (to_ascii_lowercase d \<noteq> ''localhost'')"
| "external_host (Ipv4 a) = (\<not> internal_v4 a)"
| "external_host (Ipv6 a) = (\<not> internal_v6 a)"

lemma check_host_default:
  "check_host default_egress_policy sch h = Ok () \<longleftrightarrow> external_host h \<and> sch = ''https''"
  using metadata_link_local
  by (cases h) (auto simp: check_host_def default_egress_policy_def internal_v4_iff internal_v6_iff
      eq_ignore_ascii_case_def to_ascii_lowercase_def ascii_lower_char_def is_ascii_uppercase_def
      is_metadata_ipv4_def byte_def split: option.splits)

text \<open>
  Property C32. What the default egress policy lets through, exactly: a URL that parses, with
  scheme https and a host that is neither \<open>localhost\<close> nor an address in one of the loopback,
  link-local (with the metadata service) and private blocks of IPv4 and IPv6, whether written
  as IPv4 or as an IPv4-mapped IPv6 address. The bit tests of the code are the CIDR blocks.
\<close>

theorem egress_default_policy_exact:
  "validate_target_url url_parse u default_egress_policy = Ok () \<longleftrightarrow>
     (\<exists>p h. url_parse u = Some p \<and> scheme p = ''https'' \<and> host p = Some h \<and> external_host h)"
  by (auto simp: validate_target_url_def http_scheme_def check_host_default split: option.splits if_splits)

text \<open>
  The unspecified addresses \<open>0.0.0.0\<close> and \<open>::\<close>, which connect to the local host on
  common systems, pass the default policy: none of the blocks contains them.
\<close>

lemma egress_unspecified_passes:
  assumes "url_parse u = Some p" and "scheme p = ''https''"
    and "host p = Some (Ipv4 0) \<or> host p = Some (Ipv6 0)"
  shows "validate_target_url url_parse u default_egress_policy = Ok ()"
proof -
  have "\<not> internal_v4 0" by (simp add: internal_v4_def in_net_def v4_def)
  moreover have "\<not> internal_v6 0" by (simp add: internal_v6_def in_net_def)
  ultimately show ?thesis
    using assms by (auto simp: validate_target_url_def http_scheme_def check_host_default)
qed

definition ex_url :: url where
  "ex_url = \<lparr>scheme = ''https'', username = [], password = None, host = Some (Ipv4 0),
     host_str = Some ''0.0.0.0'', port_or_known_default = Some 443, fragment = None,
     as_text = ''https://0.0.0.0/''\<rparr>"

lemma egress_unspecified_passes_witness:
  "validate_target_url [''https://0.0.0.0/'' \<mapsto> ex_url] ''https://0.0.0.0/'' default_egress_policy = Ok ()"
  by (rule egress_unspecified_passes [of _ _ ex_url]) (simp_all add: ex_url_def)

text \<open>
  Property C33. The message endpoint stays on the origin of the event stream: what
  \<open>resolve_message_endpoint\<close> returns has the scheme, host and port of the configured URL, is http or
  https, and carries no credentials and no fragment; a server that announces an absolute URL of
  another origin gets \<open>CrossOrigin\<close> or \<open>UnsafeEndpoint\<close>, never a connection.
\<close>

theorem message_endpoint_same_origin:
  assumes "url_parse sse_url = Some base"
  shows "(resolve_message_endpoint url_parse url_join sse_url endpoint = Ok r \<longrightarrow>
      http_scheme (scheme r) \<and> scheme r = scheme base \<and> host_str r = host_str base
      \<and> port_or_known_default r = port_or_known_default base
      \<and> username r = [] \<and> password r = None \<and> fragment r = None)
    \<and> (starts_with ''https://'' endpoint \<longrightarrow> url_parse endpoint = Some far
        \<longrightarrow> host_str far \<noteq> host_str base
        \<longrightarrow> resolve_message_endpoint url_parse url_join sse_url endpoint
              \<in> {Err CrossOrigin, Err UnsafeEndpoint})"
  using assms
  by (auto simp: resolve_message_endpoint_def split: if_splits option.splits)

definition ex_far :: url where
  "ex_far = ex_url\<lparr>host := Some (Domain ''evil''), host_str := Some ''evil''\<rparr>"

theorem message_endpoint_same_origin_witness:
  "resolve_message_endpoint [''https://a/'' \<mapsto> ex_url, ''https://evil/'' \<mapsto> ex_far] (\<lambda>_ _. Some ex_url)
      ''https://a/'' ''https://evil/'' \<in> {Err CrossOrigin, Err UnsafeEndpoint}
   \<and> resolve_message_endpoint [''https://a/'' \<mapsto> ex_url] (\<lambda>_ _. Some ex_url) ''https://a/'' ''/msg'' = Ok ex_url"
proof -
  let ?m = "[''https://a/'' \<mapsto> ex_url, ''https://evil/'' \<mapsto> ex_far]"
  have m: "?m ''https://a/'' = Some ex_url" "?m ''https://evil/'' = Some ex_far" by simp_all
  have s: "starts_with ''https://'' ''https://evil/''" by (simp add: starts_with_def)
  have h: "host_str ex_far \<noteq> host_str ex_url" by (simp add: ex_far_def ex_url_def)
  have ok: "resolve_message_endpoint [''https://a/'' \<mapsto> ex_url] (\<lambda>_ _. Some ex_url) ''https://a/'' ''/msg''
      = Ok ex_url"
    by (simp add: resolve_message_endpoint_def starts_with_def http_scheme_def ex_url_def)
  have "resolve_message_endpoint ?m (\<lambda>_ _. Some ex_url) ''https://a/'' ''https://evil/''
      \<in> {Err CrossOrigin, Err UnsafeEndpoint}"
    using message_endpoint_same_origin [of ?m "''https://a/''" ex_url] m s h by blast
  with ok show ?thesis by blast
qed

end
