(* ===== verification/Agent_Io.thy ===== *)
theory Agent_Io
  imports Mcp_Session Tool_Types Egress
begin

text \<open>
  Programs with effects, for the executors that talk to a tool server, and a small Hoare logic
  for them. A program is a function of an environment and a world. The environment gives what
  the outside answers at each \<open>await\<close>, by the number of the \<open>await\<close>; the world counts the awaits and
  records the effects and the status of each answer. When the count reaches the deadline the
  future is dropped at that \<open>await\<close>. Time is the environment's: \<open>e_deadline\<close> is the \<open>await\<close> at which the timer of
  the call fires, whatever its length in milliseconds, and the theorems hold for every choice of it. The length of a
  pause, as the 25 ms between two attempts at a lock, is therefore no part of the model.
\<close>

section \<open>Effects\<close>

datatype rpc_body = RpcRequest string string json | RpcNotification string

datatype life_event =
    Posted url rpc_body "string option" string
  | Requested string url header_map "json option"
  | Answered nat
  | StreamOpened string
  | MessagePosted string rpc_body
  | Stored string mcp_session nat
  | Deleted string
  | LockTaken string nat
  | LockReleased string

record http_response =
  http_status_code :: nat
  http_body :: mcp_response

datatype http_result = SendTimeout | SendFailed | Responded http_response

datatype lock_reply = LockGranted string | LockBusy | LockError

record initialized_session =
  i_session :: "mcp_session option"
  i_protocol_version :: string
  i_sse_used :: bool

text \<open>The role that \<open>get_or_try_init\<close> gives a caller, with what a waiter receives.\<close>

datatype flight_role = FlightOwner | FlightReceived "initialized_session option"

record life_env =
  e_http :: "nat \<Rightarrow> http_result"
  e_load :: "nat \<Rightarrow> mcp_session option"
  e_lock :: "nat \<Rightarrow> lock_reply"
  e_role :: "nat \<Rightarrow> flight_role"
  e_utc :: "nat \<Rightarrow> int"
  e_elapsed_ms :: "nat \<Rightarrow> nat"
  e_deadline :: nat
  e_parse :: json_parser
  e_init_value :: "json \<Rightarrow> mcp_initialize_result mcp_json_rpc_response option"
  e_init_slice :: "string \<Rightarrow> mcp_initialize_result mcp_json_rpc_response option"
  e_call_value :: "json \<Rightarrow> json mcp_json_rpc_response option"
  e_call_slice :: "string \<Rightarrow> json mcp_json_rpc_response option"
  e_pkg_version :: string

record life_world =
  w_awaits :: nat
  w_trace :: "life_event list"
  w_version :: "string option"
  w_sse :: bool

definition world0 :: life_world where
  "world0 = \<lparr>w_awaits = 0, w_trace = [], w_version = None, w_sse = False\<rparr>"

section \<open>Programs\<close>

datatype ('f, 'a) outcome = LDone 'a | LFail 'f | LElapsed

type_synonym ('f, 'a) program = "life_env \<Rightarrow> life_world \<Rightarrow> ('f, 'a) outcome \<times> life_world"

definition lret :: "'a \<Rightarrow> ('f, 'a) program" where
  "lret x = (\<lambda>e w. (LDone x, w))"

definition lfail :: "'f \<Rightarrow> ('f, 'a) program" where
  "lfail f = (\<lambda>e w. (LFail f, w))"

definition lbind :: "('f, 'a) program \<Rightarrow> ('a \<Rightarrow> ('f, 'b) program) \<Rightarrow> ('f, 'b) program" where
  "lbind m k = (\<lambda>e w. case m e w of
     (LDone x, w') \<Rightarrow> k x e w' | (LFail f, w') \<Rightarrow> (LFail f, w') | (LElapsed, w') \<Rightarrow> (LElapsed, w'))"

definition lthen :: "('f, 'a) program \<Rightarrow> ('f, 'b) program \<Rightarrow> ('f, 'b) program" where
  "lthen m n = lbind m (\<lambda>_. n)"

text \<open>\<open>map_err\<close>, and \<open>?\<close> on a pure result.\<close>

definition lmap_err :: "('f \<Rightarrow> 'g) \<Rightarrow> ('f, 'a) program \<Rightarrow> ('g, 'a) program" where
  "lmap_err g m = (\<lambda>e w. case m e w of
     (LFail f, w') \<Rightarrow> (LFail (g f), w') | (LDone x, w') \<Rightarrow> (LDone x, w') | (LElapsed, w') \<Rightarrow> (LElapsed, w'))"

definition lift :: "('e \<Rightarrow> 'f) \<Rightarrow> 'e + 'a \<Rightarrow> ('f, 'a) program" where
  "lift g r = (case r of Inl err \<Rightarrow> lfail (g err) | Inr x \<Rightarrow> lret x)"

definition emit :: "life_event \<Rightarrow> ('f, unit) program" where
  "emit ev = (\<lambda>e w. (LDone (), w\<lparr>w_trace := w_trace w @ [ev]\<rparr>))"

definition read_env :: "(life_env \<Rightarrow> nat \<Rightarrow> 'a) \<Rightarrow> ('f, 'a) program" where
  "read_env f = (\<lambda>e w. (LDone (f e (w_awaits w)), w))"

text \<open>An \<open>await\<close>, and an \<open>await\<close> that gives what \<open>f\<close> reads of the environment.\<close>

definition await_for :: "(life_env \<Rightarrow> nat \<Rightarrow> 'a) \<Rightarrow> ('f, 'a) program" where
  "await_for f = (\<lambda>e w.
     if w_awaits w < e_deadline e
     then (LDone (f e (w_awaits w)), w\<lparr>w_awaits := w_awaits w + 1\<rparr>)
     else (LElapsed, w))"

definition await :: "('f, unit) program" where
  "await = await_for (\<lambda>e n. ())"

definition set_protocol_version :: "string \<Rightarrow> ('f, unit) program" where
  "set_protocol_version v = (\<lambda>e w. (LDone (), w\<lparr>w_version := Some v\<rparr>))"

definition mark_sse_used :: "('f, unit) program" where
  "mark_sse_used = (\<lambda>e w. (LDone (), w\<lparr>w_sse := True\<rparr>))"

section \<open>Shared pieces\<close>

text \<open>\<open>StatusCode::is_success\<close>, and the parameters of \<open>initialize\<close> and the policy summary that the executors write.\<close>

definition status_success :: "nat \<Rightarrow> bool" where
  "status_success s \<longleftrightarrow> 200 \<le> s \<and> s < 300"

definition init_params :: "string \<Rightarrow> json" where
  "init_params pkg_version =
     JObject [(''protocolVersion'', JString CLIENT_PROTOCOL_VERSION), (''capabilities'', JObject []),
       (''clientInfo'', JObject [(''name'', JString ''alephant-ai-gateway''), (''version'', JString pkg_version)])]"

text \<open>\<open>HeaderValue::from_str\<close> accepts every byte except the control characters other than the tab.\<close>

definition header_value_ok :: "string \<Rightarrow> bool" where
  "header_value_ok s \<longleftrightarrow> list_all (\<lambda>c. (32 \<le> byte c \<and> byte c \<noteq> 127) \<or> byte c = 9) s"

text \<open>The same function stands in every executor.\<close>

definition effective_timeout_ms :: "nat option \<Rightarrow> nat option \<Rightarrow> nat \<Rightarrow> nat" where
  "effective_timeout_ms target_timeout request_timeout default_timeout =
     (let configured = max (case target_timeout of Some t \<Rightarrow> t | None \<Rightarrow> default_timeout) 1
      in case request_timeout of Some t \<Rightarrow> min (max t 1) configured | None \<Rightarrow> configured)"

definition allowed_policy :: tool_policy where
  "allowed_policy = \<lparr>allowed = True, decision = ''allowed'', policy_reason = ''tool_allowed''\<rparr>"

section \<open>The logic\<close>

named_theorems life_rules "rules for the steps of a lifecycle"

definition spec ::
    "life_env \<Rightarrow> (life_world \<Rightarrow> bool) \<Rightarrow> ('f, 'a) program \<Rightarrow> ('a \<Rightarrow> life_world \<Rightarrow> bool)
       \<Rightarrow> (life_world \<Rightarrow> bool) \<Rightarrow> (life_world \<Rightarrow> bool) \<Rightarrow> bool" where
  "spec e P m Q F E \<longleftrightarrow> (\<forall>w. P w \<longrightarrow> (case m e w of
     (LDone x, w') \<Rightarrow> Q x w' | (LFail f, w') \<Rightarrow> F w' | (LElapsed, w') \<Rightarrow> E w'))"

lemma spec_conseq:
  "\<lbrakk>spec e P' m Q' F' E'; \<And>w. P w \<Longrightarrow> P' w; \<And>x w. Q' x w \<Longrightarrow> Q x w; \<And>w. F' w \<Longrightarrow> F w;
    \<And>w. E' w \<Longrightarrow> E w\<rbrakk> \<Longrightarrow> spec e P m Q F E"
  unfolding spec_def by (fastforce split: prod.splits outcome.splits)

lemma spec_bind [life_rules]:
  "\<lbrakk>spec e P m Q F E; \<And>x. spec e (Q x) (k x) R F E\<rbrakk> \<Longrightarrow> spec e P (lbind m k) R F E"
  unfolding spec_def lbind_def by (fastforce split: prod.splits outcome.splits)

lemma spec_then [life_rules]:
  "\<lbrakk>spec e P m (\<lambda>_. Q) F E; spec e Q n R F E\<rbrakk> \<Longrightarrow> spec e P (lthen m n) R F E"
  unfolding lthen_def by (rule spec_bind)

lemma spec_ret: "(\<And>w. P w \<Longrightarrow> Q x w) \<Longrightarrow> spec e P (lret x) Q F E"
  by (simp add: spec_def lret_def)

lemma spec_fail: "(\<And>w. P w \<Longrightarrow> F w) \<Longrightarrow> spec e P (lfail f) Q F E"
  by (simp add: spec_def lfail_def)

lemma spec_emit:
  "(\<And>w. P w \<Longrightarrow> Q () (w\<lparr>w_trace := w_trace w @ [ev]\<rparr>)) \<Longrightarrow> spec e P (emit ev) Q F E"
  by (simp add: spec_def emit_def)

lemma spec_read_env: "(\<And>w. P w \<Longrightarrow> Q (f e (w_awaits w)) w) \<Longrightarrow> spec e P (read_env f) Q F E"
  by (simp add: spec_def read_env_def)

lemma spec_await_for:
  "\<lbrakk>\<And>w. P w \<Longrightarrow> Q (f e (w_awaits w)) (w\<lparr>w_awaits := w_awaits w + 1\<rparr>); \<And>w. P w \<Longrightarrow> E w\<rbrakk>
     \<Longrightarrow> spec e P (await_for f) Q F E"
  by (simp add: spec_def await_for_def)

lemma spec_map_err: "spec e P m Q F E \<Longrightarrow> spec e P (lmap_err g m) Q F E"
  unfolding spec_def lmap_err_def by (fastforce split: prod.splits outcome.splits)

lemma spec_lift:
  "\<lbrakk>\<And>x w. r = Inr x \<Longrightarrow> P w \<Longrightarrow> Q x w; \<And>w. P w \<Longrightarrow> F w\<rbrakk> \<Longrightarrow> spec e P (lift g r) Q F E"
  by (cases r) (simp_all add: lift_def spec_ret spec_fail)

lemma spec_if [life_rules]:
  "\<lbrakk>b \<Longrightarrow> spec e P m Q F E; \<not> b \<Longrightarrow> spec e P n Q F E\<rbrakk> \<Longrightarrow> spec e P (if b then m else n) Q F E"
  by simp

end
