(* ===== verification/Mcp_Lifecycle.thy ===== *)
theory Mcp_Lifecycle
  imports Agent_Io
begin

text \<open>
  The lifecycle of a tool call over MCP streamable HTTP
  (\<open>agent/tools/mcp_streamable_http/lifecycle.rs\<close>): reuse of a cached session, initialisation under
  the Redis lock or the single flight of the process, the call itself and its retry after the
  server has dropped the session, all under one deadline.
\<close>

section \<open>Failures\<close>

record lifecycle_failure =
  f_code :: string
  f_message :: string
  f_retryable :: bool
  f_protocol_version :: "string option"
  f_sse_used :: bool

definition failure_new :: "string \<Rightarrow> string \<Rightarrow> bool \<Rightarrow> lifecycle_failure" where
  "failure_new code message retryable =
     \<lparr>f_code = code, f_message = message, f_retryable = retryable, f_protocol_version = None,
      f_sse_used = False\<rparr>"

fun from_transport :: "transport_error \<Rightarrow> lifecycle_failure" where
  "from_transport ResponseTooLarge =
     failure_new ''mcp_response_too_large'' ''mcp response exceeds size limit'' False"
| "from_transport TargetUnavailable =
     failure_new ''mcp_target_unavailable'' ''mcp target is unavailable'' True"
| "from_transport ProtocolParse =
     failure_new ''mcp_protocol_parse_error'' ''mcp response is not valid JSON-RPC'' False"
| "from_transport SseParse =
     failure_new ''mcp_sse_parse_error'' ''mcp SSE response is not valid JSON-RPC'' False"
| "from_transport SseServerRequestUnsupported =
     failure_new ''mcp_server_request_unsupported'' ''mcp SSE server requests are not supported'' False"
| "from_transport SseIncomplete =
     failure_new ''mcp_sse_incomplete''
       ''mcp SSE response did not include a matching JSON-RPC response'' False"
| "from_transport SseIdleTimeout =
     failure_new ''mcp_sse_idle_timeout'' ''mcp SSE response timed out while waiting for an event'' True"

fun from_json_rpc_protocol :: "json_rpc_protocol_error \<Rightarrow> lifecycle_failure" where
  "from_json_rpc_protocol InvalidEnvelope =
     failure_new ''mcp_protocol_parse_error'' ''mcp response is not a valid JSON-RPC envelope'' False"
| "from_json_rpc_protocol UnsupportedProtocolVersion =
     failure_new ''mcp_unsupported_protocol_version''
       ''mcp server negotiated an unsupported protocol version'' False"
| "from_json_rpc_protocol ToolsCapabilityMissing =
     failure_new ''mcp_tools_capability_missing''
       ''mcp server initialize result is missing tools capability'' False"

definition from_mcp_error :: "mcp_json_rpc_error \<Rightarrow> lifecycle_failure" where
  "from_mcp_error error =
     failure_new ''mcp_call_failed'' (err_message error) (mcp_error_retryable (err_code error))"

definition with_protocol_version :: "string \<Rightarrow> lifecycle_failure \<Rightarrow> lifecycle_failure" where
  "with_protocol_version v f = f\<lparr>f_protocol_version := Some v\<rparr>"

definition with_sse_used :: "bool \<Rightarrow> lifecycle_failure \<Rightarrow> lifecycle_failure" where
  "with_sse_used b f = f\<lparr>f_sse_used := b\<rparr>"

type_synonym 'a life = "(lifecycle_failure, 'a) program"

section \<open>The call\<close>

text \<open>The arguments that the functions of the lifecycle pass on.\<close>

record life_call =
  c_ctx :: tool_ctx
  c_target :: tool_target
  c_request :: tool_call_request
  c_url :: url
  c_execution_id :: string
  c_max_response_bytes :: nat
  c_sse_options :: sse_read_options
  c_lock_ttl_secs :: nat

definition response_is_sse :: "header_map \<Rightarrow> bool" where
  "response_is_sse headers =
     (case header_str headers ''content-type'' of
        None \<Rightarrow> False
      | Some content_type \<Rightarrow>
          eq_ignore_ascii_case (trim (split_first (CHR '';'') content_type)) ''text/event-stream'')"

definition call_http_error_code :: "nat \<Rightarrow> string" where
  "call_http_error_code s =
     (if s = 404 then ''mcp_session_expired''
      else if s = 401 then ''mcp_call_unauthorized''
      else if s = 403 then ''mcp_call_forbidden''
      else ''mcp_call_http_error'')"

definition post_json_rpc :: "url \<Rightarrow> rpc_body \<Rightarrow> string option \<Rightarrow> string \<Rightarrow> http_response life" where
  "post_json_rpc u body sid version =
     (if \<not> header_value_ok version
      then lfail (failure_new ''mcp_protocol_parse_error'' ''mcp protocol version is invalid'' False)
      else if (case sid of Some s \<Rightarrow> \<not> header_value_ok s | None \<Rightarrow> False)
      then lfail (failure_new ''mcp_protocol_parse_error'' ''mcp session id is invalid'' False)
      else lthen (emit (Posted u body sid version))
        (lbind (await_for e_http) (\<lambda>r. case r of
           SendTimeout \<Rightarrow> lfail (failure_new ''mcp_transport_timeout'' ''mcp target timed out'' True)
         | SendFailed \<Rightarrow> lfail (failure_new ''mcp_target_unavailable'' ''mcp target is unavailable'' True)
         | Responded resp \<Rightarrow> lthen (emit (Answered (http_status_code resp))) (lret resp))))"

text \<open>Reading an answer is one \<open>await\<close>.\<close>

definition read_init_response ::
    "life_call \<Rightarrow> http_response \<Rightarrow> string
       \<Rightarrow> (transport_error + mcp_initialize_result mcp_json_rpc_response json_rpc_transport_response) life" where
  "read_init_response c resp rid =
     await_for (\<lambda>e n. read_json_rpc_response (e_parse e) (e_init_value e) (e_init_slice e) (http_body resp)
       rid (c_max_response_bytes c) (c_sse_options c))"

definition read_call_response ::
    "life_call \<Rightarrow> http_response \<Rightarrow> string
       \<Rightarrow> (transport_error + json mcp_json_rpc_response json_rpc_transport_response) life" where
  "read_call_response c resp rid =
     await_for (\<lambda>e n. read_json_rpc_response (e_parse e) (e_call_value e) (e_call_slice e) (http_body resp)
       rid (c_max_response_bytes c) (c_sse_options c))"

section \<open>Responses\<close>

definition completed_billing_reason :: "json \<Rightarrow> string" where
  "completed_billing_reason output =
     (if Option.bind (get ''isError'' output) as_bool = Some True then ''tool_business_error'' else ''success'')"

definition failed_billing_reason :: "string \<Rightarrow> string" where
  "failed_billing_reason code =
     (if code = ''mcp_call_failed'' \<or> code = ''mcp_json_rpc_error'' then ''json_rpc_error'' else code)"

definition base_metadata ::
    "life_call \<Rightarrow> string option \<Rightarrow> bool \<Rightarrow> string option \<Rightarrow> nat \<Rightarrow> tool_metadata" where
  "base_metadata c version sse failure elapsed_ms =
     default_metadata\<lparr>execution_source := ''gateway_executed'', meta_target_kind := ''mcp-streamable-http'',
       meta_target_id := tool_id (c_target c), meta_target_hash := target_hash (c_ctx c),
       meta_auth_revision := auth_revision (c_ctx c), cache_hit := False, reinitialized := False,
       protocol_version := version, meta_sse_used := sse, failure_class := failure,
       blocked_before_dispatch := False, latency_ms := Some elapsed_ms\<rparr>"

definition completed_response ::
    "life_call \<Rightarrow> json \<Rightarrow> string \<Rightarrow> bool \<Rightarrow> nat \<Rightarrow> tool_call_response" where
  "completed_response c result version sse elapsed_ms =
     (let card = target_rate_card (c_target c);
          the_cost = \<lparr>amount_micros = fixed_micros card, cost_currency = currency card, cost_source = ''rate_card''\<rparr>
      in \<lparr>status = Completed, tool_call_id = req_tool_call_id (c_request c),
          tool_execution_id = c_execution_id c, tool_output = result, resp_error = None,
          gateway_metadata = Some (base_metadata c (Some version) sse None elapsed_ms),
          billing = \<lparr>bill_reason = completed_billing_reason result, billable = True,
            cost_micros = amount_micros the_cost, bill_currency = cost_currency the_cost,
            dedupe_key = c_execution_id c\<rparr>,
          cost = the_cost, policy = allowed_policy, events = default_events\<rparr>)"

definition failed_response ::
    "life_call \<Rightarrow> string \<Rightarrow> string \<Rightarrow> bool \<Rightarrow> string option \<Rightarrow> bool \<Rightarrow> nat \<Rightarrow> tool_call_response" where
  "failed_response c code message retryable version sse elapsed_ms =
     (let card = target_rate_card (c_target c)
      in \<lparr>status = Failed, tool_call_id = req_tool_call_id (c_request c),
          tool_execution_id = c_execution_id c,
          tool_output = JObject [(''error'', JObject [(''code'', JString code),
            (''retryable'', JBool retryable), (''message'', JString message)])],
          resp_error = Some \<lparr>envelope_code = code, envelope_message = message, envelope_retryable = retryable\<rparr>,
          gateway_metadata = Some (base_metadata c version sse (Some code) elapsed_ms),
          billing = \<lparr>bill_reason = failed_billing_reason code, billable = False, cost_micros = 0,
            bill_currency = currency card, dedupe_key = c_execution_id c\<rparr>,
          cost = \<lparr>amount_micros = 0, cost_currency = currency card, cost_source = ''waived''\<rparr>,
          policy = allowed_policy, events = default_events\<rparr>)"

definition mark_gateway_metadata :: "bool \<Rightarrow> bool \<Rightarrow> tool_call_response \<Rightarrow> tool_call_response" where
  "mark_gateway_metadata hit reinit r =
     r\<lparr>gateway_metadata := map_option (\<lambda>m. m\<lparr>cache_hit := hit, reinitialized := reinit\<rparr>) (gateway_metadata r)\<rparr>"

definition failed_lifecycle_response :: "life_call \<Rightarrow> lifecycle_failure \<Rightarrow> nat \<Rightarrow> tool_call_response" where
  "failed_lifecycle_response c f elapsed_ms =
     failed_response c (f_code f) (f_message f) (f_retryable f) (f_protocol_version f) (f_sse_used f) elapsed_ms"

definition lifecycle_timeout_response :: "life_call \<Rightarrow> life_world \<Rightarrow> nat \<Rightarrow> tool_call_response" where
  "lifecycle_timeout_response c w elapsed_ms =
     failed_response c ''mcp_lifecycle_timeout'' ''mcp streamable http lifecycle timed out'' True
       (w_version w) (w_sse w) elapsed_ms"

section \<open>Initialisation\<close>

definition invalid_session_id_failure :: lifecycle_failure where
  "invalid_session_id_failure =
     failure_new ''mcp_invalid_session_id'' ''mcp initialize response contains an invalid session id'' False"

definition session_id_from_headers :: "header_map \<Rightarrow> lifecycle_failure + string option" where
  "session_id_from_headers headers =
     (case header_get headers ''mcp-session-id'' of
        None \<Rightarrow> Ok None
      | Some value \<Rightarrow>
          (case header_to_str value of
             None \<Rightarrow> Err invalid_session_id_failure
           | Some sid \<Rightarrow>
               if is_ok (validate_session_id sid) then Ok (Some sid) else Err invalid_session_id_failure))"

definition send_initialized :: "url \<Rightarrow> string option \<Rightarrow> string \<Rightarrow> unit life" where
  "send_initialized u sid version =
     lbind (post_json_rpc u (RpcNotification ''notifications/initialized'') sid version) (\<lambda>resp.
       if \<not> status_success (http_status_code resp)
       then lfail (with_protocol_version version (failure_new ''mcp_initialized_http_error''
         ''mcp initialized notification returned a non-success status'' True))
       else lret ())"

definition i64_of_u64 :: "nat \<Rightarrow> int" where
  "i64_of_u64 n = (if n < 9223372036854775808 then int n else int n - 18446744073709551616)"

definition after_seconds :: "int \<Rightarrow> nat \<Rightarrow> int" where
  "after_seconds now ttl_secs = now + i64_of_u64 ttl_secs * 1000000000"

definition new_session ::
    "tool_ctx \<Rightarrow> mcp_initialize_result \<Rightarrow> int \<Rightarrow> string \<Rightarrow> mcp_session" where
  "new_session ctx result now sid =
     \<lparr>session_id = sid, negotiated_protocol_version = init_protocol_version result,
      s_target_hash = target_hash ctx, s_auth_revision = auth_revision ctx,
      server_info = init_server_info result, capabilities = init_capabilities result,
      created_at = now, last_used_at = now,
      expires_at = after_seconds now (mcp_session_cache_ttl_secs ctx)\<rparr>"

text \<open>The part of \<open>initialize_session\<close> after the answer has been read.\<close>

definition finish_initialize ::
    "life_call \<Rightarrow> string \<Rightarrow> mcp_initialize_result mcp_json_rpc_response json_rpc_transport_response
       \<Rightarrow> initialized_session life" where
  "finish_initialize c rid transport =
     (let sse = sse_used transport; rpc = resp_value transport in
      lthen (lift from_json_rpc_protocol (validate_json_rpc_envelope rpc rid))
      (case rpc_error rpc of
         Some error \<Rightarrow> lfail (from_mcp_error error)
       | None \<Rightarrow>
         lbind (lift id (ok_or (with_sse_used sse (failure_new ''mcp_protocol_parse_error''
             ''mcp initialize result is missing'' False)) (rpc_result rpc))) (\<lambda>result.
         let version = init_protocol_version result; annotate = with_sse_used sse \<circ> with_protocol_version version in
         lthen (lift (\<lambda>_. annotate (failure_new ''mcp_unsupported_protocol_version''
             ''mcp server negotiated an unsupported protocol version'' False))
             (validate_supported_protocol_version version))
         (lthen (set_protocol_version version)
         (lthen (lift (\<lambda>_. annotate (failure_new ''mcp_tools_capability_missing''
             ''mcp server initialize result is missing tools capability'' False))
             (validate_tools_capability (init_capabilities result)))
         (lbind (lift annotate (session_id_from_headers (resp_headers transport))) (\<lambda>sid.
         lthen (lmap_err annotate (send_initialized (c_url c) sid version))
         (lbind (read_env e_utc) (\<lambda>now.
         lret \<lparr>i_session = map_option (new_session (c_ctx c) result now) sid,
               i_protocol_version = version, i_sse_used = sse\<rparr>))))))))) "

definition initialize_session :: "life_call \<Rightarrow> initialized_session life" where
  "initialize_session c =
     (let rid = ''init_'' @ c_execution_id c in
      lbind (read_env (\<lambda>e n. e_pkg_version e)) (\<lambda>pkg.
      lbind (post_json_rpc (c_url c) (RpcRequest rid ''initialize'' (init_params pkg)) None
          CLIENT_PROTOCOL_VERSION) (\<lambda>resp.
      if \<not> status_success (http_status_code resp)
      then lfail (failure_new ''mcp_initialize_http_error''
        ''mcp initialize returned a non-success status'' True)
      else
        (let response_sse = response_is_sse (r_headers (http_body resp)) in
         lthen (if response_sse then mark_sse_used else lret ())
         (lbind (read_init_response c resp rid) (\<lambda>r.
          lbind (lift (\<lambda>err. with_sse_used response_sse (from_transport err)) r)
            (finish_initialize c rid)))))))"

section \<open>The tool call\<close>

datatype call_tool_outcome =
    CallResponse tool_call_response
  | SessionExpired tool_call_response
  | UnauthorizedOrForbidden tool_call_response

definition finish_call ::
    "life_call \<Rightarrow> string \<Rightarrow> bool \<Rightarrow> json mcp_json_rpc_response json_rpc_transport_response
       \<Rightarrow> call_tool_outcome life" where
  "finish_call c version initialize_sse transport =
     (let sse = (initialize_sse \<or> sse_used transport); rpc = resp_value transport;
          annotate = with_sse_used sse \<circ> with_protocol_version version in
      lthen (lift (annotate \<circ> from_json_rpc_protocol) (validate_json_rpc_envelope rpc (c_execution_id c)))
      (case rpc_error rpc of
         Some error \<Rightarrow> lfail (annotate (from_mcp_error error))
       | None \<Rightarrow>
         lbind (lift id (ok_or (annotate (failure_new ''mcp_protocol_parse_error''
             ''mcp tool call result is missing'' False)) (rpc_result rpc))) (\<lambda>result.
         lbind (read_env e_elapsed_ms) (\<lambda>ms.
         lret (CallResponse (completed_response c result version sse ms))))))"

definition call_tool_with_session ::
    "life_call \<Rightarrow> mcp_session option \<Rightarrow> string \<Rightarrow> bool \<Rightarrow> call_tool_outcome life" where
  "call_tool_with_session c session version initialize_sse =
     lbind (post_json_rpc (c_url c)
        (RpcRequest (c_execution_id c) ''tools/call''
          (JObject [(''name'', JString (tool_id (c_target c))), (''arguments'', req_arguments (c_request c))]))
        (map_option session_id session) version) (\<lambda>resp.
     (let code = http_status_code resp in
      if \<not> status_success code then
        lbind (read_env e_elapsed_ms) (\<lambda>ms.
          (let response = failed_response c (call_http_error_code code)
                 ''mcp tool call returned a non-success status'' (code \<noteq> 401 \<and> code \<noteq> 403)
                 (Some version) initialize_sse ms
           in lret (if code = 404 then SessionExpired response
                    else if code = 401 \<or> code = 403 then UnauthorizedOrForbidden response
                    else CallResponse response)))
      else
        (let response_sse = response_is_sse (r_headers (http_body resp)) in
         lthen (if response_sse then mark_sse_used else lret ())
         (lbind (read_call_response c resp (c_execution_id c)) (\<lambda>r.
          lbind (lift (\<lambda>err. with_sse_used (initialize_sse \<or> response_sse)
              (with_protocol_version version (from_transport err))) r)
            (finish_call c version initialize_sse))))))"

section \<open>The session cache\<close>

text \<open>
  With Redis the cache is \<open>RedisMcpSessionCache\<close>, without it \<open>NoopMcpSessionCache\<close>. Other gateways
  share the cache, so a load gives what the environment says.
\<close>

definition cache_load :: "tool_ctx \<Rightarrow> mcp_session option life" where
  "cache_load ctx = (if has_redis ctx then await_for e_load else lret None)"

definition cache_store :: "tool_ctx \<Rightarrow> string \<Rightarrow> mcp_session \<Rightarrow> nat \<Rightarrow> unit life" where
  "cache_store ctx key s ttl_secs =
     (if has_redis ctx then lthen (emit (Stored key s ttl_secs)) await else lret ())"

definition cache_delete :: "tool_ctx \<Rightarrow> string \<Rightarrow> unit life" where
  "cache_delete ctx key = (if has_redis ctx then lthen (emit (Deleted key)) await else lret ())"

definition load_reusable_cached_session :: "tool_ctx \<Rightarrow> string \<Rightarrow> mcp_session option life" where
  "load_reusable_cached_session ctx key =
     lbind (cache_load ctx) (\<lambda>cached. case cached of
       None \<Rightarrow> lret None
     | Some s \<Rightarrow>
         lbind (read_env e_utc) (\<lambda>now.
           if should_evict_session ctx now s then lthen (cache_delete ctx key) (lret None)
           else lret (Some s)))"

definition refreshed :: "tool_ctx \<Rightarrow> int \<Rightarrow> mcp_session \<Rightarrow> mcp_session" where
  "refreshed ctx now s =
     s\<lparr>last_used_at := now, expires_at := after_seconds now (mcp_session_cache_ttl_secs ctx)\<rparr>"

definition refresh_session :: "tool_ctx \<Rightarrow> string \<Rightarrow> mcp_session \<Rightarrow> tool_call_response \<Rightarrow> unit life" where
  "refresh_session ctx key s r =
     (if status r = Completed
      then lbind (read_env e_utc) (\<lambda>now. cache_store ctx key (refreshed ctx now s) (mcp_session_cache_ttl_secs ctx))
      else lret ())"

section \<open>Fresh sessions\<close>

definition response_from_call_outcome ::
    "tool_ctx \<Rightarrow> string \<Rightarrow> call_tool_outcome \<Rightarrow> bool \<Rightarrow> bool \<Rightarrow> tool_call_response life" where
  "response_from_call_outcome ctx key out hit reinit =
     (case out of
        CallResponse r \<Rightarrow> lret (mark_gateway_metadata hit reinit r)
      | SessionExpired r \<Rightarrow> lthen (cache_delete ctx key) (lret (mark_gateway_metadata hit reinit r))
      | UnauthorizedOrForbidden r \<Rightarrow>
          lthen (cache_delete ctx key) (lret (mark_gateway_metadata hit reinit r)))"

definition store_initialized :: "tool_ctx \<Rightarrow> string \<Rightarrow> initialized_session \<Rightarrow> unit life" where
  "store_initialized ctx key i =
     (case i_session i of
        Some s \<Rightarrow> cache_store ctx key s (mcp_session_cache_ttl_secs ctx)
      | None \<Rightarrow> lret ())"

definition execute_fresh_lifecycle_once :: "life_call \<Rightarrow> string \<Rightarrow> bool \<Rightarrow> tool_call_response life" where
  "execute_fresh_lifecycle_once c key reinit =
     lbind (initialize_session c) (\<lambda>i.
     lthen (store_initialized (c_ctx c) key i)
     (lbind (call_tool_with_session c (i_session i) (i_protocol_version i) (i_sse_used i)) (\<lambda>out.
      response_from_call_outcome (c_ctx c) key out False reinit)))"

text \<open>\<open>get_or_try_init\<close>: the owner initialises and stores, a waiter receives what an owner produced.\<close>

definition local_initialize :: "life_call \<Rightarrow> string \<Rightarrow> initialized_session option life" where
  "local_initialize c key =
     lbind (await_for e_role) (\<lambda>role. case role of
       FlightReceived i \<Rightarrow> lret i
     | FlightOwner \<Rightarrow>
         lbind (initialize_session c) (\<lambda>i. lthen (store_initialized (c_ctx c) key i) (lret (Some i))))"

definition execute_fresh_lifecycle_with_local_singleflight ::
    "life_call \<Rightarrow> string \<Rightarrow> bool \<Rightarrow> tool_call_response life" where
  "execute_fresh_lifecycle_with_local_singleflight c key reinit =
     lbind (local_initialize c key) (\<lambda>i.
     (let version = (case i of Some x \<Rightarrow> i_protocol_version x | None \<Rightarrow> CLIENT_PROTOCOL_VERSION);
          sse = (case i of Some x \<Rightarrow> i_sse_used x | None \<Rightarrow> False) in
      lbind (call_tool_with_session c (Option.bind i i_session) version sse) (\<lambda>out.
        response_from_call_outcome (c_ctx c) key out False reinit)))"

section \<open>The guarded initialisation\<close>

datatype guard_role = GuardOwner | LoserAfterWait
datatype guard_step = UseCached | InitializeUnderHeldGuard | RetryGuardPath
datatype guarded_result = GuardReturn tool_call_response | GuardReinitialize

fun redis_initialize_guard_step :: "guard_role \<Rightarrow> bool \<Rightarrow> guard_step" where
  "redis_initialize_guard_step _ True = UseCached"
| "redis_initialize_guard_step GuardOwner False = InitializeUnderHeldGuard"
| "redis_initialize_guard_step LoserAfterWait False = RetryGuardPath"

definition call_cached_session_for_guard ::
    "life_call \<Rightarrow> string \<Rightarrow> mcp_session \<Rightarrow> bool \<Rightarrow> guarded_result life" where
  "call_cached_session_for_guard c key s reinit =
     lthen (set_protocol_version (negotiated_protocol_version s))
     (lbind (call_tool_with_session c (Some s) (negotiated_protocol_version s) False) (\<lambda>out.
      case out of
        CallResponse r \<Rightarrow>
          (let r' = mark_gateway_metadata True reinit r in
           lthen (refresh_session (c_ctx c) key s r') (lret (GuardReturn r')))
      | SessionExpired r \<Rightarrow> lthen (cache_delete (c_ctx c) key) (lret GuardReinitialize)
      | UnauthorizedOrForbidden r \<Rightarrow>
          lthen (cache_delete (c_ctx c) key) (lret (GuardReturn (mark_gateway_metadata True reinit r)))))"

text \<open>
  The lock is released on every path that ends, also after a failure: \<open>finally_release\<close>
  runs the program, ignores what the release says and gives the program's result. \<open>LockReleased\<close> is the release as it
  is sent; when Redis does not execute it the key lives until its TTL ends. Likewise a \<open>SET\<close> whose reply is lost is a
  \<open>LockError\<close> and no \<open>LockTaken\<close>, although the key may exist until its TTL ends.
\<close>

definition finally_release :: "string \<Rightarrow> 'a life \<Rightarrow> 'a life" where
  "finally_release uuid m = (\<lambda>e w. case m e w of
     (LElapsed, w') \<Rightarrow> (LElapsed, w')
   | (r, w') \<Rightarrow>
       (case (lthen (emit (LockReleased uuid)) await :: unit life) e w' of
          (LDone _, w2) \<Rightarrow> (r, w2)
        | (LFail _, w2) \<Rightarrow> (r, w2)
        | (LElapsed, w2) \<Rightarrow> (LElapsed, w2)))"

definition guard_owner :: "life_call \<Rightarrow> string \<Rightarrow> string \<Rightarrow> bool \<Rightarrow> tool_call_response life" where
  "guard_owner c key uuid reinit =
     lthen (emit (LockTaken uuid (c_lock_ttl_secs c)))
     (finally_release uuid
       (lbind (load_reusable_cached_session (c_ctx c) key) (\<lambda>cached.
         case redis_initialize_guard_step GuardOwner (cached \<noteq> None) of
           UseCached \<Rightarrow>
             lbind (call_cached_session_for_guard c key (the cached) reinit) (\<lambda>r. case r of
               GuardReturn response \<Rightarrow> lret response
             | GuardReinitialize \<Rightarrow> execute_fresh_lifecycle_once c key True)
         | _ \<Rightarrow> execute_fresh_lifecycle_once c key reinit)))"

text \<open>
  The loop of \<open>execute_fresh_lifecycle_guarded\<close>. Every round awaits, so that \<open>e_deadline\<close> many
  rounds are enough fuel; out of fuel the deadline has passed. The pause of 25 ms is one \<open>await\<close>.
\<close>

fun guard_loop :: "nat \<Rightarrow> life_call \<Rightarrow> string \<Rightarrow> bool \<Rightarrow> tool_call_response life" where
  "guard_loop 0 c key reinit = (\<lambda>e w. (LElapsed, w))"
| "guard_loop (Suc n) c key reinit =
     lbind (await_for e_lock) (\<lambda>lock. case lock of
       LockGranted uuid \<Rightarrow> guard_owner c key uuid reinit
     | LockError \<Rightarrow> execute_fresh_lifecycle_with_local_singleflight c key reinit
     | LockBusy \<Rightarrow>
         lthen await
         (lbind (load_reusable_cached_session (c_ctx c) key) (\<lambda>cached.
           case redis_initialize_guard_step LoserAfterWait (cached \<noteq> None) of
             UseCached \<Rightarrow>
               lbind (call_cached_session_for_guard c key (the cached) reinit) (\<lambda>r. case r of
                 GuardReturn response \<Rightarrow> lret response
               | GuardReinitialize \<Rightarrow> guard_loop n c key True)
           | _ \<Rightarrow> guard_loop n c key reinit)))"

definition execute_fresh_lifecycle_guarded :: "life_call \<Rightarrow> string \<Rightarrow> bool \<Rightarrow> tool_call_response life" where
  "execute_fresh_lifecycle_guarded c key reinit =
     (if \<not> has_redis (c_ctx c) then execute_fresh_lifecycle_with_local_singleflight c key reinit
      else (\<lambda>e. guard_loop (Suc (e_deadline e)) c key reinit e))"

section \<open>The lifecycle\<close>

definition execute_with_cached_session ::
    "life_call \<Rightarrow> string \<Rightarrow> mcp_session \<Rightarrow> bool \<Rightarrow> tool_call_response life" where
  "execute_with_cached_session c key s reinit =
     lthen (set_protocol_version (negotiated_protocol_version s))
     (lbind (call_tool_with_session c (Some s) (negotiated_protocol_version s) False) (\<lambda>out.
      case out of
        CallResponse r \<Rightarrow>
          (let r' = mark_gateway_metadata True reinit r in
           lthen (refresh_session (c_ctx c) key s r') (lret r'))
      | SessionExpired r \<Rightarrow>
          lthen (cache_delete (c_ctx c) key) (execute_fresh_lifecycle_guarded c key True)
      | UnauthorizedOrForbidden r \<Rightarrow>
          lthen (cache_delete (c_ctx c) key) (lret (mark_gateway_metadata True reinit r))))"

definition execute_lifecycle_inner :: "life_call \<Rightarrow> tool_call_response life" where
  "execute_lifecycle_inner c =
     (let key = session_key (c_ctx c) in
      lbind (load_reusable_cached_session (c_ctx c) key) (\<lambda>cached. case cached of
        Some s \<Rightarrow> execute_with_cached_session c key s False
      | None \<Rightarrow> execute_fresh_lifecycle_guarded c key False))"

definition sse_options_of :: "tool_ctx \<Rightarrow> nat \<Rightarrow> sse_read_options" where
  "sse_options_of ctx max_response_bytes =
     \<lparr>limits = \<lparr>max_total_bytes = max_response_bytes, max_event_bytes = mcp_sse_max_event_bytes ctx,
        max_line_bytes = mcp_sse_max_line_bytes ctx, max_events = mcp_sse_max_events ctx,
        max_batch_items = mcp_sse_max_batch_items ctx\<rparr>,
      idle_timeout_ms = max (mcp_sse_idle_timeout_ms ctx) 1\<rparr>"

definition run_lifecycle :: "life_call \<Rightarrow> life_env \<Rightarrow> tool_call_response \<times> life_world" where
  "run_lifecycle c e =
     (case execute_lifecycle_inner c e world0 of
        (LDone r, w) \<Rightarrow> (r, w)
      | (LFail f, w) \<Rightarrow> (failed_lifecycle_response c f (e_elapsed_ms e (w_awaits w)), w)
      | (LElapsed, w) \<Rightarrow> (lifecycle_timeout_response c w (e_elapsed_ms e (w_awaits w)), w))"

text \<open>
  \<open>execute_lifecycle_with_cache\<close>. \<open>client_ok\<close> says whether the HTTP client could be built;
  \<open>fresh_id\<close> is the simple form of a new UUID.
\<close>

definition execute_lifecycle_with_cache ::
    "url_parser \<Rightarrow> bool \<Rightarrow> string \<Rightarrow> tool_ctx \<Rightarrow> tool_target \<Rightarrow> tool_call_request \<Rightarrow> egress_policy
       \<Rightarrow> nat \<Rightarrow> nat \<Rightarrow> life_env \<Rightarrow> tool_execution_error + tool_call_response \<times> life_world" where
  "execute_lifecycle_with_cache url_parse client_ok fresh_id ctx target request egress default_timeout_ms
      max_response_bytes e =
     (if \<not> eq_ignore_ascii_case (target_method target) ''POST'' then Err ToolTargetUnavailable
      else case target_url target of
        None \<Rightarrow> Err ToolTargetUnavailable
      | Some u \<Rightarrow>
          if \<not> is_ok (validate_target_url url_parse u egress) then Err ToolTargetUnavailable
          else (case url_parse u of
             None \<Rightarrow> Err ToolTargetUnavailable
           | Some parsed \<Rightarrow>
               if \<not> http_scheme (scheme parsed) then Err ToolTargetUnavailable
               else if \<not> client_ok then Err ToolTargetUnavailable
               else Ok (run_lifecycle
                 \<lparr>c_ctx = ctx, c_target = target, c_request = request, c_url = parsed,
                  c_execution_id = (case req_tool_execution_id request of
                    Some i \<Rightarrow> i | None \<Rightarrow> ''exec_'' @ fresh_id),
                  c_max_response_bytes = max_response_bytes,
                  c_sse_options = sse_options_of ctx max_response_bytes,
                  c_lock_ttl_secs = session_lock_ttl_secs_for_timeout ctx
                    (effective_timeout_ms (target_timeout_ms target) (req_timeout_ms request)
                      default_timeout_ms)\<rparr> e)))"

end
