(* ===== verification/Mcp_Lifecycle_Props.thy ===== *)
theory Mcp_Lifecycle_Props
  imports Mcp_Lifecycle
begin

text \<open>
  What a lifecycle does whatever the server, the cache, the lock and the other callers answer.
  The contracts of the functions of \<open>Mcp_Lifecycle\<close> are stated in the logic of \<open>Agent_Io\<close>, with its
  three ways to end (result, failure, deadline), and follow the structure of the program.
\<close>

section \<open>What the trace must satisfy\<close>

definition tool_params :: "life_call \<Rightarrow> json" where
  "tool_params c = JObject [(''name'', JString (tool_id (c_target c))), (''arguments'', req_arguments (c_request c))]"

text \<open>A session that the context may use, apart from its expiry.\<close>

definition session_ok :: "tool_ctx \<Rightarrow> mcp_session \<Rightarrow> bool" where
  "session_ok ctx s \<longleftrightarrow> s_target_hash s = target_hash ctx \<and> s_auth_revision s = auth_revision ctx
     \<and> is_ok (validate_session_id (session_id s))
     \<and> is_ok (validate_supported_protocol_version (negotiated_protocol_version s))"

definition initialized_ok :: "tool_ctx \<Rightarrow> initialized_session \<Rightarrow> bool" where
  "initialized_ok ctx i \<longleftrightarrow> is_ok (validate_supported_protocol_version (i_protocol_version i))
     \<and> (case i_session i of Some s \<Rightarrow> session_ok ctx s | None \<Rightarrow> True)"

fun body_ok :: "life_call \<Rightarrow> rpc_body \<Rightarrow> string option \<Rightarrow> bool" where
  "body_ok c (RpcRequest rid meth params) sid \<longleftrightarrow>
     (if meth = ''tools/call'' then rid = c_execution_id c \<and> params = tool_params c
      else meth = ''initialize'' \<and> sid = None)"
| "body_ok c (RpcNotification meth) sid \<longleftrightarrow> meth = ''notifications/initialized''"

fun event_ok :: "life_call \<Rightarrow> life_event \<Rightarrow> bool" where
  "event_ok c (Posted u body sid version) \<longleftrightarrow>
     u = c_url c \<and> version \<in> set SUPPORTED_PROTOCOL_VERSIONS \<and> body_ok c body sid
     \<and> (case sid of Some s \<Rightarrow> is_ok (validate_session_id s) | None \<Rightarrow> True)"
| "event_ok c (Stored key s ttl) \<longleftrightarrow>
     key = session_key (c_ctx c) \<and> session_ok (c_ctx c) s \<and> ttl = mcp_session_cache_ttl_secs (c_ctx c)"
| "event_ok c (Deleted key) \<longleftrightarrow> key = session_key (c_ctx c)"
| "event_ok c (LockTaken uuid ttl) \<longleftrightarrow> ttl = c_lock_ttl_secs c"
| "event_ok c (Answered code) \<longleftrightarrow> True"
| "event_ok c (LockReleased uuid) \<longleftrightarrow> True"
| "event_ok c _ \<longleftrightarrow> False"

text \<open>
  Whether the tool may be called (again). \<open>Idle\<close>: it was not called, or the last call was answered
  404. \<open>Waiting\<close>: a call is not answered. \<open>Closed\<close>: the last call was answered otherwise. \<open>Bad\<close>:
  it was called in another state than \<open>Idle\<close>, or something was sent while an answer was due.
\<close>

datatype call_state = Idle | Waiting | CallClosed | Bad

fun is_tool_call :: "rpc_body \<Rightarrow> bool" where
  "is_tool_call (RpcRequest rid meth params) \<longleftrightarrow> meth = ''tools/call''"
| "is_tool_call (RpcNotification meth) \<longleftrightarrow> False"

fun next_state :: "call_state \<Rightarrow> life_event \<Rightarrow> call_state" where
  "next_state s (Posted u body sid v) =
     (if is_tool_call body then (if s = Idle then Waiting else Bad)
      else (if s = Waiting then Bad else s))"
| "next_state s (Answered code) =
     (if s = Waiting then (if code = 404 then Idle else CallClosed) else s)"
| "next_state s _ = s"

definition state_of :: "life_event list \<Rightarrow> call_state" where
  "state_of tr = foldl next_state Idle tr"

text \<open>The locks that the trace has taken and not released.\<close>

fun next_held :: "string list \<Rightarrow> life_event \<Rightarrow> string list" where
  "next_held h (LockTaken uuid ttl) = uuid # h"
| "next_held h (LockReleased uuid) = remove1 uuid h"
| "next_held h _ = h"

definition held :: "life_event list \<Rightarrow> string list" where
  "held tr = foldl next_held [] tr"

definition tr_inv :: "life_call \<Rightarrow> string list \<Rightarrow> call_state \<Rightarrow> life_world \<Rightarrow> bool" where
  "tr_inv c h s w \<longleftrightarrow> list_all (event_ok c) (w_trace w) \<and> state_of (w_trace w) = s \<and> held (w_trace w) = h"

definition fails :: "life_call \<Rightarrow> string list \<Rightarrow> life_world \<Rightarrow> bool" where
  "fails c h w \<longleftrightarrow> (\<exists>s. s \<noteq> Bad \<and> tr_inv c h s w)"

definition elapses :: "life_call \<Rightarrow> life_world \<Rightarrow> bool" where
  "elapses c w \<longleftrightarrow> (\<exists>h s. s \<noteq> Bad \<and> tr_inv c h s w)"

lemma tr_inv_simps [simp]:
  "tr_inv c h s (w\<lparr>w_awaits := n\<rparr>) = tr_inv c h s w" "tr_inv c h s (w\<lparr>w_version := v\<rparr>) = tr_inv c h s w"
  "tr_inv c h s (w\<lparr>w_sse := b\<rparr>) = tr_inv c h s w"
  by (simp_all add: tr_inv_def)

lemma tr_inv_emit:
  "tr_inv c h s w \<Longrightarrow> event_ok c ev
     \<Longrightarrow> tr_inv c (next_held h ev) (next_state s ev) (w\<lparr>w_trace := w_trace w @ [ev]\<rparr>)"
  by (simp add: tr_inv_def state_of_def held_def)

lemma tr_inv_ends: "tr_inv c h s w \<Longrightarrow> s \<noteq> Bad \<Longrightarrow> fails c h w" "tr_inv c h s w \<Longrightarrow> s \<noteq> Bad \<Longrightarrow> elapses c w"
  by (auto simp: fails_def elapses_def)

definition contract ::
    "life_env \<Rightarrow> life_call \<Rightarrow> string list \<Rightarrow> call_state \<Rightarrow> 'a life \<Rightarrow> ('a \<Rightarrow> bool) \<Rightarrow> ('a \<Rightarrow> call_state)
       \<Rightarrow> bool" where
  "contract e c h s m R s' \<longleftrightarrow>
     spec e (tr_inv c h s) m (\<lambda>x w. R x \<and> tr_inv c h (s' x) w) (fails c h) (elapses c)"

section \<open>The steps\<close>

lemma c_ret: "R x \<Longrightarrow> s' x = s \<Longrightarrow> contract e c h s (lret x) R s'"
  unfolding contract_def by (rule spec_ret) simp

lemma c_fail: "s \<noteq> Bad \<Longrightarrow> contract e c h s (lfail f) R s'"
  unfolding contract_def by (rule spec_fail) (rule tr_inv_ends)

lemma c_lift: "s \<noteq> Bad \<Longrightarrow> (\<And>x. r = Inr x \<Longrightarrow> R x) \<Longrightarrow> contract e c h s (lift g r) R (\<lambda>_. s)"
  unfolding contract_def by (rule spec_lift) (auto intro: tr_inv_ends)

lemma c_read: "(\<And>n. R (f e n)) \<Longrightarrow> contract e c h s (read_env f) R (\<lambda>_. s)"
  unfolding contract_def by (rule spec_read_env) simp

lemma c_await: "s \<noteq> Bad \<Longrightarrow> (\<And>n. R (f e n)) \<Longrightarrow> contract e c h s (await_for f) R (\<lambda>_. s)"
  unfolding contract_def by (rule spec_await_for) (auto intro: tr_inv_ends)

lemma c_set_version: "contract e c h s (set_protocol_version v) (\<lambda>_. True) (\<lambda>_. s)"
  by (simp add: contract_def spec_def set_protocol_version_def)

lemma c_mark_sse: "contract e c h s mark_sse_used (\<lambda>_. True) (\<lambda>_. s)"
  by (simp add: contract_def spec_def mark_sse_used_def)

lemma c_unit: "contract e c h s (lret ()) (\<lambda>_. True) (\<lambda>_. s)"
  by (simp add: contract_def spec_def lret_def)

lemma c_mark_if: "contract e c h s (if b then mark_sse_used else lret ()) (\<lambda>_. True) (\<lambda>_. s)"
  by (simp add: c_mark_sse c_unit)

lemma c_map_err: "contract e c h s m R s' \<Longrightarrow> contract e c h s (lmap_err g m) R s'"
  unfolding contract_def by (rule spec_map_err)

lemma c_if:
  "\<lbrakk>b \<Longrightarrow> contract e c h s m R s'; \<not> b \<Longrightarrow> contract e c h s n R s'\<rbrakk>
     \<Longrightarrow> contract e c h s (if b then m else n) R s'"
  by simp

lemma c_bind:
  "\<lbrakk>contract e c h s m R s'; \<And>x. R x \<Longrightarrow> contract e c h (s' x) (k x) R2 s2\<rbrakk>
     \<Longrightarrow> contract e c h s (lbind m k) R2 s2"
  unfolding contract_def by (rule spec_bind, assumption) (auto simp: spec_def)

lemma c_then:
  "\<lbrakk>contract e c h s m R (\<lambda>_. s1); contract e c h s1 n R2 s2\<rbrakk> \<Longrightarrow> contract e c h s (lthen m n) R2 s2"
  unfolding lthen_def by (rule c_bind)

lemma c_lift_bind:
  "\<lbrakk>s \<noteq> Bad; \<And>x. r = Inr x \<Longrightarrow> contract e c h s (k x) R s'\<rbrakk>
     \<Longrightarrow> contract e c h s (lbind (lift g r) k) R s'"
  by (rule c_bind [OF c_lift [where R = "\<lambda>x. r = Inr x"]]) auto

lemma c_lift_then:
  "\<lbrakk>s \<noteq> Bad; is_ok r \<Longrightarrow> contract e c h s n R s'\<rbrakk> \<Longrightarrow> contract e c h s (lthen (lift g r) n) R s'"
  unfolding lthen_def by (rule c_lift_bind) auto

lemma c_read_bind:
  "(\<And>n. contract e c h s (k (f e n)) R s') \<Longrightarrow> contract e c h s (lbind (read_env f) k) R s'"
  by (rule c_bind [OF c_read [where R = "\<lambda>x. \<exists>n. x = f e n"]]) auto

lemma c_await_bind:
  "\<lbrakk>s \<noteq> Bad; \<And>n. contract e c h s (k (f e n)) R s'\<rbrakk> \<Longrightarrow> contract e c h s (lbind (await_for f) k) R s'"
  by (rule c_bind [OF c_await [where R = "\<lambda>x. \<exists>n. x = f e n"]]) auto

lemma c_weaken: "contract e c h s m R s' \<Longrightarrow> (\<And>x. R x \<Longrightarrow> R2 x) \<Longrightarrow> contract e c h s m R2 s'"
  unfolding contract_def by (erule spec_conseq) auto

lemma c_emit:
  "\<lbrakk>event_ok c ev; next_held h ev = h; next_state s ev = s'\<rbrakk>
     \<Longrightarrow> contract e c h s (emit ev) (\<lambda>_. True) (\<lambda>_. s')"
  unfolding contract_def by (rule spec_emit) (metis tr_inv_emit)

lemma c_store:
  assumes "s \<noteq> Bad" and "session_ok (c_ctx c) sess"
  shows "contract e c h s (cache_store (c_ctx c) (session_key (c_ctx c)) sess
    (mcp_session_cache_ttl_secs (c_ctx c))) (\<lambda>_. True) (\<lambda>_. s)"
  unfolding cache_store_def await_def using assms
  by (auto intro!: c_then c_emit c_await c_ret)

lemma c_delete:
  "s \<noteq> Bad \<Longrightarrow> contract e c h s (cache_delete (c_ctx c) (session_key (c_ctx c))) (\<lambda>_. True) (\<lambda>_. s)"
  unfolding cache_delete_def await_def by (auto intro!: c_then c_emit c_await c_ret)

section \<open>Contracts of the functions\<close>

text \<open>The output of a completed call is the result of the answer the server gave under the call's id.\<close>

definition from_server :: "life_call \<Rightarrow> life_env \<Rightarrow> json \<Rightarrow> bool" where
  "from_server c e out \<longleftrightarrow> (\<exists>n resp t. e_http e n = Responded resp \<and> status_success (http_status_code resp)
     \<and> read_json_rpc_response (e_parse e) (e_call_value e) (e_call_slice e) (http_body resp) (c_execution_id c)
         (c_max_response_bytes c) (c_sse_options c) = Ok t
     \<and> is_ok (validate_json_rpc_envelope (resp_value t) (c_execution_id c))
     \<and> rpc_error (resp_value t) = None \<and> rpc_result (resp_value t) = Some out)"

definition resp_ok :: "life_call \<Rightarrow> life_env \<Rightarrow> tool_call_response \<Rightarrow> bool" where
  "resp_ok c e r \<longleftrightarrow> fair_billing (c_target c) r \<and> dedupe_key (billing r) = c_execution_id c
     \<and> (status r = Completed \<longrightarrow> from_server c e (tool_output r))"

fun outcome_response :: "call_tool_outcome \<Rightarrow> tool_call_response" where
  "outcome_response (CallResponse r) = r"
| "outcome_response (SessionExpired r) = r"
| "outcome_response (UnauthorizedOrForbidden r) = r"

fun outcome_state :: "call_tool_outcome \<Rightarrow> call_state" where
  "outcome_state (SessionExpired r) = Idle"
| "outcome_state _ = CallClosed"

lemma resp_ok_failed: "resp_ok c e (failed_response c code message retryable version sse ms)"
  by (simp add: resp_ok_def fair_billing_def failed_response_def Let_def)

lemma resp_ok_completed:
  "from_server c e out \<Longrightarrow> resp_ok c e (completed_response c out version sse ms)"
  by (simp add: resp_ok_def fair_billing_def completed_response_def Let_def)

lemma resp_ok_mark [simp]: "resp_ok c e (mark_gateway_metadata hit reinit r) = resp_ok c e r"
  by (simp add: resp_ok_def fair_billing_def mark_gateway_metadata_def)

lemma supported_version:
  "is_ok (validate_supported_protocol_version v) \<longleftrightarrow> v \<in> set SUPPORTED_PROTOCOL_VERSIONS"
  by (auto simp: validate_supported_protocol_version_def is_ok_def split: if_splits)

lemma client_version: "CLIENT_PROTOCOL_VERSION \<in> set SUPPORTED_PROTOCOL_VERSIONS"
  by (simp add: SUPPORTED_PROTOCOL_VERSIONS_def)

lemma c_post:
  assumes "event_ok c (Posted u body sid version)" and s: "s \<noteq> Bad"
    and "next_state s (Posted u body sid version) = s1" and s1: "s1 \<noteq> Bad"
  shows "contract e c h s (post_json_rpc u body sid version) (\<lambda>resp. \<exists>n. e_http e n = Responded resp)
    (\<lambda>resp. next_state s1 (Answered (http_status_code resp)))"
  unfolding post_json_rpc_def
  apply (intro c_if c_fail s)
  apply (rule c_then [OF c_emit [OF assms(1) _ assms(3)]], simp)
  using s1 by (auto split: http_result.split intro!: c_await_bind c_fail c_then [OF c_emit] c_ret simp del: next_state.simps)

lemma c_post_plain:
  assumes "event_ok c (Posted u body sid version)" and "\<not> is_tool_call body"
  shows "contract e c h Idle (post_json_rpc u body sid version) (\<lambda>resp. \<exists>n. e_http e n = Responded resp)
    (\<lambda>_. Idle)"
  using c_post [OF assms(1), of Idle Idle e h] assms(2) by simp

lemma c_post_call:
  assumes "event_ok c (Posted u body sid version)" and "is_tool_call body"
  shows "contract e c h Idle (post_json_rpc u body sid version) (\<lambda>resp. \<exists>n. e_http e n = Responded resp)
    (\<lambda>resp. if http_status_code resp = 404 then Idle else CallClosed)"
  using c_post [OF assms(1), of Idle Waiting e h] assms(2) by simp

lemma c_send_initialized:
  assumes "sid \<noteq> None \<Longrightarrow> is_ok (validate_session_id (the sid))" and "version \<in> set SUPPORTED_PROTOCOL_VERSIONS"
  shows "contract e c h Idle (send_initialized (c_url c) sid version) (\<lambda>_. True) (\<lambda>_. Idle)"
  unfolding send_initialized_def using assms
  by (intro c_bind [OF c_post_plain] c_if c_fail c_ret) (auto split: option.split)

lemma session_id_from_headers_ok:
  "session_id_from_headers headers = Ok sid \<Longrightarrow> sid \<noteq> None \<Longrightarrow> is_ok (validate_session_id (the sid))"
  by (auto simp: session_id_from_headers_def split: option.splits if_splits)

lemma initialized_ok_new:
  "\<lbrakk>init_protocol_version result \<in> set SUPPORTED_PROTOCOL_VERSIONS;
    sid \<noteq> None \<Longrightarrow> is_ok (validate_session_id (the sid))\<rbrakk>
   \<Longrightarrow> initialized_ok (c_ctx c) \<lparr>i_session = map_option (new_session (c_ctx c) result now) sid,
      i_protocol_version = init_protocol_version result, i_sse_used = sse\<rparr>"
  by (auto simp: initialized_ok_def session_ok_def new_session_def supported_version split: option.split)

lemma c_finish_initialize:
  "contract e c h Idle (finish_initialize c rid t) (initialized_ok (c_ctx c)) (\<lambda>_. Idle)"
  unfolding finish_initialize_def Let_def
  by (auto simp: supported_version split: option.split
      intro!: c_lift_then c_lift_bind c_fail c_then [OF c_set_version] c_read_bind c_ret initialized_ok_new
        c_then [OF c_map_err [OF c_send_initialized]]
      dest: session_id_from_headers_ok)

lemma c_initialize_session:
  "contract e c h Idle (initialize_session c) (initialized_ok (c_ctx c)) (\<lambda>_. Idle)"
  unfolding initialize_session_def Let_def read_init_response_def
  by (auto simp: client_version
      intro!: c_read_bind c_bind [OF c_post_plain] c_if c_fail c_then [OF c_mark_if] c_await_bind
        c_lift_bind c_finish_initialize)

lemma from_serverI:
  "\<lbrakk>e_http e n = Responded resp; status_success (http_status_code resp);
    read_json_rpc_response (e_parse e) (e_call_value e) (e_call_slice e) (http_body resp) (c_execution_id c)
      (c_max_response_bytes c) (c_sse_options c) = Ok t;
    is_ok (validate_json_rpc_envelope (resp_value t) (c_execution_id c));
    rpc_error (resp_value t) = None; rpc_result (resp_value t) = Some out\<rbrakk> \<Longrightarrow> from_server c e out"
  unfolding from_server_def by blast

lemma c_finish_call:
  assumes "e_http e n = Responded resp" and "status_success (http_status_code resp)"
    and "read_json_rpc_response (e_parse e) (e_call_value e) (e_call_slice e) (http_body resp) (c_execution_id c)
         (c_max_response_bytes c) (c_sse_options c) = Ok t"
  shows "contract e c h CallClosed (finish_call c version sse t) (\<lambda>out. resp_ok c e (outcome_response out)) outcome_state"
  unfolding finish_call_def Let_def using assms
  by (auto simp: ok_or_def split: option.splits
      intro!: c_lift_then c_lift_bind c_fail c_read_bind c_ret resp_ok_completed intro: from_serverI)

lemma c_call_tool:
  assumes "session \<noteq> None \<Longrightarrow> is_ok (validate_session_id (session_id (the session)))"
    and "version \<in> set SUPPORTED_PROTOCOL_VERSIONS"
  shows "contract e c h Idle (call_tool_with_session c session version sse)
    (\<lambda>out. resp_ok c e (outcome_response out)) outcome_state"
  unfolding call_tool_with_session_def Let_def read_call_response_def
  apply (rule c_bind [OF c_post_call])
  using assms apply (auto simp: tool_params_def split: option.split) [1]
   apply simp
  apply (erule exE)
  subgoal for resp n
    apply (cases "http_status_code resp = 404")
    by (auto simp: status_success_def resp_ok_failed
        intro!: c_read_bind c_ret c_then [OF c_mark_sse] c_then [OF c_unit] c_await_bind c_lift_bind c_finish_call)
  done

lemma c_load_reusable:
  assumes "s \<noteq> Bad"
  shows "contract e c h s (load_reusable_cached_session (c_ctx c) (session_key (c_ctx c)))
    (\<lambda>r. r \<noteq> None \<longrightarrow> session_ok (c_ctx c) (the r)) (\<lambda>_. s)"
proof -
  have load: "contract e c h s (cache_load (c_ctx c)) (\<lambda>_. True) (\<lambda>_. s)"
    unfolding cache_load_def using assms by (intro c_if c_await c_ret) simp_all
  show ?thesis
    unfolding load_reusable_cached_session_def using assms
    by (auto split: option.split simp: should_evict_session_def session_ok_def
        intro!: c_bind [OF load] c_ret c_read_bind c_if c_then [OF c_delete])
qed

lemma c_refresh:
  assumes "session_ok (c_ctx c) sess" and "s \<noteq> Bad"
  shows "contract e c h s (refresh_session (c_ctx c) (session_key (c_ctx c)) sess r) (\<lambda>_. True) (\<lambda>_. s)"
  unfolding refresh_session_def using assms
  by (auto simp: session_ok_def refreshed_def intro!: c_if c_read_bind c_store c_unit)

lemma c_store_initialized:
  assumes "initialized_ok (c_ctx c) i" and "s \<noteq> Bad"
  shows "contract e c h s (store_initialized (c_ctx c) (session_key (c_ctx c)) i) (\<lambda>_. True) (\<lambda>_. s)"
  unfolding store_initialized_def using assms
  by (auto simp: initialized_ok_def split: option.splits intro!: c_store c_unit)

text \<open>Where a lifecycle ends the state is forgotten.\<close>

definition final :: "life_env \<Rightarrow> life_call \<Rightarrow> string list \<Rightarrow> call_state \<Rightarrow> 'a life \<Rightarrow> ('a \<Rightarrow> bool) \<Rightarrow> bool" where
  "final e c h s m R \<longleftrightarrow>
     spec e (tr_inv c h s) m (\<lambda>x w. R x \<and> fails c h w) (fails c h) (elapses c)"

lemma f_ret: "R x \<Longrightarrow> s \<noteq> Bad \<Longrightarrow> final e c h s (lret x) R"
  unfolding final_def by (rule spec_ret) (auto intro: tr_inv_ends)

lemma f_bind:
  "\<lbrakk>contract e c h s m R s'; \<And>x. R x \<Longrightarrow> final e c h (s' x) (k x) R2\<rbrakk> \<Longrightarrow> final e c h s (lbind m k) R2"
  unfolding contract_def final_def by (rule spec_bind, assumption) (auto simp: spec_def)

lemma f_then:
  "\<lbrakk>contract e c h s m R (\<lambda>_. s1); final e c h s1 n R2\<rbrakk> \<Longrightarrow> final e c h s (lthen m n) R2"
  unfolding lthen_def by (rule f_bind)

lemma f_await_bind:
  "\<lbrakk>s \<noteq> Bad; \<And>n. final e c h s (k (f e n)) R\<rbrakk> \<Longrightarrow> final e c h s (lbind (await_for f) k) R"
  by (rule f_bind [OF c_await [where R = "\<lambda>x. \<exists>n. x = f e n"]]) auto

lemma outcome_state_good [simp]: "outcome_state out \<noteq> Bad"
  by (cases out) simp_all

lemma f_from_outcome:
  "resp_ok c e (outcome_response out)
   \<Longrightarrow> final e c h (outcome_state out) (response_from_call_outcome (c_ctx c) (session_key (c_ctx c)) out hit reinit)
     (resp_ok c e)"
  unfolding response_from_call_outcome_def
  by (cases out) (auto intro!: f_ret f_then [OF c_delete])

lemma initialized_session_ok:
  "initialized_ok ctx i \<Longrightarrow> i_session i = Some s \<Longrightarrow> is_ok (validate_session_id (session_id s))"
  "initialized_ok ctx i \<Longrightarrow> i_protocol_version i \<in> set SUPPORTED_PROTOCOL_VERSIONS"
  by (auto simp: initialized_ok_def session_ok_def supported_version)

lemma f_fresh_once:
  "final e c h Idle (execute_fresh_lifecycle_once c (session_key (c_ctx c)) reinit) (resp_ok c e)"
  unfolding execute_fresh_lifecycle_once_def
  by (auto intro!: f_bind [OF c_initialize_session] f_then [OF c_store_initialized] f_bind [OF c_call_tool]
      f_from_outcome intro: initialized_session_ok)

text \<open>What an owner of a local flight hands to the callers that wait for it.\<close>

definition flights_ok :: "life_call \<Rightarrow> life_env \<Rightarrow> bool" where
  "flights_ok c e \<longleftrightarrow> (\<forall>n i. e_role e n = FlightReceived (Some i) \<longrightarrow> initialized_ok (c_ctx c) i)"

lemma c_local_initialize:
  assumes "flights_ok c e"
  shows "contract e c h Idle (local_initialize c (session_key (c_ctx c)))
    (\<lambda>i. i \<noteq> None \<longrightarrow> initialized_ok (c_ctx c) (the i)) (\<lambda>_. Idle)"
  unfolding local_initialize_def using assms
  by (auto simp: flights_ok_def split: flight_role.split
      intro!: c_await_bind c_ret c_bind [OF c_initialize_session] c_then [OF c_store_initialized])

lemma f_local_singleflight:
  assumes "flights_ok c e"
  shows "final e c h Idle (execute_fresh_lifecycle_with_local_singleflight c (session_key (c_ctx c)) reinit)
    (resp_ok c e)"
  unfolding execute_fresh_lifecycle_with_local_singleflight_def Let_def
  apply (rule f_bind [OF c_local_initialize [OF assms]])
  subgoal for i
    by (cases i) (auto simp: client_version intro!: f_bind [OF c_call_tool] f_from_outcome
        intro: initialized_session_ok)
  done

fun guarded_ok :: "life_call \<Rightarrow> life_env \<Rightarrow> guarded_result \<Rightarrow> bool" where
  "guarded_ok c e (GuardReturn r) \<longleftrightarrow> resp_ok c e r"
| "guarded_ok c e GuardReinitialize \<longleftrightarrow> True"

fun guarded_state :: "guarded_result \<Rightarrow> call_state" where
  "guarded_state (GuardReturn r) = CallClosed"
| "guarded_state GuardReinitialize = Idle"

lemma session_call_ok:
  assumes "session_ok ctx s"
  shows "is_ok (validate_session_id (session_id s))"
    and "negotiated_protocol_version s \<in> set SUPPORTED_PROTOCOL_VERSIONS"
  using assms by (simp_all add: session_ok_def supported_version)

lemma c_call_cached:
  assumes "session_ok (c_ctx c) s"
  shows "contract e c h Idle (call_cached_session_for_guard c (session_key (c_ctx c)) s reinit)
    (guarded_ok c e) guarded_state"
  unfolding call_cached_session_for_guard_def Let_def using assms session_call_ok [OF assms]
  by (auto split: call_tool_outcome.split
      intro!: c_then [OF c_set_version] c_bind [OF c_call_tool] c_then [OF c_refresh] c_then [OF c_delete] c_ret)

section \<open>The lock and the whole lifecycle\<close>

lemma f_finally:
  assumes "final e c [uuid] s m R"
  shows "spec e (tr_inv c [uuid] s) (finally_release uuid m) (\<lambda>x w. R x \<and> fails c [] w) (fails c [])
    (elapses c)"
proof -
  have rel: "case (lthen (emit (LockReleased uuid)) await :: unit life) e w of
      (LElapsed, w2) \<Rightarrow> elapses c w2 | (_, w2) \<Rightarrow> fails c [] w2" if w: "fails c [uuid] w" for w
  proof -
    from w obtain t where t: "t \<noteq> Bad" "tr_inv c [uuid] t w" unfolding fails_def by blast
    have "tr_inv c [] t (w\<lparr>w_trace := w_trace w @ [LockReleased uuid]\<rparr>)"
      using tr_inv_emit [OF t(2), of "LockReleased uuid"] by simp
    then show ?thesis
      using t(1) by (auto simp: lthen_def lbind_def emit_def await_def await_for_def intro: tr_inv_ends)
  qed
  show ?thesis
    unfolding spec_def
  proof (intro allI impI)
    fix w assume w: "tr_inv c [uuid] s w"
    obtain r w' where m: "m e w = (r, w')" by (cases "m e w")
    have "case r of LDone x \<Rightarrow> R x \<and> fails c [uuid] w' | LFail f \<Rightarrow> fails c [uuid] w' | LElapsed \<Rightarrow> elapses c w'"
      using assms w m by (auto simp: final_def spec_def split: outcome.splits)
    then show "case finally_release uuid m e w of
        (LDone x, w') \<Rightarrow> R x \<and> fails c [] w' | (LFail f, w') \<Rightarrow> fails c [] w' | (LElapsed, w') \<Rightarrow> elapses c w'"
      using rel [of w'] by (cases r) (simp_all add: finally_release_def m split: prod.splits outcome.splits)
  qed
qed

lemma f_owner_body:
  "final e c h Idle
     (lbind (load_reusable_cached_session (c_ctx c) (session_key (c_ctx c))) (\<lambda>cached.
       case redis_initialize_guard_step GuardOwner (cached \<noteq> None) of
         UseCached \<Rightarrow>
           lbind (call_cached_session_for_guard c (session_key (c_ctx c)) (the cached) reinit) (\<lambda>r. case r of
             GuardReturn response \<Rightarrow> lret response
           | GuardReinitialize \<Rightarrow> execute_fresh_lifecycle_once c (session_key (c_ctx c)) True)
       | _ \<Rightarrow> execute_fresh_lifecycle_once c (session_key (c_ctx c)) reinit)) (resp_ok c e)"
  apply (rule f_bind [OF c_load_reusable], simp)
  subgoal for cached
    by (cases cached) (auto split: guarded_result.split intro!: f_bind [OF c_call_cached] f_ret f_fresh_once)
  done

lemma f_guard_owner:
  "final e c [] Idle (guard_owner c (session_key (c_ctx c)) uuid reinit) (resp_ok c e)"
  unfolding guard_owner_def final_def
  apply (rule spec_then)
   apply (rule spec_emit [where Q = "\<lambda>_. tr_inv c [uuid] Idle"])
   apply (drule tr_inv_emit [where ev = "LockTaken uuid (c_lock_ttl_secs c)"], simp, simp)
  by (rule f_finally [OF f_owner_body])

lemma f_guard_loop:
  assumes "flights_ok c e"
  shows "final e c [] Idle (guard_loop n c (session_key (c_ctx c)) reinit) (resp_ok c e)"
proof (induction n arbitrary: reinit)
  case 0
  show ?case by (auto simp: final_def spec_def intro: tr_inv_ends)
next
  case (Suc n)
  have busy: "final e c [] Idle (lthen await
     (lbind (load_reusable_cached_session (c_ctx c) (session_key (c_ctx c))) (\<lambda>cached.
       case redis_initialize_guard_step LoserAfterWait (cached \<noteq> None) of
         UseCached \<Rightarrow>
           lbind (call_cached_session_for_guard c (session_key (c_ctx c)) (the cached) reinit) (\<lambda>r. case r of
             GuardReturn response \<Rightarrow> lret response
           | GuardReinitialize \<Rightarrow> guard_loop n c (session_key (c_ctx c)) True)
       | _ \<Rightarrow> guard_loop n c (session_key (c_ctx c)) reinit))) (resp_ok c e)"
    unfolding await_def
    apply (rule f_then [OF c_await [where R = "\<lambda>_. True"]], simp, simp)
    apply (rule f_bind [OF c_load_reusable], simp)
    subgoal for cached
      by (cases cached) (auto split: guarded_result.split intro!: f_bind [OF c_call_cached] f_ret Suc.IH)
    done
  show ?case
    unfolding guard_loop.simps
    by (rule f_await_bind, simp, split lock_reply.split, intro conjI allI impI)
      (rule f_guard_owner busy f_local_singleflight [OF assms])+
qed

lemma f_guarded:
  assumes "flights_ok c e"
  shows "final e c [] Idle (execute_fresh_lifecycle_guarded c (session_key (c_ctx c)) reinit) (resp_ok c e)"
  using f_local_singleflight [OF assms] f_guard_loop [OF assms]
  unfolding execute_fresh_lifecycle_guarded_def by (simp add: final_def spec_def del: guard_loop.simps)

lemma f_with_cached:
  assumes "flights_ok c e" and "session_ok (c_ctx c) s"
  shows "final e c [] Idle (execute_with_cached_session c (session_key (c_ctx c)) s reinit) (resp_ok c e)"
  unfolding execute_with_cached_session_def Let_def using assms(2) session_call_ok [OF assms(2)]
  by (auto split: call_tool_outcome.split
      intro!: f_then [OF c_set_version] f_bind [OF c_call_tool] f_then [OF c_refresh] f_then [OF c_delete] f_ret
        f_guarded [OF assms(1)])

lemma f_inner:
  assumes "flights_ok c e"
  shows "final e c [] Idle (execute_lifecycle_inner c) (resp_ok c e)"
  unfolding execute_lifecycle_inner_def Let_def
  by (rule f_bind [OF c_load_reusable])
    (auto split: option.split intro!: f_guarded [OF assms] f_with_cached [OF assms])

lemma tr_inv_world0: "tr_inv c [] Idle world0"
  by (simp add: tr_inv_def world0_def state_of_def held_def)

lemma inner_ends:
  assumes "flights_ok c e" and "execute_lifecycle_inner c e world0 = (r, w)"
  shows "list_all (event_ok c) (w_trace w)" "state_of (w_trace w) \<noteq> Bad"
    "r \<noteq> LElapsed \<Longrightarrow> held (w_trace w) = []" "r = LDone x \<Longrightarrow> resp_ok c e x"
  using f_inner [OF assms(1)] tr_inv_world0 [of c] assms(2) unfolding final_def spec_def
  by (fastforce simp: fails_def elapses_def tr_inv_def split: outcome.splits)+

section \<open>The deadline\<close>

text \<open>A step that ends by the deadline has used up the awaits, and no step takes awaits back.\<close>

definition timely :: "life_env \<Rightarrow> 'a life \<Rightarrow> bool" where
  "timely e m \<longleftrightarrow> (\<forall>a. spec e (\<lambda>w. a \<le> w_awaits w) m (\<lambda>_ w. a \<le> w_awaits w) (\<lambda>w. a \<le> w_awaits w)
     (\<lambda>w. e_deadline e \<le> w_awaits w))"

lemma t_bind [life_rules]: "timely e m \<Longrightarrow> (\<And>x. timely e (k x)) \<Longrightarrow> timely e (lbind m k)"
  unfolding timely_def by (blast intro: spec_bind)

lemma t_then [life_rules]: "timely e m \<Longrightarrow> timely e n \<Longrightarrow> timely e (lthen m n)"
  unfolding lthen_def by (rule t_bind)

lemma t_steps [life_rules]:
  "timely e (lret x)" "timely e (lfail f)" "timely e (emit ev)" "timely e (read_env g)" "timely e (await_for g)"
  "timely e (set_protocol_version v)" "timely e mark_sse_used" "timely e await"
  by (simp_all add: timely_def spec_def lret_def lfail_def emit_def read_env_def await_for_def await_def
      set_protocol_version_def mark_sse_used_def)

lemma t_lift [life_rules]: "timely e (lift g r)"
  by (cases r) (simp_all add: lift_def t_steps)

lemma t_map_err [life_rules]: "timely e m \<Longrightarrow> timely e (lmap_err g m)"
  unfolding timely_def by (blast intro: spec_map_err)

lemma t_cases [life_rules]:
  "(b \<Longrightarrow> timely e m) \<Longrightarrow> (\<not> b \<Longrightarrow> timely e n) \<Longrightarrow> timely e (if b then m else n)"
  "timely e m \<Longrightarrow> (\<And>x. timely e (k0 x)) \<Longrightarrow> timely e (case opt of None \<Rightarrow> m | Some x \<Rightarrow> k0 x)"
  "\<lbrakk>timely e m; timely e n; \<And>x. timely e (k x)\<rbrakk>
     \<Longrightarrow> timely e (case res of SendTimeout \<Rightarrow> m | SendFailed \<Rightarrow> n | Responded x \<Rightarrow> k x)"
  "\<lbrakk>timely e m; \<And>x. timely e (p x)\<rbrakk> \<Longrightarrow> timely e (case role of FlightOwner \<Rightarrow> m | FlightReceived x \<Rightarrow> p x)"
  "\<lbrakk>\<And>x. timely e (q x); timely e m; timely e n\<rbrakk>
     \<Longrightarrow> timely e (case lock of LockGranted x \<Rightarrow> q x | LockBusy \<Rightarrow> m | LockError \<Rightarrow> n)"
  "\<lbrakk>\<And>x. timely e (r x); \<And>x. timely e (r1 x); \<And>x. timely e (r2 x)\<rbrakk>
     \<Longrightarrow> timely e (case out of CallResponse x \<Rightarrow> r x | SessionExpired x \<Rightarrow> r1 x | UnauthorizedOrForbidden x \<Rightarrow> r2 x)"
  "\<lbrakk>\<And>x. timely e (r3 x); timely e m\<rbrakk> \<Longrightarrow> timely e (case gr of GuardReturn x \<Rightarrow> r3 x | GuardReinitialize \<Rightarrow> m)"
  "\<lbrakk>timely e m; timely e n; timely e p'\<rbrakk>
     \<Longrightarrow> timely e (case st of UseCached \<Rightarrow> m | InitializeUnderHeldGuard \<Rightarrow> n | RetryGuardPath \<Rightarrow> p')"
  by (simp_all split: option.split http_result.split flight_role.split lock_reply.split call_tool_outcome.split
      guarded_result.split guard_step.split)

lemma t_finally [life_rules]:
  assumes "timely e m"
  shows "timely e (finally_release uuid m)"
  using assms unfolding timely_def spec_def finally_release_def lthen_def lbind_def emit_def await_def await_for_def
  by (fastforce split: prod.splits outcome.splits if_splits)

lemma t_post [life_rules]: "timely e (post_json_rpc u body sid version)"
  unfolding post_json_rpc_def by (intro life_rules)

lemma t_initialize [life_rules]: "timely e (initialize_session c)"
  unfolding initialize_session_def finish_initialize_def send_initialized_def read_init_response_def Let_def
  by (intro life_rules)

lemma t_call [life_rules]: "timely e (call_tool_with_session c session version sse)"
  unfolding call_tool_with_session_def finish_call_def read_call_response_def Let_def
  by (intro life_rules)

lemma t_cache [life_rules]:
  "timely e (cache_delete ctx key)" "timely e (cache_store ctx key s ttl)" "timely e (refresh_session ctx key s r)"
  "timely e (load_reusable_cached_session ctx key)" "timely e (store_initialized ctx key i)"
  "timely e (response_from_call_outcome ctx key out hit reinit)"
  unfolding cache_delete_def cache_store_def refresh_session_def load_reusable_cached_session_def cache_load_def
    store_initialized_def response_from_call_outcome_def
  by (intro life_rules)+

lemma t_fresh [life_rules]:
  "timely e (execute_fresh_lifecycle_once c key reinit)"
  "timely e (execute_fresh_lifecycle_with_local_singleflight c key reinit)"
  "timely e (call_cached_session_for_guard c key s reinit)"
  unfolding execute_fresh_lifecycle_once_def execute_fresh_lifecycle_with_local_singleflight_def
    local_initialize_def call_cached_session_for_guard_def Let_def
  by (intro life_rules)+

lemma t_owner [life_rules]: "timely e (guard_owner c key uuid reinit)"
  unfolding guard_owner_def by (intro life_rules)

text \<open>A round of the guard loop awaits the lock, so \<open>n\<close> rounds reach a deadline \<open>n\<close> awaits away.\<close>

definition late :: "life_env \<Rightarrow> nat \<Rightarrow> 'a life \<Rightarrow> bool" where
  "late e a m \<longleftrightarrow> spec e (\<lambda>w. a \<le> w_awaits w) m (\<lambda>_ _. True) (\<lambda>_. True) (\<lambda>w. e_deadline e \<le> w_awaits w)"

lemma late_timely: "timely e m \<Longrightarrow> late e a m"
  unfolding timely_def late_def by (blast intro: spec_conseq)

lemma late_bind:
  assumes "timely e m" and "\<And>x. late e a (k x)"
  shows "late e a (lbind m k)"
proof -
  have "spec e (\<lambda>w. a \<le> w_awaits w) m (\<lambda>_ w. a \<le> w_awaits w) (\<lambda>_. True) (\<lambda>w. e_deadline e \<le> w_awaits w)"
    using assms(1) unfolding timely_def by (blast intro: spec_conseq)
  then show ?thesis using assms(2) unfolding late_def by (rule spec_bind)
qed

lemma late_await_bind:
  assumes "\<And>x. late e (Suc a) (k x)"
  shows "late e a (lbind (await_for f) k)"
proof -
  have "spec e (\<lambda>w. a \<le> w_awaits w) (await_for f) (\<lambda>_ w. Suc a \<le> w_awaits w) (\<lambda>_. True)
      (\<lambda>w. e_deadline e \<le> w_awaits w)"
    by (simp add: spec_def await_for_def)
  then show ?thesis using assms unfolding late_def by (rule spec_bind)
qed

lemma late_guard_loop: "late e (Suc (e_deadline e) - n) (guard_loop n c key reinit)"
proof (induction n arbitrary: reinit)
  case 0
  show ?case by (simp add: late_def spec_def)
next
  case (Suc n)
  have rest: "late e (Suc (Suc (e_deadline e) - Suc n)) (guard_loop n c key r)" for r
  proof (cases "n \<le> e_deadline e")
    case True
    then have "Suc (Suc (e_deadline e) - Suc n) = Suc (e_deadline e) - n" by simp
    then show ?thesis using Suc.IH by simp
  next
    case False
    then show ?thesis using Suc.IH [of r] by (simp add: late_def spec_def)
  qed
  show ?case
    unfolding guard_loop.simps
    apply (rule late_await_bind, split lock_reply.split, intro conjI allI impI)
      apply (rule late_timely, rule t_owner)
     apply (unfold lthen_def, rule late_bind, rule t_steps, rule late_bind, rule t_cache)
     apply (split guard_step.split, intro conjI impI rest)
     apply (rule late_bind, rule t_fresh, split guarded_result.split, intro conjI allI impI rest)
     apply (rule late_timely, rule t_steps)
    apply (rule late_timely, rule t_fresh)
    done
qed

lemma t_guarded: "late e 0 (execute_fresh_lifecycle_guarded c key reinit)"
  using late_guard_loop [of e "Suc (e_deadline e)" c key reinit] late_timely [OF t_fresh(2), of e 0 c key reinit]
  unfolding execute_fresh_lifecycle_guarded_def late_def spec_def by (simp del: guard_loop.simps)

lemma t_inner: "late e 0 (execute_lifecycle_inner c)"
  unfolding execute_lifecycle_inner_def execute_with_cached_session_def Let_def lthen_def
  by (intro late_bind life_rules; (split option.split call_tool_outcome.split)?; intro conjI allI impI
      late_bind t_guarded life_rules; (split call_tool_outcome.split)?; intro conjI allI impI
      late_bind t_guarded life_rules; (rule late_timely)?; (intro life_rules)?)

section \<open>Reading the trace\<close>

lemma foldl_bad [simp]: "foldl next_state Bad tr = Bad"
proof (induction tr)
  case (Cons ev tr)
  have "next_state Bad ev = Bad" by (cases ev) simp_all
  then show ?case using Cons.IH by simp
qed simp

fun posts_call :: "life_event \<Rightarrow> bool" where
  "posts_call (Posted u body sid v) \<longleftrightarrow> is_tool_call body"
| "posts_call _ \<longleftrightarrow> False"

fun sends_or_answers :: "life_event \<Rightarrow> bool" where
  "sends_or_answers (Posted u body sid v) \<longleftrightarrow> True"
| "sends_or_answers (Answered code) \<longleftrightarrow> True"
| "sends_or_answers _ \<longleftrightarrow> False"

lemma closed_no_call: "foldl next_state CallClosed tr \<noteq> Bad \<Longrightarrow> \<not> list_ex posts_call tr"
proof (induction tr)
  case (Cons ev tr)
  then show ?case by (cases ev) (auto split: if_splits)
qed simp

lemma waiting_until_404:
  "\<lbrakk>foldl next_state Waiting tr \<noteq> Bad; list_ex posts_call tr\<rbrakk>
     \<Longrightarrow> \<exists>ps zs. tr = ps @ Answered 404 # zs \<and> \<not> list_ex sends_or_answers ps"
proof (induction tr)
  case (Cons ev tr)
  have skip: ?case if "\<not> sends_or_answers ev" "\<not> posts_call ev" "next_state Waiting ev = Waiting"
  proof -
    have "foldl next_state Waiting tr \<noteq> Bad" "list_ex posts_call tr"
      using Cons.prems that by simp_all
    then obtain ps zs where "tr = ps @ Answered 404 # zs" "\<not> list_ex sends_or_answers ps"
      using Cons.IH by blast
    then have "ev # tr = (ev # ps) @ Answered 404 # zs \<and> \<not> list_ex sends_or_answers (ev # ps)"
      using that by simp
    then show ?thesis by blast
  qed
  show ?case
  proof (cases ev)
    case (Posted u body sid v)
    then show ?thesis using Cons.prems(1) by (simp split: if_splits)
  next
    case (Answered code)
    then have "code = 404"
      using Cons.prems closed_no_call [of tr] by (auto split: if_splits)
    then have "ev # tr = [] @ Answered 404 # tr \<and> \<not> list_ex sends_or_answers []"
      using Answered by simp
    then show ?thesis by blast
  qed (use skip in simp_all)
qed simp

lemma repeat_after_404:
  assumes "state_of (xs @ Posted u body sid v # ys) \<noteq> Bad" and "is_tool_call body" and "list_ex posts_call ys"
  shows "\<exists>ps zs. ys = ps @ Answered 404 # zs \<and> \<not> list_ex sends_or_answers ps"
  using assms waiting_until_404 [of ys] by (auto simp: state_of_def split: if_splits)

lemma held_stays:
  "\<lbrakk>uuid \<in> set h; LockReleased uuid \<notin> set tr\<rbrakk> \<Longrightarrow> uuid \<in> set (foldl next_held h tr)"
proof (induction tr arbitrary: h)
  case (Cons ev tr)
  have "uuid \<in> set (next_held h ev)"
    using Cons.prems by (cases ev) (auto simp: in_set_remove1)
  then show ?case using Cons by simp
qed simp

lemma taken_released:
  "held (xs @ LockTaken uuid ttl # ys) = [] \<Longrightarrow> LockReleased uuid \<in> set ys"
  using held_stays [of uuid "uuid # foldl next_held [] xs" ys] by (force simp: held_def)

section \<open>An example\<close>

text \<open>
  The cached session is answered 404, the lock is granted, another gateway has stored a session
  meanwhile, and the call under that one is answered 500.
\<close>

definition ex_session :: mcp_session where
  "ex_session = \<lparr>session_id = ''s'', negotiated_protocol_version = ''2025-03-26'', s_target_hash = ''h'',
     s_auth_revision = ''0/static'', server_info = JNull, capabilities = JNull, created_at = 0,
     last_used_at = 0, expires_at = 100\<rparr>"

definition ex_answer :: "nat \<Rightarrow> http_result" where
  "ex_answer code = Responded \<lparr>http_status_code = code,
     http_body = \<lparr>r_headers = [], r_content_length = None, r_stream = []\<rparr>\<rparr>"

definition ex_env :: "nat \<Rightarrow> life_env" where
  "ex_env deadline = \<lparr>e_http = (\<lambda>n. if n = 1 then ex_answer 404 else ex_answer 500),
     e_load = (\<lambda>n. Some ex_session), e_lock = (\<lambda>n. LockGranted ''u''), e_role = (\<lambda>n. FlightOwner),
     e_utc = (\<lambda>n. 5), e_elapsed_ms = (\<lambda>n. n), e_deadline = deadline, e_parse = (\<lambda>_. None),
     e_init_value = (\<lambda>_. None), e_init_slice = (\<lambda>_. None), e_call_value = (\<lambda>_. None),
     e_call_slice = (\<lambda>_. None), e_pkg_version = ''0''\<rparr>"

definition ex_target :: tool_target where
  "ex_target = default_target\<lparr>tool_id := ''t'', target_kind_of := McpStreamableHttpTool,
     target_url := Some ''https://a/'', target_rate_card := \<lparr>fixed_micros = 7, currency = ''USD''\<rparr>\<rparr>"

definition ex_request :: tool_call_request where
  "ex_request = default_request\<lparr>req_tool_execution_id := Some ''x'', req_arguments := JNull\<rparr>"

definition ex_call :: life_call where
  "ex_call = \<lparr>c_ctx = ex_ctx, c_target = ex_target, c_request = ex_request, c_url = ex_url,
     c_execution_id = ''x'', c_max_response_bytes = 100, c_sse_options = sse_options_of ex_ctx 100,
     c_lock_ttl_secs = 3\<rparr>"

definition ex_post :: life_event where
  "ex_post = Posted ex_url (RpcRequest ''x'' ''tools/call''
     (JObject [(''name'', JString ''t''), (''arguments'', JNull)])) (Some ''s'') ''2025-03-26''"

lemmas life_defs = execute_lifecycle_inner_def load_reusable_cached_session_def cache_load_def
  execute_with_cached_session_def call_tool_with_session_def post_json_rpc_def cache_delete_def
  execute_fresh_lifecycle_guarded_def guard_owner_def finally_release_def call_cached_session_for_guard_def
  refresh_session_def lbind_def lthen_def lret_def lfail_def emit_def read_env_def await_for_def await_def
  set_protocol_version_def Let_def

lemma ex_flights: "flights_ok ex_call (ex_env d)"
  by (simp add: flights_ok_def ex_env_def)

lemma ex_usable: "\<not> should_evict_session ex_ctx 5 ex_session"
  by (simp add: should_evict_session_def ex_ctx_def ex_session_def validate_session_id_def byte_def
      validate_supported_protocol_version_def SUPPORTED_PROTOCOL_VERSIONS_def)

lemma ex_simps:
  "c_ctx ex_call = ex_ctx" "c_url ex_call = ex_url" "c_execution_id ex_call = ''x''" "has_redis ex_ctx"
  "c_lock_ttl_secs ex_call = 3" "tool_id (c_target ex_call) = ''t''" "req_arguments (c_request ex_call) = JNull"
  "session_id ex_session = ''s''" "negotiated_protocol_version ex_session = ''2025-03-26''"
  "e_load (ex_env d) n = Some ex_session" "e_lock (ex_env d) n = LockGranted ''u''" "e_utc (ex_env d) n = 5"
  "e_http (ex_env d) n = (if n = 1 then ex_answer 404 else ex_answer 500)" "e_deadline (ex_env d) = d"
  "header_value_ok ''s''" "header_value_ok ''2025-03-26''"
  by (simp_all add: ex_call_def ex_ctx_def ex_env_def ex_session_def ex_target_def ex_request_def default_request_def header_value_ok_def
      byte_def)

lemma ex_trace:
  "w_trace (snd (execute_lifecycle_inner ex_call (ex_env 20) world0)) =
     [ex_post, Answered 404, Deleted (session_key ex_ctx), LockTaken ''u'' 3, ex_post, Answered 500, LockReleased ''u'']
   \<and> (\<exists>r. fst (execute_lifecycle_inner ex_call (ex_env 20) world0) = LDone r)"
  by (simp add: life_defs ex_simps world0_def ex_usable ex_answer_def status_success_def
      mark_gateway_metadata_def failed_response_def ex_post_def)

section \<open>Properties\<close>

lemma run_world: "snd (run_lifecycle c e) = snd (execute_lifecycle_inner c e world0)"
  by (simp add: run_lifecycle_def split: prod.split outcome.split)

lemma run_ends:
  assumes "flights_ok c e"
  shows "list_all (event_ok c) (w_trace (snd (run_lifecycle c e)))"
    and "state_of (w_trace (snd (run_lifecycle c e))) \<noteq> Bad"
    and "resp_ok c e (fst (run_lifecycle c e))"
  using inner_ends [OF assms prod.collapse [symmetric]]
  by (auto simp: run_world run_lifecycle_def failed_lifecycle_response_def lifecycle_timeout_response_def
      resp_ok_failed split: prod.split outcome.split)

text \<open>
  Property C7. A tool is never called twice on a guess. Whatever the server, the cache, the lock and
  the other callers answer, when a lifecycle sends \<open>tools/call\<close> and later sends it again, the first
  answer to the earlier call was 404 (the server does not know the session), and nothing was
  sent before that answer. A timeout, an error status or an unreadable answer never repeats a call.
\<close>

theorem lifecycle_repeats_only_after_404:
  assumes "flights_ok c e"
    and "w_trace (snd (run_lifecycle c e)) = xs @ Posted u body sid v # ys"
    and "is_tool_call body" and "list_ex posts_call ys"
  shows "\<exists>ps zs. ys = ps @ Answered 404 # zs \<and> \<not> list_ex sends_or_answers ps"
  using run_ends(2) [OF assms(1)] repeat_after_404 [OF _ assms(3,4), of xs u sid v] assms(2) by simp

theorem lifecycle_repeats_only_after_404_witness:
  "\<exists>xs u body sid v ys ps zs. w_trace (snd (run_lifecycle ex_call (ex_env 20))) = xs @ Posted u body sid v # ys
     \<and> list_ex posts_call ys \<and> ys = ps @ Answered 404 # zs \<and> \<not> list_ex sends_or_answers ps"
proof -
  let ?body = "RpcRequest ''x'' ''tools/call'' (JObject [(''name'', JString ''t''), (''arguments'', JNull)])"
  let ?ys = "[Answered 404, Deleted (session_key ex_ctx), LockTaken ''u'' 3, ex_post, Answered 500, LockReleased ''u'']"
  have tr: "w_trace (snd (run_lifecycle ex_call (ex_env 20))) = [] @ Posted ex_url ?body (Some ''s'') ''2025-03-26'' # ?ys"
    using ex_trace by (simp add: run_world ex_post_def)
  have call: "is_tool_call ?body" and again: "list_ex posts_call ?ys" by (simp_all add: ex_post_def)
  show ?thesis
    using lifecycle_repeats_only_after_404 [OF ex_flights tr call again] tr again by metis
qed

text \<open>
  Property C17. Every effect of a lifecycle concerns its own session. It posts to the target's URL only,
  with a supported protocol version and a valid session id or none, \<open>initialize\<close> without a session,
  and \<open>tools/call\<close> with the caller's arguments under the execution id. It deletes and stores its own
  cache key only, and a session that it stores has the target hash and the auth revision of
  the context, a valid id and a supported version, so that no reader of the key evicts it before it
  expires. The hypothesis says the same of a session received from the owner of a local
  flight, which \<open>c_initialize_session\<close> shows of every owner.
\<close>

theorem lifecycle_session_hygiene:
  assumes "flights_ok c e"
  shows "list_all (event_ok c) (w_trace (snd (run_lifecycle c e)))"
  by (rule run_ends(1) [OF assms])

theorem lifecycle_session_hygiene_witness:
  "list_all (event_ok ex_call) (w_trace (snd (run_lifecycle ex_call (ex_env 20))))
   \<and> length (w_trace (snd (run_lifecycle ex_call (ex_env 20)))) = 7"
  using lifecycle_session_hygiene [OF ex_flights, of 20] ex_trace unfolding run_world by simp

text \<open>
  Property C10. A lifecycle that ends before its deadline leaves no lock behind: every lock that it takes
  it later releases under the same value, on success, on failure and on each early return. (At the
  deadline the future is dropped, and the lock ends with its TTL.)
\<close>

theorem lifecycle_lock_released:
  assumes "flights_ok c e" and "fst (execute_lifecycle_inner c e world0) \<noteq> LElapsed"
    and "w_trace (snd (execute_lifecycle_inner c e world0)) = xs @ LockTaken uuid ttl # ys"
  shows "LockReleased uuid \<in> set ys"
  using inner_ends(3) [OF assms(1) prod.collapse [symmetric] assms(2)] assms(3) by (simp add: taken_released)

theorem lifecycle_lock_released_witness:
  "LockReleased ''u'' \<in> set [ex_post, Answered 500, LockReleased ''u'']
   \<and> w_trace (snd (execute_lifecycle_inner ex_call (ex_env 20) world0)) =
      [ex_post, Answered 404, Deleted (session_key ex_ctx)]
      @ LockTaken ''u'' 3 # [ex_post, Answered 500, LockReleased ''u'']"
proof -
  have tr: "w_trace (snd (execute_lifecycle_inner ex_call (ex_env 20) world0)) =
      [ex_post, Answered 404, Deleted (session_key ex_ctx)]
      @ LockTaken ''u'' 3 # [ex_post, Answered 500, LockReleased ''u'']"
    using ex_trace by simp
  have "fst (execute_lifecycle_inner ex_call (ex_env 20) world0) \<noteq> LElapsed" using ex_trace by auto
  from lifecycle_lock_released [OF ex_flights this tr] tr show ?thesis by simp
qed

text \<open>
  Property C20. The bill of a lifecycle. The response is billable, and costs the fixed price of the
  target's rate card in its currency, exactly when it is completed; else it costs
  nothing and carries an error. The dedupe key is the execution id. A completed response gives
  the result of an answer that came with a success status, was read within the limits, is a valid
  JSON-RPC envelope under the execution id and has no error member.
\<close>

theorem lifecycle_billing:
  assumes "flights_ok c e"
  shows "fair_billing (c_target c) (fst (run_lifecycle c e))
    \<and> dedupe_key (billing (fst (run_lifecycle c e))) = c_execution_id c
    \<and> (status (fst (run_lifecycle c e)) \<noteq> Completed \<or> from_server c e (tool_output (fst (run_lifecycle c e))))"
  using run_ends(3) [OF assms] by (auto simp: resp_ok_def)

theorem lifecycle_billing_witness:
  "fair_billing ex_target (fst (run_lifecycle ex_call (ex_env 20)))
   \<and> dedupe_key (billing (fst (run_lifecycle ex_call (ex_env 20)))) = ''x''"
  using lifecycle_billing [OF ex_flights [of 20]] by (simp add: ex_call_def)

text \<open>
  The fuel of \<open>guard_loop\<close> is enough: the lifecycle elapses only at the \<open>await\<close> at which the timer of the
  environment has run out, never because the loop that waits for the lock has run out of rounds.
\<close>

lemma lifecycle_ends_by_deadline:
  assumes "execute_lifecycle_inner c e world0 = (LElapsed, w)"
  shows "e_deadline e \<le> w_awaits w"
  using t_inner [of e c] assms by (auto simp: late_def spec_def dest!: spec [where x = world0])

definition busy_env :: life_env where
  "busy_env = (ex_env 6)\<lparr>e_lock := (\<lambda>_. LockBusy), e_load := (\<lambda>_. None)\<rparr>"

lemma lifecycle_ends_by_deadline_example:
  "\<exists>w. execute_lifecycle_inner ex_call busy_env world0 = (LElapsed, w) \<and> 6 \<le> w_awaits w"
proof -
  have "\<exists>w. execute_lifecycle_inner ex_call busy_env world0 = (LElapsed, w)"
    by (simp add: life_defs ex_simps world0_def busy_env_def eval_nat_numeral)
  then obtain w where w: "execute_lifecycle_inner ex_call busy_env world0 = (LElapsed, w)" ..
  have "e_deadline busy_env = 6" by (simp add: busy_env_def ex_env_def)
  then show ?thesis using lifecycle_ends_by_deadline [OF w] w by simp
qed

lemma lifecycle_runs:
  assumes "execute_lifecycle_with_cache url_parse client_ok fresh_id ctx target request egress default_timeout_ms
      max_response_bytes e = Ok (r, w)"
  obtains u p c where "target_url target = Some u" "is_ok (validate_target_url url_parse u egress)"
    "url_parse u = Some p" "http_scheme (scheme p)" "c_ctx c = ctx" "c_url c = p" "c_target c = target"
    "run_lifecycle c e = (r, w)"
    "c_lock_ttl_secs c = session_lock_ttl_secs_for_timeout ctx
       (effective_timeout_ms (target_timeout_ms target) (req_timeout_ms request) default_timeout_ms)"
proof -
  let ?ttl = "session_lock_ttl_secs_for_timeout ctx
    (effective_timeout_ms (target_timeout_ms target) (req_timeout_ms request) default_timeout_ms)"
  let ?c = "\<lambda>p. \<lparr>c_ctx = ctx, c_target = target, c_request = request, c_url = p,
    c_execution_id = (case req_tool_execution_id request of Some i \<Rightarrow> i | None \<Rightarrow> ''exec_'' @ fresh_id),
    c_max_response_bytes = max_response_bytes, c_sse_options = sse_options_of ctx max_response_bytes,
    c_lock_ttl_secs = ?ttl\<rparr>"
  obtain u p where u: "target_url target = Some u" "is_ok (validate_target_url url_parse u egress)"
      "url_parse u = Some p" "http_scheme (scheme p)" and run: "run_lifecycle (?c p) e = (r, w)"
    using assms unfolding execute_lifecycle_with_cache_def by (auto split: if_splits option.splits)
  show thesis by (rule that [OF u, of "?c p"]) (simp_all add: run)
qed

text \<open>
  Property C26. No request leaves before the egress policy has passed the target: when
  \<open>execute_lifecycle\<close> runs at all, the target's URL passes \<open>validate_target_url\<close> and parses as http or
  https, and every request of the trace goes to that parsed URL. The lock is taken
  for at least one second longer than the lifecycle's own timeout.
\<close>

theorem lifecycle_egress_checked:
  assumes "execute_lifecycle_with_cache url_parse client_ok fresh_id ctx target request egress default_timeout_ms
      max_response_bytes e = Ok (r, w)"
    and "\<And>n i. e_role e n = FlightReceived (Some i) \<Longrightarrow> initialized_ok ctx i"
    and "max default_timeout_ms (case target_timeout_ms target of Some t \<Rightarrow> t | None \<Rightarrow> 0) + 2001 < u64_bound"
  shows "\<exists>u p. target_url target = Some u \<and> is_ok (validate_target_url url_parse u egress)
      \<and> url_parse u = Some p \<and> http_scheme (scheme p)
      \<and> (\<forall>q body sid v. Posted q body sid v \<in> set (w_trace w) \<longrightarrow> q = p)
      \<and> (\<forall>uuid ttl. LockTaken uuid ttl \<in> set (w_trace w) \<longrightarrow>
          effective_timeout_ms (target_timeout_ms target) (req_timeout_ms request) default_timeout_ms + 1000
            \<le> ttl * 1000)"
proof -
  let ?t = "effective_timeout_ms (target_timeout_ms target) (req_timeout_ms request) default_timeout_ms"
  obtain u p c where u: "target_url target = Some u" "is_ok (validate_target_url url_parse u egress)"
      "url_parse u = Some p" "http_scheme (scheme p)"
    and c: "c_ctx c = ctx" "c_url c = p" "run_lifecycle c e = (r, w)"
      "c_lock_ttl_secs c = session_lock_ttl_secs_for_timeout ctx ?t"
    using assms(1) by (rule lifecycle_runs)
  have ok: "list_all (event_ok c) (w_trace w)"
    using run_ends(1) [of c e] assms(2) c by (simp add: flights_ok_def)
  have "?t + 2000 < u64_bound"
    using assms(3) unfolding effective_timeout_ms_def Let_def by (auto split: option.splits)
  then have ttl: "?t + 1000 \<le> c_lock_ttl_secs c * 1000"
    using lock_ttl_covers [of ?t ctx] c(4) by simp
  have "\<forall>q body sid v. Posted q body sid v \<in> set (w_trace w) \<longrightarrow> q = p"
    using ok c(2) by (auto simp: list_all_iff)
  moreover have "\<forall>uuid t. LockTaken uuid t \<in> set (w_trace w) \<longrightarrow> ?t + 1000 \<le> t * 1000"
    using ok ttl by (auto simp: list_all_iff)
  ultimately show ?thesis using u by blast
qed

lemma ex_checked:
  "\<exists>r w. execute_lifecycle_with_cache [''https://a/'' \<mapsto> ex_url] True ''f'' ex_ctx ex_target ex_request
     default_egress_policy 30000 100 (ex_env 20) = Ok (r, w)"
proof -
  have "check_host default_egress_policy ''https'' (Ipv4 0) = Ok ()"
    by (simp add: check_host_default internal_v4_def in_net_def v4_def)
  then have "validate_target_url [''https://a/'' \<mapsto> ex_url] ''https://a/'' default_egress_policy = Ok ()"
    by (simp add: validate_target_url_def ex_url_def http_scheme_def)
  then show ?thesis
    by (simp add: execute_lifecycle_with_cache_def ex_target_def default_target_def eq_ignore_ascii_case_def ex_url_def http_scheme_def
        surj_pair)
qed

theorem lifecycle_egress_checked_witness:
  "is_ok (validate_target_url [''https://a/'' \<mapsto> ex_url] ''https://a/'' default_egress_policy)
   \<and> http_scheme (scheme ex_url)"
proof -
  obtain r w where run: "execute_lifecycle_with_cache [''https://a/'' \<mapsto> ex_url] True ''f'' ex_ctx ex_target ex_request
      default_egress_policy 30000 100 (ex_env 20) = Ok (r, w)"
    using ex_checked by blast
  have roles: "\<And>n i. e_role (ex_env 20) n = FlightReceived (Some i) \<Longrightarrow> initialized_ok ex_ctx i"
    by (simp add: ex_env_def)
  have small: "max 30000 (case target_timeout_ms ex_target of Some t \<Rightarrow> t | None \<Rightarrow> 0) + 2001 < u64_bound"
    by (simp add: ex_target_def default_target_def u64_bound_def)
  from lifecycle_egress_checked [OF run roles small] show ?thesis
    by (auto simp: ex_target_def split: if_splits)
qed

end
