(* ===== verification/Mcp_Sse_Lifecycle.thy ===== *)
theory Mcp_Sse_Lifecycle
  imports Agent_Io
begin

text \<open>
  The lifecycle of a tool call over the older MCP transport (\<open>agent/tools/mcp_sse/lifecycle.rs\<close>): one
  event stream, whose first event names the endpoint for the messages, and three messages
  posted there whose answers come on the stream.
\<close>

section \<open>Failures\<close>

datatype mcp_sse_failure_class =
    FcTargetUnavailable
  | FcConnectFailed
  | FcMessageEndpointInvalid
  | FcEgressBlocked
  | FcInitializeFailed
  | FcCapabilityUnsupported
  | FcProtocolError
  | FcIdleTimeout
  | FcResponseTooLarge
  | FcServerRequestUnsupported
  | FcJsonRpcError bool

fun error_code :: "mcp_sse_failure_class \<Rightarrow> string" where
  "error_code FcTargetUnavailable = ''mcp_sse_target_unavailable''"
| "error_code FcConnectFailed = ''mcp_sse_connect_failed''"
| "error_code FcMessageEndpointInvalid = ''mcp_sse_message_endpoint_invalid''"
| "error_code FcEgressBlocked = ''mcp_sse_egress_blocked''"
| "error_code FcInitializeFailed = ''mcp_sse_initialize_failed''"
| "error_code FcCapabilityUnsupported = ''mcp_sse_capability_unsupported''"
| "error_code FcProtocolError = ''mcp_sse_protocol_error''"
| "error_code FcIdleTimeout = ''mcp_sse_idle_timeout''"
| "error_code FcResponseTooLarge = ''mcp_sse_response_too_large''"
| "error_code FcServerRequestUnsupported = ''mcp_sse_server_request_unsupported''"
| "error_code (FcJsonRpcError r) = ''mcp_sse_json_rpc_error''"

fun failure_billing_reason :: "mcp_sse_failure_class \<Rightarrow> string" where
  "failure_billing_reason FcIdleTimeout = ''timeout''"
| "failure_billing_reason _ = ''failure''"

fun failure_status :: "mcp_sse_failure_class \<Rightarrow> tool_status" where
  "failure_status FcIdleTimeout = Timeout"
| "failure_status _ = Failed"

fun failure_retryable :: "mcp_sse_failure_class \<Rightarrow> bool" where
  "failure_retryable FcIdleTimeout = True"
| "failure_retryable FcTargetUnavailable = True"
| "failure_retryable FcConnectFailed = True"
| "failure_retryable (FcJsonRpcError r) = r"
| "failure_retryable _ = False"

fun error_message :: "mcp_sse_failure_class \<Rightarrow> string" where
  "error_message FcTargetUnavailable = ''MCP SSE target is unavailable''"
| "error_message FcConnectFailed = ''MCP SSE target connection failed''"
| "error_message FcMessageEndpointInvalid = ''MCP SSE message endpoint is invalid''"
| "error_message FcEgressBlocked = ''MCP SSE target was blocked by egress policy''"
| "error_message FcInitializeFailed = ''MCP SSE initialize failed''"
| "error_message FcCapabilityUnsupported = ''MCP SSE target capabilities are unsupported''"
| "error_message FcProtocolError = ''MCP SSE target returned an invalid protocol response''"
| "error_message FcIdleTimeout = ''MCP SSE target timed out while waiting for an event''"
| "error_message FcResponseTooLarge = ''MCP SSE target response exceeded the size limit''"
| "error_message FcServerRequestUnsupported = ''MCP SSE server-initiated requests are unsupported''"
| "error_message (FcJsonRpcError r) = ''MCP SSE tool call returned a JSON-RPC error''"

fun sse_failure_of :: "sse_parse_error \<Rightarrow> mcp_sse_failure_class" where
  "sse_failure_of TotalTooLarge = FcResponseTooLarge"
| "sse_failure_of EventTooLarge = FcResponseTooLarge"
| "sse_failure_of LineTooLarge = FcResponseTooLarge"
| "sse_failure_of BatchTooLarge = FcResponseTooLarge"
| "sse_failure_of TooManyEvents = FcResponseTooLarge"
| "sse_failure_of ServerRequestUnsupported = FcServerRequestUnsupported"
| "sse_failure_of InvalidUtf8 = FcProtocolError"
| "sse_failure_of InvalidJson = FcProtocolError"
| "sse_failure_of MatchingResponseMissing = FcProtocolError"

type_synonym 'a sse_life = "(mcp_sse_failure_class, 'a) program"

section \<open>Responses\<close>

definition execution_id_or_unknown :: "tool_call_request \<Rightarrow> string" where
  "execution_id_or_unknown request =
     (case req_tool_execution_id request of Some i \<Rightarrow> i | None \<Rightarrow> ''unknown'')"

definition success_response ::
    "tool_ctx \<Rightarrow> tool_target \<Rightarrow> tool_call_request \<Rightarrow> json \<Rightarrow> mcp_initialize_result \<Rightarrow> tool_call_response" where
  "success_response ctx target request out init_result =
     (let exec = execution_id_or_unknown request; micros = fixed_micros (target_rate_card target);
          cur = currency (target_rate_card target) in
      \<lparr>status = Completed, tool_call_id = req_tool_call_id request, tool_execution_id = exec,
       tool_output = out, resp_error = None,
       gateway_metadata = Some (default_metadata\<lparr>execution_source := ''gateway_executed'',
         meta_target_kind := ''mcp-sse'', meta_target_id := tool_id target, meta_target_hash := target_hash ctx,
         meta_auth_revision := auth_revision ctx, cache_hit := False, reinitialized := True,
         protocol_version := Some (init_protocol_version init_result), meta_sse_used := True,
         failure_class := None, blocked_before_dispatch := False, latency_ms := None,
         billing_status := Some ''settled'', billing_reason := Some ''success'', executed := Some True,
         failure_stage := None, meta_target_revision := Some (target_revision ctx), schema_hash := None,
         rate_card_revision := Some 0\<rparr>),
       billing = \<lparr>bill_reason = ''success'', billable = True, cost_micros = micros, bill_currency = cur,
         dedupe_key = ''tool_execution:'' @ exec\<rparr>,
       cost = \<lparr>amount_micros = micros, cost_currency = cur, cost_source = ''rate_card''\<rparr>,
       policy = allowed_policy, events = default_events\<rparr>)"

definition failure_response ::
    "tool_ctx \<Rightarrow> tool_target \<Rightarrow> tool_call_request \<Rightarrow> mcp_sse_failure_class \<Rightarrow> nat \<Rightarrow> tool_call_response" where
  "failure_response ctx target request failure elapsed_ms =
     (let exec = execution_id_or_unknown request; code = error_code failure;
          retryable = failure_retryable failure; message = error_message failure;
          reason = failure_billing_reason failure; cur = currency (target_rate_card target) in
      \<lparr>status = failure_status failure, tool_call_id = req_tool_call_id request, tool_execution_id = exec,
       tool_output = JObject
         [(''error'', JObject [(''code'', JString code), (''retryable'', JBool retryable),
            (''message'', JString message)]),
          (''metadata'', JObject
            [(''billing'', JObject [(''reason'', JString reason), (''billable'', JBool False),
               (''dedupeKey'', JString (''tool_execution:'' @ exec))]),
             (''gateway'', JObject [(''targetKind'', JString ''mcp-sse''), (''executed'', JBool True),
               (''failureStage'', JString ''runtime'')])])],
       resp_error = Some \<lparr>envelope_code = code, envelope_message = message, envelope_retryable = retryable\<rparr>,
       gateway_metadata = Some (default_metadata\<lparr>execution_source := ''gateway_executed'',
         meta_target_kind := ''mcp-sse'', meta_target_id := tool_id target, meta_target_hash := target_hash ctx,
         meta_auth_revision := auth_revision ctx, cache_hit := False, reinitialized := False,
         protocol_version := None, meta_sse_used := True, failure_class := Some code,
         blocked_before_dispatch := False, latency_ms := Some elapsed_ms,
         billing_status := Some ''waived'', billing_reason := Some reason, executed := Some True,
         failure_stage := Some ''runtime'', meta_target_revision := Some (target_revision ctx),
         schema_hash := None, rate_card_revision := Some 0\<rparr>),
       billing = \<lparr>bill_reason = reason, billable = False, cost_micros = 0, bill_currency = cur,
         dedupe_key = ''tool_execution:'' @ exec\<rparr>,
       cost = \<lparr>amount_micros = 0, cost_currency = cur, cost_source = ''waived''\<rparr>,
       policy = allowed_policy, events = default_events\<rparr>)"

section \<open>The stream\<close>

definition is_sse_content_type :: "header_map \<Rightarrow> bool" where
  "is_sse_content_type headers =
     (case header_str headers ''content-type'' of
        None \<Rightarrow> False
      | Some content_type \<Rightarrow>
          eq_ignore_ascii_case (trim (split_first (CHR '';'') content_type)) ''text/event-stream'')"

definition stream_limits :: "tool_ctx \<Rightarrow> nat \<Rightarrow> sse_limits" where
  "stream_limits ctx max_response_bytes =
     \<lparr>max_total_bytes = max_response_bytes, max_event_bytes = mcp_sse_max_event_bytes ctx,
      max_line_bytes = mcp_sse_max_line_bytes ctx, max_events = mcp_sse_max_events ctx,
      max_batch_items = mcp_sse_max_batch_items ctx\<rparr>"

text \<open>\<open>try_next\<close> under the idle timeout: \<open>None\<close> is the end of the stream.\<close>

definition next_chunk :: "stream_item option \<Rightarrow> string option sse_life" where
  "next_chunk it =
     lthen await (case it of
       None \<Rightarrow> lret None
     | Some (Chunk b) \<Rightarrow> lret (Some b)
     | Some StreamFailed \<Rightarrow> lfail FcTargetUnavailable
     | Some IdleElapsed \<Rightarrow> lfail FcIdleTimeout)"

text \<open>
  The inner loop of \<open>read_endpoint_event\<close>: the completed events of the buffer, up to the first that names an
  endpoint. \<open>completed_event_boundary\<close> is the function of the same name of \<open>sse.rs\<close>.
\<close>

function scan_endpoint :: "string \<Rightarrow> mcp_sse_failure_class + string + string" where
  "scan_endpoint buf =
     (case completed_event_boundary buf of
        None \<Rightarrow> Ok (Inl buf)
      | Some split_at \<Rightarrow>
          if \<not> from_utf8 (take split_at buf) then Err FcProtocolError
          else (case extract_endpoint_event (take split_at buf) of
             Inr endpoint \<Rightarrow> Ok (Inr endpoint)
           | Inl _ \<Rightarrow> scan_endpoint (drop split_at buf)))"
  by pat_completeness auto
termination
  by (relation "measure length") (auto dest: completed_event_boundary_bounds)

declare scan_endpoint.simps [simp del]

fun read_endpoint_from ::
    "nat \<Rightarrow> string \<Rightarrow> nat \<Rightarrow> stream_item list \<Rightarrow> (string \<times> stream_item list) sse_life" where
  "read_endpoint_from max_response_bytes buf seen [] =
     lthen (next_chunk None) (lfail FcTargetUnavailable)"
| "read_endpoint_from max_response_bytes buf seen (it # rest) =
     lbind (next_chunk (Some it)) (\<lambda>chunk. case chunk of
       None \<Rightarrow> lfail FcTargetUnavailable
     | Some b \<Rightarrow>
         lbind (lift id (ok_or FcResponseTooLarge (checked_add seen (length b)))) (\<lambda>seen'.
         if max_response_bytes < seen' then lfail FcResponseTooLarge
         else lbind (lift id (scan_endpoint (buf @ b))) (\<lambda>r. case r of
           Inr endpoint \<Rightarrow> lret (endpoint, rest)
         | Inl buf' \<Rightarrow> read_endpoint_from max_response_bytes buf' seen' rest)))"

definition read_endpoint_event ::
    "stream_item list \<Rightarrow> nat \<Rightarrow> (string \<times> stream_item list) sse_life" where
  "read_endpoint_event stream max_response_bytes = read_endpoint_from max_response_bytes [] 0 stream"

fun read_matching_loop ::
    "string \<Rightarrow> sse_limits \<Rightarrow> sse_accumulator \<Rightarrow> stream_item list \<Rightarrow> (json \<times> stream_item list) sse_life" where
  "read_matching_loop expected_id lim acc [] = lthen (next_chunk None) (lfail FcProtocolError)"
| "read_matching_loop expected_id lim acc (it # rest) =
     lbind (next_chunk (Some it)) (\<lambda>chunk. case chunk of
       None \<Rightarrow> lfail FcProtocolError
     | Some b \<Rightarrow>
         lbind (read_env (\<lambda>e n. push_and_try_find (e_parse e) acc b expected_id lim)) (\<lambda>r. case r of
           (acc', Inl err) \<Rightarrow> lfail (sse_failure_of err)
         | (acc', Inr (Some v)) \<Rightarrow> lret (v, rest)
         | (acc', Inr None) \<Rightarrow> read_matching_loop expected_id lim acc' rest))"

definition read_matching_json_rpc ::
    "stream_item list \<Rightarrow> string \<Rightarrow> sse_limits \<Rightarrow> (json \<times> stream_item list) sse_life" where
  "read_matching_json_rpc stream expected_id lim = read_matching_loop expected_id lim new_accumulator stream"

section \<open>The lifecycle\<close>

definition initialize_request_id :: "tool_call_request \<Rightarrow> string" where
  "initialize_request_id request = ''init-'' @ execution_id_or_unknown request"

definition tool_call_request_id :: "tool_call_request \<Rightarrow> string" where
  "tool_call_request_id request = ''call-'' @ execution_id_or_unknown request"

definition post_message :: "string \<Rightarrow> rpc_body \<Rightarrow> unit sse_life" where
  "post_message u body =
     lthen (emit (MessagePosted u body))
     (lbind (await_for e_http) (\<lambda>r. case r of
        Responded resp \<Rightarrow>
          lthen (emit (Answered (http_status_code resp)))
            (if status_success (http_status_code resp) then lret () else lfail FcTargetUnavailable)
      | _ \<Rightarrow> lfail FcConnectFailed))"

definition open_stream :: "string \<Rightarrow> stream_item list sse_life" where
  "open_stream u =
     lthen (emit (StreamOpened u))
     (lbind (await_for e_http) (\<lambda>r. case r of
        Responded resp \<Rightarrow>
          lthen (emit (Answered (http_status_code resp)))
            (if \<not> status_success (http_status_code resp) \<or> \<not> is_sse_content_type (r_headers (http_body resp))
             then lfail FcTargetUnavailable else lret (r_stream (http_body resp)))
      | _ \<Rightarrow> lfail FcConnectFailed))"

text \<open>From the \<open>initialize\<close> answer to its result, and from the \<open>tools/call\<close> answer to its output.\<close>

definition check_init :: "string \<Rightarrow> json \<Rightarrow> mcp_initialize_result sse_life" where
  "check_init init_id v =
     lbind (read_env (\<lambda>e n. e_init_value e v)) (\<lambda>parsed.
     lbind (lift id (ok_or FcProtocolError parsed)) (\<lambda>response.
     lthen (lift (\<lambda>_. FcProtocolError) (validate_json_rpc_envelope response init_id))
     (if rpc_error response \<noteq> None then lfail FcInitializeFailed
      else lbind (lift id (ok_or FcInitializeFailed (rpc_result response))) (\<lambda>result.
        lthen (lift (\<lambda>_. FcCapabilityUnsupported)
          (validate_supported_protocol_version (init_protocol_version result)))
        (lthen (lift (\<lambda>_. FcCapabilityUnsupported) (validate_tools_capability (init_capabilities result)))
        (lret result))))))"

definition check_call :: "string \<Rightarrow> json \<Rightarrow> json sse_life" where
  "check_call call_id v =
     lbind (read_env (\<lambda>e n. e_call_value e v)) (\<lambda>parsed.
     lbind (lift id (ok_or FcProtocolError parsed)) (\<lambda>response.
     lthen (lift (\<lambda>_. FcProtocolError) (validate_json_rpc_envelope response call_id))
     (case rpc_error response of
        Some error \<Rightarrow> lfail (FcJsonRpcError (mcp_error_retryable (err_code error)))
      | None \<Rightarrow> lift id (ok_or FcProtocolError (rpc_result response)))))"

definition sse_call_body :: "tool_target \<Rightarrow> tool_call_request \<Rightarrow> rpc_body" where
  "sse_call_body target request =
     RpcRequest (tool_call_request_id request) ''tools/call''
       (JObject [(''name'', JString (tool_id target)), (''arguments'', req_arguments request)])"

text \<open>The three messages, once the endpoint is known and allowed.\<close>

definition exchange_messages ::
    "tool_ctx \<Rightarrow> tool_target \<Rightarrow> tool_call_request \<Rightarrow> sse_limits \<Rightarrow> string \<Rightarrow> stream_item list
       \<Rightarrow> tool_call_response sse_life" where
  "exchange_messages ctx target request lim message_url stream =
     (let init_id = initialize_request_id request; call_id = tool_call_request_id request in
      lbind (read_env (\<lambda>e n. e_pkg_version e)) (\<lambda>pkg.
      lthen (post_message message_url (RpcRequest init_id ''initialize'' (init_params pkg)))
      (lbind (read_matching_json_rpc stream init_id lim) (\<lambda>(init_value, stream1).
       lbind (check_init init_id init_value) (\<lambda>init_result.
       lthen (post_message message_url (RpcNotification ''notifications/initialized''))
       (lthen (post_message message_url (sse_call_body target request))
       (lbind (read_matching_json_rpc stream1 call_id lim) (\<lambda>(call_value, stream2).
        lbind (check_call call_id call_value) (\<lambda>result.
        lret (success_response ctx target request result init_result))))))))))"

definition sse_lifecycle_inner ::
    "url_parser \<Rightarrow> (url \<Rightarrow> string \<Rightarrow> url option) \<Rightarrow> bool \<Rightarrow> tool_ctx \<Rightarrow> tool_target \<Rightarrow> tool_call_request
       \<Rightarrow> egress_policy \<Rightarrow> nat \<Rightarrow> tool_call_response sse_life" where
  "sse_lifecycle_inner url_parse url_join client_ok ctx target request egress max_response_bytes =
     (case target_url target of
        None \<Rightarrow> lfail FcTargetUnavailable
      | Some u \<Rightarrow>
          lthen (lift (\<lambda>_. FcEgressBlocked) (validate_target_url url_parse u egress))
          (if \<not> client_ok then lfail FcTargetUnavailable
           else lbind (open_stream u) (\<lambda>stream.
             lbind (read_endpoint_event stream max_response_bytes) (\<lambda>(endpoint, stream1).
             lbind (lift (\<lambda>_. FcMessageEndpointInvalid)
               (resolve_message_endpoint url_parse url_join u endpoint)) (\<lambda>message_url.
             lthen (lift (\<lambda>_. FcEgressBlocked) (validate_target_url url_parse (as_text message_url) egress))
             (exchange_messages ctx target request (stream_limits ctx max_response_bytes) (as_text message_url)
               stream1))))))"

definition sse_timeout_ms :: "tool_target \<Rightarrow> tool_call_request \<Rightarrow> nat \<Rightarrow> nat" where
  "sse_timeout_ms target request default_timeout_ms =
     (case req_timeout_ms request of
        Some t \<Rightarrow> t
      | None \<Rightarrow> (case target_timeout_ms target of Some t \<Rightarrow> t | None \<Rightarrow> default_timeout_ms))"

text \<open>\<open>execute_lifecycle\<close>; the deadline of the environment is the one of \<open>sse_timeout_ms\<close>.\<close>

definition execute_sse_lifecycle ::
    "url_parser \<Rightarrow> (url \<Rightarrow> string \<Rightarrow> url option) \<Rightarrow> bool \<Rightarrow> tool_ctx \<Rightarrow> tool_target \<Rightarrow> tool_call_request
       \<Rightarrow> egress_policy \<Rightarrow> nat \<Rightarrow> life_env \<Rightarrow> (tool_execution_error + tool_call_response) \<times> life_world" where
  "execute_sse_lifecycle url_parse url_join client_ok ctx target request egress max_response_bytes e =
     (case sse_lifecycle_inner url_parse url_join client_ok ctx target request egress max_response_bytes e world0 of
        (LDone r, w) \<Rightarrow>
          (Ok (r\<lparr>gateway_metadata := map_option (\<lambda>m. m\<lparr>latency_ms := Some (e_elapsed_ms e (w_awaits w))\<rparr>)
             (gateway_metadata r)\<rparr>), w)
      | (LFail f, w) \<Rightarrow> (Ok (failure_response ctx target request f (e_elapsed_ms e (w_awaits w))), w)
      | (LElapsed, w) \<Rightarrow>
          (Ok (failure_response ctx target request FcIdleTimeout (e_elapsed_ms e (w_awaits w))), w))"

section \<open>The order of the requests\<close>

fun is_send :: "life_event \<Rightarrow> bool" where
  "is_send (StreamOpened u) = True"
| "is_send (MessagePosted u body) = True"
| "is_send (Posted u body sid v) = True"
| "is_send (Requested m u h b) = True"
| "is_send _ = False"

definition sends :: "life_world \<Rightarrow> life_event list" where
  "sends w = filter is_send (w_trace w)"

text \<open>The requests so far are the first \<open>k\<close> of the script \<open>S\<close>, or of some prefix.\<close>

definition pos :: "life_event list \<Rightarrow> nat \<Rightarrow> life_world \<Rightarrow> bool" where
  "pos S k w \<longleftrightarrow> sends w = take k S"

definition upto :: "life_event list \<Rightarrow> life_world \<Rightarrow> bool" where
  "upto S w \<longleftrightarrow> (\<exists>k. pos S k w)"

lemma pos_upto: "pos S k w \<Longrightarrow> upto S w"
  by (auto simp: upto_def)

lemma pos_simps [simp]:
  "pos S k (w\<lparr>w_awaits := n\<rparr>) = pos S k w"
  "\<not> is_send ev \<Longrightarrow> pos S k (w\<lparr>w_trace := w_trace w @ [ev]\<rparr>) = pos S k w"
  by (simp_all add: pos_def sends_def)

lemma pos_send:
  "\<lbrakk>pos S k w; is_send ev; k < length S; S ! k = ev\<rbrakk> \<Longrightarrow> pos S (Suc k) (w\<lparr>w_trace := w_trace w @ [ev]\<rparr>)"
  by (simp add: pos_def sends_def take_Suc_conv_app_nth)

abbreviation keeps :: "life_env \<Rightarrow> life_event list \<Rightarrow> nat \<Rightarrow> 'a sse_life \<Rightarrow> ('a \<Rightarrow> bool) \<Rightarrow> nat \<Rightarrow> bool" where
  "keeps e S k m R k' \<equiv> spec e (pos S k) m (\<lambda>x w. pos S k' w \<and> R x) (upto S) (upto S)"

lemma k_ret: "R x \<Longrightarrow> keeps e S k (lret x) R k"
  by (rule spec_ret) simp

lemma k_fail: "keeps e S k (lfail f) R k'"
  by (rule spec_fail) (rule pos_upto)

lemma k_lift: "(\<And>x. r = Inr x \<Longrightarrow> R x) \<Longrightarrow> keeps e S k (lift g r) R k"
  by (rule spec_lift) (auto intro: pos_upto)

lemma k_read: "(\<And>n. R (f e n)) \<Longrightarrow> keeps e S k (read_env f) R k"
  by (rule spec_read_env) simp

lemma k_await: "(\<And>n. R (f e n)) \<Longrightarrow> keeps e S k (await_for f) R k"
  by (rule spec_await_for) (auto intro: pos_upto)

lemma k_note: "\<not> is_send ev \<Longrightarrow> keeps e S k (emit ev) (\<lambda>_. True) k"
  by (rule spec_emit) simp

lemma k_send: "\<lbrakk>is_send ev; k < length S; S ! k = ev\<rbrakk> \<Longrightarrow> keeps e S k (emit ev) (\<lambda>_. True) (Suc k)"
  by (rule spec_emit) (simp add: pos_send)

lemma k_bind:
  "\<lbrakk>keeps e S k m R k1; \<And>x. R x \<Longrightarrow> keeps e S k1 (f x) R' k2\<rbrakk> \<Longrightarrow> keeps e S k (lbind m f) R' k2"
  by (rule spec_bind, assumption) (auto simp: spec_def)

lemma k_then: "\<lbrakk>keeps e S k m R k1; keeps e S k1 n R' k2\<rbrakk> \<Longrightarrow> keeps e S k (lthen m n) R' k2"
  unfolding lthen_def by (rule k_bind)

lemma k_option:
  "\<lbrakk>keeps e S k m R k'; \<And>x. keeps e S k (f x) R k'\<rbrakk>
     \<Longrightarrow> keeps e S k (case opt of None \<Rightarrow> m | Some x \<Rightarrow> f x) R k'"
  by (cases opt) simp_all

lemma k_next_chunk: "keeps e S k (next_chunk it) (\<lambda>_. True) k"
  unfolding next_chunk_def await_def
  apply (rule k_then [OF k_await [where R = "\<lambda>_. True"]], rule TrueI)
  apply (rule k_option, rule k_ret, rule TrueI)
  subgoal for x by (cases x; simp only: stream_item.case) (rule k_fail k_ret TrueI)+
  done

lemma k_read_endpoint: "keeps e S k (read_endpoint_from m buf seen stream) (\<lambda>_. True) k"
proof (induction stream arbitrary: buf seen)
  case Nil
  show ?case unfolding read_endpoint_from.simps by (rule k_then [OF k_next_chunk k_fail])
next
  case (Cons it rest)
  show ?case
    unfolding read_endpoint_from.simps
    apply (rule k_bind [OF k_next_chunk])
    subgoal for chunk
      apply (cases chunk, simp only: option.case, rule k_fail, simp only: option.case)
      apply (rule k_bind [OF k_lift [where R = "\<lambda>_. True"]], simp)
      apply (rule spec_if, rule k_fail)
      apply (rule k_bind [OF k_lift [where R = "\<lambda>_. True"]], simp)
      subgoal for b seen' r
        by (cases r; simp only: sum.case) (rule Cons.IH, rule k_ret, rule TrueI)
      done
    done
qed

lemma k_read_matching:
  "keeps e S k (read_matching_loop i lim acc stream) (\<lambda>r. answers i (fst r)) k"
proof (induction stream arbitrary: acc)
  case Nil
  show ?case unfolding read_matching_loop.simps by (rule k_then [OF k_next_chunk k_fail])
next
  case (Cons it rest)
  show ?case
    unfolding read_matching_loop.simps
    apply (rule k_bind [OF k_next_chunk])
    subgoal for chunk
      apply (cases chunk, simp only: option.case, rule k_fail, simp only: option.case)
      apply (rule k_bind [OF k_read [where R = "\<lambda>r. \<exists>b. r = push_and_try_find (e_parse e) acc b i lim"]], blast)
      subgoal for b r
        apply (cases r; cases "snd r"; simp only: prod.case sum.case snd_conv)
         apply (rule k_fail)
        subgoal for acc' r' o'
          apply (cases o'; simp only: option.case)
           apply (rule Cons.IH)
          apply (rule k_ret)
          by (auto dest: push_answers [OF sym])
        done
      done
    done
qed

lemma k_post:
  assumes "k < length S" and "S ! k = MessagePosted u body"
  shows "keeps e S k (post_message u body) (\<lambda>_. True) (Suc k)"
  unfolding post_message_def
  apply (rule k_then [OF k_send [OF _ assms]], simp)
  apply (rule k_bind [OF k_await [where R = "\<lambda>_. True"]], rule TrueI)
  subgoal for r
    by (cases r; simp only: http_result.case)
      (rule k_fail k_then [OF k_note] spec_if k_ret TrueI | simp only: is_send.simps not_False_eq_True)+
  done

lemma k_open:
  assumes "S ! 0 = StreamOpened u" and "0 < length S"
  shows "keeps e S 0 (open_stream u) (\<lambda>_. True) (Suc 0)"
  unfolding open_stream_def
  apply (rule k_then [OF k_send [OF _ assms(2,1)]], simp)
  apply (rule k_bind [OF k_await [where R = "\<lambda>_. True"]], rule TrueI)
  subgoal for r
    by (cases r; simp only: http_result.case)
      (rule k_fail k_then [OF k_note] spec_if k_ret TrueI | simp only: is_send.simps not_False_eq_True)+
  done

lemma k_lift_bind:
  "(\<And>x. r = Inr x \<Longrightarrow> keeps e S k (f x) R k') \<Longrightarrow> keeps e S k (lbind (lift g r) f) R k'"
  by (rule k_bind [OF k_lift [where R = "\<lambda>x. r = Inr x"]])

lemma k_lift_then:
  "(is_ok r \<Longrightarrow> keeps e S k n R k') \<Longrightarrow> keeps e S k (lthen (lift g r) n) R k'"
  unfolding lthen_def by (rule k_lift_bind) (simp only: is_ok_simps)

lemma k_read_bind: "(\<And>n. keeps e S k (g (f e n)) R k') \<Longrightarrow> keeps e S k (lbind (read_env f) g) R k'"
  by (rule k_bind [OF k_read [where R = "\<lambda>x. \<exists>n. x = f e n"]]) blast+

text \<open>What a completed call rests on: the answer on the stream under the id of the call.\<close>

definition call_answered :: "life_env \<Rightarrow> tool_call_request \<Rightarrow> json \<Rightarrow> bool" where
  "call_answered e request out \<longleftrightarrow> (\<exists>v response. answers (tool_call_request_id request) v
     \<and> e_call_value e v = Some response
     \<and> is_ok (validate_json_rpc_envelope response (tool_call_request_id request))
     \<and> rpc_error response = None \<and> rpc_result response = Some out)"

lemma k_check_init: "keeps e S k (check_init i v) (\<lambda>_. True) k"
  unfolding check_init_def
  by (rule k_read_bind k_lift_bind k_lift_then spec_if k_fail k_ret TrueI)+

lemma k_check_call:
  assumes "answers (tool_call_request_id request) v"
  shows "keeps e S k (check_call (tool_call_request_id request) v) (call_answered e request) k"
  unfolding check_call_def
  apply (rule k_read_bind k_lift_bind k_lift_then)+
  subgoal for n response
    apply (cases "rpc_error response"; simp only: option.case)
     apply (rule k_lift)
    using assms apply (simp add: call_answered_def, blast)
    by (rule k_fail)
  done

definition script :: "life_env \<Rightarrow> tool_target \<Rightarrow> tool_call_request \<Rightarrow> string \<Rightarrow> string \<Rightarrow> life_event list" where
  "script e target request u m =
     [StreamOpened u,
      MessagePosted m (RpcRequest (initialize_request_id request) ''initialize'' (init_params (e_pkg_version e))),
      MessagePosted m (RpcNotification ''notifications/initialized''),
      MessagePosted m (sse_call_body target request)]"

definition sse_resp_ok :: "life_env \<Rightarrow> tool_target \<Rightarrow> tool_call_request \<Rightarrow> tool_call_response \<Rightarrow> bool" where
  "sse_resp_ok e target request r \<longleftrightarrow> fair_billing target r
     \<and> (status r = Completed \<longrightarrow> call_answered e request (tool_output r))"

lemma sse_resp_ok_success:
  "call_answered e request out \<Longrightarrow> sse_resp_ok e target request (success_response ctx target request out i)"
  by (simp add: sse_resp_ok_def success_response_def fair_billing_def Let_def)

lemma sse_resp_ok_failure: "sse_resp_ok e target request (failure_response ctx target request f ms)"
  by (cases f) (simp_all add: sse_resp_ok_def failure_response_def fair_billing_def Let_def)

lemma k_exchange_messages:
  "keeps e (script e target request u m) (Suc 0) (exchange_messages ctx target request lim m stream)
     (\<lambda>r. status r = Completed \<and> sse_resp_ok e target request r) (Suc (Suc (Suc (Suc 0))))"
  unfolding exchange_messages_def Let_def read_matching_json_rpc_def
  apply (rule k_read_bind)
  apply (rule k_then [OF k_post], simp add: script_def, simp add: script_def)
  apply (rule k_bind [OF k_read_matching])
  subgoal for n r
    apply (cases r, simp only: prod.case)
    apply (rule k_bind [OF k_check_init])
    apply (rule k_then [OF k_post], simp add: script_def, simp add: script_def)
    apply (rule k_then [OF k_post], simp add: script_def, simp add: script_def eval_nat_numeral)
    apply (rule k_bind [OF k_read_matching])
    subgoal for v st i r2
      apply (cases r2, simp only: prod.case fst_conv)
      apply (rule k_bind [OF k_check_call], assumption)
      apply (rule k_ret)
      by (simp add: sse_resp_ok_success, simp add: success_response_def Let_def)
    done
  done

lemma sends_world0 [simp]: "pos S 0 world0"
  by (simp add: pos_def sends_def world0_def)

text \<open>What is known of the endpoint when messages are posted to it.\<close>

definition endpoint_ok ::
    "url_parser \<Rightarrow> (url \<Rightarrow> string \<Rightarrow> url option) \<Rightarrow> egress_policy \<Rightarrow> string \<Rightarrow> string \<Rightarrow> bool" where
  "endpoint_ok url_parse url_join egress u m \<longleftrightarrow> (\<exists>endpoint p.
     resolve_message_endpoint url_parse url_join u endpoint = Ok p \<and> m = as_text p
     \<and> is_ok (validate_target_url url_parse m egress))"

definition sse_ends ::
    "url_parser \<Rightarrow> (url \<Rightarrow> string \<Rightarrow> url option) \<Rightarrow> egress_policy \<Rightarrow> life_env \<Rightarrow> tool_target \<Rightarrow> tool_call_request
       \<Rightarrow> life_world \<Rightarrow> bool" where
  "sse_ends url_parse url_join egress e target request w \<longleftrightarrow> sends w = [] \<or>
     (\<exists>u. target_url target = Some u \<and> is_ok (validate_target_url url_parse u egress)
        \<and> (sends w = [StreamOpened u]
           \<or> (\<exists>m k. endpoint_ok url_parse url_join egress u m \<and> sends w = take k (script e target request u m))))"

lemma inner_spec:
  "spec e (\<lambda>w. w = world0)
     (sse_lifecycle_inner url_parse url_join client_ok ctx target request egress max_bytes)
     (\<lambda>r w. sse_resp_ok e target request r \<and> (\<exists>u m. target_url target = Some u
        \<and> is_ok (validate_target_url url_parse u egress) \<and> endpoint_ok url_parse url_join egress u m
        \<and> sends w = script e target request u m))
     (sse_ends url_parse url_join egress e target request)
     (sse_ends url_parse url_join egress e target request)"
proof (cases "target_url target")
  case None
  then show ?thesis
    by (simp add: sse_lifecycle_inner_def spec_def lfail_def sse_ends_def sends_def world0_def)
next
  case (Some u)
  let ?E = "sse_ends url_parse url_join egress e target request"
  let ?S = "[StreamOpened u]"
  show ?thesis
  proof (cases "is_ok (validate_target_url url_parse u egress) \<and> client_ok")
    case False
    then show ?thesis using Some
      by (cases "validate_target_url url_parse u egress")
        (auto simp: sse_lifecycle_inner_def spec_def lfail_def lift_def lthen_def lbind_def lret_def
          sse_ends_def sends_def world0_def)
  next
    case True
    have early: "upto ?S w \<Longrightarrow> ?E w" for w
      using Some True by (auto simp: upto_def pos_def sse_ends_def take_Cons' split: if_splits)
    have opened: "spec e (\<lambda>w. w = world0) (open_stream u) (\<lambda>_. pos ?S (Suc 0)) ?E ?E"
      by (rule spec_conseq [OF k_open [of ?S u e]]) (auto intro: early)
    have endpoint: "spec e (pos ?S (Suc 0)) (read_endpoint_event st max_bytes) (\<lambda>_. pos ?S (Suc 0)) ?E ?E" for st
      unfolding read_endpoint_event_def
      by (rule spec_conseq [OF k_read_endpoint]) (auto intro: early)
    have resolve: "spec e (pos ?S (Suc 0))
        (lift (\<lambda>_. FcMessageEndpointInvalid) (resolve_message_endpoint url_parse url_join u ep))
        (\<lambda>p w. pos ?S (Suc 0) w \<and> resolve_message_endpoint url_parse url_join u ep = Ok p) ?E ?E" for ep
      by (rule spec_lift) (auto intro: early pos_upto)
    have check: "spec e (\<lambda>w. pos ?S (Suc 0) w \<and> resolve_message_endpoint url_parse url_join u ep = Ok p)
        (lift (\<lambda>_. FcEgressBlocked) (validate_target_url url_parse (as_text p) egress))
        (\<lambda>_ w. pos ?S (Suc 0) w \<and> endpoint_ok url_parse url_join egress u (as_text p)) ?E ?E" for ep p
      by (rule spec_lift) (auto intro: early pos_upto simp: endpoint_ok_def)
    have talk: "spec e (\<lambda>w. pos ?S (Suc 0) w \<and> endpoint_ok url_parse url_join egress u m)
        (exchange_messages ctx target request lim m st)
        (\<lambda>r w. sse_resp_ok e target request r \<and> (\<exists>u m. target_url target = Some u
           \<and> is_ok (validate_target_url url_parse u egress) \<and> endpoint_ok url_parse url_join egress u m
           \<and> sends w = script e target request u m)) ?E ?E" for m lim st
    proof (cases "endpoint_ok url_parse url_join egress u m")
      case ok: True
      show ?thesis
        by (rule spec_conseq [OF k_exchange_messages [of e target request u m]])
          (use Some True ok in \<open>auto simp: pos_def upto_def sse_ends_def script_def\<close>)
    qed (simp add: spec_def)
    from True obtain z where z: "validate_target_url url_parse u egress = Ok z"
      by (cases "validate_target_url url_parse u egress") auto
    have start: "spec e (\<lambda>w. w = world0) (lift (\<lambda>_. FcEgressBlocked) (validate_target_url url_parse u egress))
        (\<lambda>_ w. w = world0) ?E ?E"
      unfolding z lift_def sum.case by (rule spec_ret) simp
    have "client_ok" using True by simp
    then show ?thesis
      unfolding sse_lifecycle_inner_def Some option.case lthen_def case_prod_beta
      by (simp only: simp_thms if_False)
        (rule spec_bind [OF start], rule spec_bind [OF opened], rule spec_bind [OF endpoint],
          rule spec_bind [OF resolve], rule spec_bind [OF check], rule talk [unfolded Some])
  qed
qed

lemma sse_sends:
  fixes url_parse url_join client_ok ctx target request egress max_bytes e
  defines "w \<equiv> snd (execute_sse_lifecycle url_parse url_join client_ok ctx target request egress max_bytes e)"
  shows "sends w = []
    \<or> (\<exists>u. target_url target = Some u \<and> is_ok (validate_target_url url_parse u egress)
        \<and> (sends w = [StreamOpened u]
           \<or> (\<exists>endpoint p k. resolve_message_endpoint url_parse url_join u endpoint = Ok p
               \<and> is_ok (validate_target_url url_parse (as_text p) egress)
               \<and> sends w = take k
                  [StreamOpened u,
                   MessagePosted (as_text p) (RpcRequest (initialize_request_id request) ''initialize''
                     (init_params (e_pkg_version e))),
                   MessagePosted (as_text p) (RpcNotification ''notifications/initialized''),
                   MessagePosted (as_text p) (sse_call_body target request)])))"
proof -
  obtain r w' where run: "sse_lifecycle_inner url_parse url_join client_ok ctx target request egress max_bytes e world0
      = (r, w')" by fastforce
  have "w = w'" using run by (cases r) (simp_all add: w_def execute_sse_lifecycle_def)
  moreover have "sse_ends url_parse url_join egress e target request w'"
  proof (cases r)
    case (LDone x)
    then obtain u m where "target_url target = Some u" "is_ok (validate_target_url url_parse u egress)"
        "endpoint_ok url_parse url_join egress u m" "sends w' = take 4 (script e target request u m)"
      using inner_spec [of e url_parse url_join client_ok ctx target request egress max_bytes] run
      by (auto simp: spec_def script_def)
    then show ?thesis unfolding sse_ends_def by blast
  qed (use inner_spec [of e url_parse url_join client_ok ctx target request egress max_bytes] run
      in \<open>simp_all add: spec_def\<close>)
  ultimately show ?thesis unfolding sse_ends_def endpoint_ok_def script_def by blast
qed

lemma sse_response:
  "\<exists>r w. execute_sse_lifecycle url_parse url_join client_ok ctx target request egress max_bytes e = (Ok r, w)
    \<and> fair_billing target r
    \<and> (if status r = Completed
       then call_answered e request (tool_output r) \<and> (\<exists>u m. sends w = script e target request u m)
       else amount_micros (cost r) = 0 \<and> resp_error r \<noteq> None)"
proof -
  obtain r w where run: "sse_lifecycle_inner url_parse url_join client_ok ctx target request egress max_bytes e world0
      = (r, w)" by fastforce
  note ends = inner_spec [of e url_parse url_join client_ok ctx target request egress max_bytes]
  have failed: "fair_billing target (failure_response ctx target request f ms)
      \<and> status (failure_response ctx target request f ms) \<noteq> Completed" for f ms
    by (cases f) (simp_all add: failure_response_def fair_billing_def Let_def)
  have free: "fair_billing target x \<Longrightarrow> status x \<noteq> Completed \<Longrightarrow> amount_micros (cost x) = 0 \<and> resp_error x \<noteq> None" for x
    by (simp add: fair_billing_def)
  show ?thesis
  proof (cases r)
    case (LDone x)
    then have x: "sse_resp_ok e target request x" "\<exists>u m. sends w = script e target request u m"
      using ends run by (auto simp: spec_def)
    let ?x = "x\<lparr>gateway_metadata := map_option (\<lambda>m. m\<lparr>latency_ms := Some (e_elapsed_ms e (w_awaits w))\<rparr>) (gateway_metadata x)\<rparr>"
    have "execute_sse_lifecycle url_parse url_join client_ok ctx target request egress max_bytes e = (Ok ?x, w)"
      using run LDone by (simp add: execute_sse_lifecycle_def)
    moreover have "fair_billing target ?x" using x(1) by (simp add: sse_resp_ok_def fair_billing_def)
    ultimately show ?thesis using x free [of ?x] by (auto simp: sse_resp_ok_def)
  next
    case (LFail f)
    then show ?thesis using run failed free by (simp add: execute_sse_lifecycle_def)
  next
    case LElapsed
    then show ?thesis using run failed free by (simp add: execute_sse_lifecycle_def)
  qed
qed

section \<open>Properties\<close>

text \<open>
  Property C29. What the lifecycle sends, whatever the server answers, and when it stops. Nothing is sent unless
  the egress policy passes the target's URL. The stream is opened first and once; the
  messages are sent in the order \<open>initialize\<close>, \<open>notifications/initialized\<close>, \<open>tools/call\<close>, each at most
  once, and all to one URL, which comes from resolving an endpoint event against the target's URL, and
  which the egress policy has passed again.
\<close>

theorem mcp_sse_conversation:
  fixes url_parse url_join client_ok ctx target request egress max_bytes e
  defines "w \<equiv> snd (execute_sse_lifecycle url_parse url_join client_ok ctx target request egress max_bytes e)"
  shows "sends w = []
    \<or> (\<exists>u. target_url target = Some u \<and> is_ok (validate_target_url url_parse u egress)
        \<and> (sends w = [StreamOpened u]
           \<or> (\<exists>endpoint p k. resolve_message_endpoint url_parse url_join u endpoint = Ok p
               \<and> is_ok (validate_target_url url_parse (as_text p) egress)
               \<and> sends w = take k
                  [StreamOpened u,
                   MessagePosted (as_text p) (RpcRequest (initialize_request_id request) ''initialize''
                     (init_params (e_pkg_version e))),
                   MessagePosted (as_text p) (RpcNotification ''notifications/initialized''),
                   MessagePosted (as_text p) (sse_call_body target request)])))"
  unfolding w_def by (rule sse_sends)

text \<open>
  Property C30. Every run gives a response with a fair bill. A completed response carries the result of an
  answer found on the stream under the id of the call, a valid envelope with no error member, after
  the whole conversation has taken place; any other response carries an error and costs nothing.
\<close>

theorem mcp_sse_billing:
  "\<exists>r w. execute_sse_lifecycle url_parse url_join client_ok ctx target request egress max_bytes e = (Ok r, w)
    \<and> fair_billing target r
    \<and> (if status r = Completed
       then call_answered e request (tool_output r) \<and> (\<exists>u m. sends w = script e target request u m)
       else amount_micros (cost r) = 0 \<and> resp_error r \<noteq> None)"
  by (rule sse_response)

definition two_answers :: "stream_item list \<Rightarrow> json sse_life" where
  "two_answers stream =
     lbind (read_matching_json_rpc stream ''6'' default_sse_limits) (\<lambda>r.
     lbind (read_matching_json_rpc (snd r) ''7'' default_sse_limits) (\<lambda>r2. lret (fst r2)))"

definition cut_env :: life_env where
  "cut_env = \<lparr>e_http = (\<lambda>_. SendFailed), e_load = (\<lambda>_. None), e_lock = (\<lambda>_. LockBusy), e_role = (\<lambda>_. FlightOwner),
     e_utc = (\<lambda>_. 0), e_elapsed_ms = (\<lambda>_. 0), e_deadline = 9, e_parse = ex_rpc_parse,
     e_init_value = (\<lambda>_. None), e_init_slice = (\<lambda>_. None), e_call_value = (\<lambda>_. None),
     e_call_slice = (\<lambda>_. None), e_pkg_version = []\<rparr>"

definition cut_stream :: "stream_item list" where
  "cut_stream = [Chunk (''data: 1'' @ [LF, LF] @ '':'' @ [CHR 0xC3]), Chunk ([CHR 0xA9, LF, LF] @ ''data: 2'' @ [LF, LF])]"

definition whole_stream :: "stream_item list" where
  "whole_stream = [Chunk (''data: 1'' @ [LF, LF]), Chunk ('':'' @ [CHR 0xC3, CHR 0xA9, LF, LF] @ ''data: 2'' @ [LF, LF])]"

lemma cut_utf8: "from_utf8 (CHR 0xC3 # CHR 0xA9 # s) = from_utf8 s" "\<not> from_utf8 (CHR 0xA9 # s)"
  by (subst from_utf8.simps, simp add: in_range_def byte_def)+

text \<open>
  What follows an answer in its chunk is lost. Two streams with the same bytes, two answers with a
  comment between them: when the chunk ends at the first answer both are found; when it also holds the
  first byte of a two-byte character of the comment, the second reader starts in the
  middle of that character and reports a protocol error.
\<close>

lemma mcp_sse_drops_rest_of_chunk:
  "chunk_bytes cut_stream = chunk_bytes whole_stream
   \<and> fst (two_answers whole_stream cut_env world0) = LDone (JObject [(''id'', JString ''7'')])
   \<and> fst (two_answers cut_stream cut_env world0) = LFail FcProtocolError"
proof (intro conjI)
  show "chunk_bytes cut_stream = chunk_bytes whole_stream" by (simp add: cut_stream_def whole_stream_def)
  show "fst (two_answers whole_stream cut_env world0) = LDone (JObject [(''id'', JString ''7'')])"
    by (simp add: two_answers_def whole_stream_def cut_env_def read_matching_json_rpc_def next_chunk_def lbind_def
        lthen_def await_def await_for_def world0_def lret_def read_env_def sse_eval ex_rpc_parse_def
        default_sse_limits_def cut_utf8)
  show "fst (two_answers cut_stream cut_env world0) = LFail FcProtocolError"
    by (simp add: two_answers_def cut_stream_def cut_env_def read_matching_json_rpc_def next_chunk_def lbind_def
        lthen_def await_def await_for_def world0_def lret_def lfail_def read_env_def sse_eval ex_rpc_parse_def
        default_sse_limits_def cut_utf8)
qed

end
