(* ===== verification/Openapi_Mapping.thy ===== *)
theory Openapi_Mapping
  imports Egress Tool_Types
begin

text \<open>
  The OpenAPI tools (\<open>agent/tools/openapi/\<close>): the runtime target, the plan of a request with its path,
  query, headers and body, and the outcome with its bill. The operations of the \<open>url\<close> crate on a parsed
  URL, the header names of the \<open>http\<close> crate and the printing of numbers are parameters; the texts that
  these crates add to an error message are left out.
\<close>

section \<open>Types\<close>

datatype parameter_location = InPath | InQuery | InHeader

record value_source =
  argument_path :: "string option"
  literal :: "json option"
  secret_ref :: "string option"

definition default_value_source :: value_source where
  "default_value_source = \<lparr>argument_path = None, literal = None, secret_ref = None\<rparr>"

record parameter_mapping =
  location :: parameter_location
  map_name :: string
  map_source :: value_source
  required :: bool

record runtime_openapi_target = openapi_target +
  o_target_hash :: string
  o_service_slug :: string
  o_operation_id :: string
  o_operation_slug :: string
  o_auth_config_ref :: string
  o_auth_revision :: nat
  base_url :: string
  path_template :: string
  o_max_response_bytes :: nat
  response_content_types :: "string list"
  parameter_mappings :: "parameter_mapping list"
  request_body_mapping :: "value_source option"
  o_detect_business_errors :: bool
  o_validation :: "json option"
  o_request_contract :: "json option"

definition default_openapi_target :: runtime_openapi_target where
  "default_openapi_target =
     \<lparr>allowed_scheme = [], canonical_host = [], allowed_port = 0, o_target_hash = [], o_service_slug = [],
      o_operation_id = [], o_operation_slug = [], o_auth_config_ref = [], o_auth_revision = 0, base_url = [],
      path_template = [], o_max_response_bytes = 0, response_content_types = [], parameter_mappings = [],
      request_body_mapping = None, o_detect_business_errors = False, o_validation = None,
      o_request_contract = None\<rparr>"

record request_plan =
  plan_method :: string
  plan_url :: url
  plan_headers :: "(string \<times> string) list"
  plan_body :: "json option"
  plan_request_bytes :: nat

datatype mapping_error = MappingFailed string | UnsupportedSecret

text \<open>What the build uses of the crates \<open>url\<close>, \<open>http\<close> and \<open>serde_json\<close>.\<close>

record openapi_lib =
  lib_parse :: url_parser
  lib_path :: "url \<Rightarrow> string"
  lib_set_path :: "url \<Rightarrow> string \<Rightarrow> url"
  lib_append_pairs :: "url \<Rightarrow> (string \<times> string) list \<Rightarrow> url"
  lib_query_pairs :: "url \<Rightarrow> (string \<times> string) list"
  lib_header_name :: "string \<Rightarrow> string option"
  lib_show_number :: "json_number \<Rightarrow> string"
  lib_to_string :: json_printer

section \<open>The request plan\<close>

fun resolve_segments :: "json \<Rightarrow> string list \<Rightarrow> json option" where
  "resolve_segments current [] = (if current = JNull then None else Some current)"
| "resolve_segments current (seg # segs) =
     (case get seg current of None \<Rightarrow> None | Some v \<Rightarrow> resolve_segments v segs)"

definition resolve_argument_path :: "json \<Rightarrow> string \<Rightarrow> mapping_error + json option" where
  "resolve_argument_path arguments path =
     (case strip_prefix ''$.'' path of
        None \<Rightarrow> Err (MappingFailed (''unsupported argument path `'' @ path @ ''`''))
      | Some rest \<Rightarrow>
          if rest = [] \<or> list_ex (\<lambda>s. s = []) (split (CHR ''.'') rest)
          then Err (MappingFailed (''unsupported argument path `'' @ path @ ''`''))
          else Ok (resolve_segments arguments (split (CHR ''.'') rest)))"

definition resolve_value :: "value_source \<Rightarrow> json \<Rightarrow> mapping_error + json option" where
  "resolve_value source arguments =
     (if secret_ref source \<noteq> None then Err UnsupportedSecret
      else case literal source of
        Some v \<Rightarrow> Ok (Some v)
      | None \<Rightarrow>
          (case argument_path source of
             Some path \<Rightarrow> resolve_argument_path arguments path
           | None \<Rightarrow> Ok None))"

fun scalar_to_string :: "(json_number \<Rightarrow> string) \<Rightarrow> json \<Rightarrow> string option" where
  "scalar_to_string show_number (JString s) = Some s"
| "scalar_to_string show_number (JNumber n) = Some (show_number n)"
| "scalar_to_string show_number (JBool b) = Some (if b then ''true'' else ''false'')"
| "scalar_to_string show_number _ = None"

definition is_reserved_header :: "string \<Rightarrow> bool" where
  "is_reserved_header name \<longleftrightarrow> name \<in> {''host'', ''authorization'', ''cookie'', ''content-length'',
     ''x-forwarded-for'', ''x-forwarded-host'', ''x-forwarded-proto''}"

definition normalize_header_name :: "(string \<Rightarrow> string option) \<Rightarrow> string \<Rightarrow> mapping_error + string" where
  "normalize_header_name header_name name =
     (case header_name name of
        None \<Rightarrow> Err (MappingFailed (''invalid header name `'' @ name @ ''`''))
      | Some normalized \<Rightarrow>
          if is_reserved_header normalized
          then Err (MappingFailed (''reserved header `'' @ normalized @ ''` cannot be mapped''))
          else Ok normalized)"

definition contains_forbidden_path_value :: "string \<Rightarrow> bool" where
  "contains_forbidden_path_value v \<longleftrightarrow> v = ''.'' \<or> v = ''..'' \<or> CHR ''/'' \<in> set v \<or> CHR ''?'' \<in> set v
     \<or> CHR ''#'' \<in> set v \<or> contains (to_ascii_lowercase v) ''%2f''"

definition has_unresolved_path_template_parameter :: "string \<Rightarrow> bool" where
  "has_unresolved_path_template_parameter path \<longleftrightarrow> CHR ''{'' \<in> set path \<or> CHR ''}'' \<in> set path"

definition join_base_and_template_path :: "string \<Rightarrow> string \<Rightarrow> string" where
  "join_base_and_template_path base_path template_path =
     (let base = trim_end_matches (CHR ''/'') base_path;
          template = trim_start_matches (CHR ''/'') template_path in
      if base = [] \<and> template = [] then ''/''
      else if base = [] then ''/'' @ template
      else if template = [] then base
      else base @ ''/'' @ template)"

definition hex_digit :: "nat \<Rightarrow> char" where
  "hex_digit n = (if n < 10 then char_of (48 + n) else char_of (55 + n))"

definition is_unreserved :: "char \<Rightarrow> bool" where
  "is_unreserved c \<longleftrightarrow> is_ascii_alphanumeric c \<or> c \<in> {CHR ''-'', CHR ''.'', CHR ''_'', CHR ''~''}"

definition percent_encode_path_segment :: "string \<Rightarrow> string" where
  "percent_encode_path_segment v =
     concat (map (\<lambda>c. if is_unreserved c then [c]
       else [CHR ''%'', hex_digit (byte c div 16), hex_digit (byte c mod 16)]) v)"

definition estimate_request_bytes ::
    "json_printer \<Rightarrow> string \<Rightarrow> url \<Rightarrow> (string \<times> string) list \<Rightarrow> json option \<Rightarrow> nat" where
  "estimate_request_bytes to_string method u headers body =
     length method + length (as_text u)
     + sum_list (map (\<lambda>(name, value). length name + length value + 4) headers)
     + (case body of None \<Rightarrow> 0 | Some b \<Rightarrow> length (to_string b))"

definition placeholder :: "string \<Rightarrow> string" where
  "placeholder name = ''{'' @ name @ ''}''"

text \<open>One round of the loop over the parameters; the state is the path, the query and the headers.\<close>

type_synonym plan_state = "string \<times> (string \<times> string) list \<times> (string \<times> string) list"

definition apply_mapping ::
    "openapi_lib \<Rightarrow> json \<Rightarrow> parameter_mapping \<Rightarrow> plan_state \<Rightarrow> mapping_error + plan_state" where
  "apply_mapping lib arguments m = (\<lambda>(path, query, headers).
     and_then (resolve_value (map_source m) arguments) (\<lambda>value.
     case value of
       None \<Rightarrow>
         if required m then Err (MappingFailed (''required parameter `'' @ map_name m @ ''` is missing''))
         else Ok (path, query, headers)
     | Some v \<Rightarrow>
         (case location m of
            InPath \<Rightarrow>
              if \<not> contains path (placeholder (map_name m))
              then Err (MappingFailed (''path parameter `'' @ map_name m
                @ ''` has no matching path template placeholder''))
              else (case scalar_to_string (lib_show_number lib) v of
                 None \<Rightarrow> Err (MappingFailed (''path parameter `'' @ map_name m @ ''` is not scalar''))
               | Some s \<Rightarrow>
                   if contains_forbidden_path_value s
                   then Err (MappingFailed (''path parameter `'' @ map_name m
                     @ ''` contains forbidden path characters''))
                   else Ok (replace_all (placeholder (map_name m)) (percent_encode_path_segment s) path,
                     query, headers))
          | InQuery \<Rightarrow>
              (case scalar_to_string (lib_show_number lib) v of
                 None \<Rightarrow>
                   if required m then Err (MappingFailed (''query parameter `'' @ map_name m @ ''` is not scalar''))
                   else Ok (path, query, headers)
               | Some s \<Rightarrow> Ok (path, query @ [(map_name m, s)], headers))
          | InHeader \<Rightarrow>
              and_then (normalize_header_name (lib_header_name lib) (map_name m)) (\<lambda>name.
              case scalar_to_string (lib_show_number lib) v of
                None \<Rightarrow>
                  if required m then Err (MappingFailed (''header `'' @ map_name m @ ''` is not scalar''))
                  else Ok (path, query, headers)
              | Some s \<Rightarrow> Ok (path, query, headers @ [(name, s)])))))"

fun apply_mappings ::
    "openapi_lib \<Rightarrow> json \<Rightarrow> parameter_mapping list \<Rightarrow> plan_state \<Rightarrow> mapping_error + plan_state" where
  "apply_mappings lib arguments [] st = Ok st"
| "apply_mappings lib arguments (m # ms) st =
     and_then (apply_mapping lib arguments m st) (apply_mappings lib arguments ms)"

definition build_request_plan ::
    "openapi_lib \<Rightarrow> string \<Rightarrow> runtime_openapi_target \<Rightarrow> json \<Rightarrow> mapping_error + request_plan" where
  "build_request_plan lib method target arguments =
     (let method' = (if trim method = [] then ''GET'' else to_ascii_uppercase (trim method)) in
      and_then (apply_mappings lib arguments (parameter_mappings target) (path_template target, [], []))
        (\<lambda>(path, query, headers).
      if has_unresolved_path_template_parameter path
      then Err (MappingFailed ''path template contains unresolved parameters'')
      else case lib_parse lib (base_url target) of
        None \<Rightarrow> Err (MappingFailed ''invalid base URL'')
      | Some u \<Rightarrow>
          (let u1 = lib_set_path lib u (join_base_and_template_path (lib_path lib u) path);
               u2 = (if query = [] then u1 else lib_append_pairs lib u1 query) in
           and_then (case request_body_mapping target of
               None \<Rightarrow> Ok None
             | Some source \<Rightarrow> resolve_value source arguments) (\<lambda>body.
           Ok \<lparr>plan_method = method', plan_url = u2, plan_headers = headers, plan_body = body,
               plan_request_bytes = estimate_request_bytes (lib_to_string lib) method' u2 headers body\<rparr>))))"

section \<open>The outcome\<close>

datatype openapi_outcome_status =
    HttpStatus nat
  | OaSchemaInvalid
  | OaPolicyBlocked
  | OaEgressBlocked
  | OaSnapshotStale
  | OaTimeout
  | OaRequestTooLarge
  | OaResponseTooLarge
  | OaInvalidJsonResponse
  | OaInternalError

record outcome_input =
  oi_status :: openapi_outcome_status
  oi_fixed_micros :: nat
  oi_currency :: string
  oi_charge_on_failure :: bool
  oi_tool_execution_id :: string

record outcome_decision =
  od_status :: tool_status
  od_error :: "tool_error_envelope option"
  od_billing :: tool_billing
  od_executed :: bool
  od_failure_stage :: string
  od_billing_status :: string
  od_billing_reason :: string

definition oa_error :: "string \<Rightarrow> string \<Rightarrow> tool_error_envelope" where
  "oa_error code message = \<lparr>envelope_code = code, envelope_message = message, envelope_retryable = False\<rparr>"

definition oa_billing :: "bool \<Rightarrow> nat \<Rightarrow> string \<Rightarrow> string \<Rightarrow> string \<Rightarrow> tool_billing" where
  "oa_billing is_billable micros cur key reason =
     \<lparr>bill_reason = reason, billable = is_billable, cost_micros = micros, bill_currency = cur, dedupe_key = key\<rparr>"

definition billable_cost :: "bool \<Rightarrow> nat \<Rightarrow> nat" where
  "billable_cost is_billable micros = (if is_billable then micros else 0)"

definition waived_failure ::
    "tool_status \<Rightarrow> string \<Rightarrow> string \<Rightarrow> string \<Rightarrow> string \<Rightarrow> string \<Rightarrow> string \<Rightarrow> bool \<Rightarrow> outcome_decision" where
  "waived_failure st cur key stage code reason message was_executed =
     \<lparr>od_status = st, od_error = Some (oa_error code message), od_billing = oa_billing False 0 cur key reason,
      od_executed = was_executed, od_failure_stage = stage, od_billing_status = ''waived'',
      od_billing_reason = reason\<rparr>"

text \<open>An answer of the upstream with a client or a server error: \<open>fam\<close> is \<open>4xx\<close> or \<open>5xx\<close>.\<close>

definition charged_failure :: "outcome_input \<Rightarrow> string \<Rightarrow> string \<Rightarrow> outcome_decision" where
  "charged_failure i key fam =
     (let reason = ''openapi_'' @ fam @ (if oi_charge_on_failure i then ''_per_call'' else ''_waived'') in
      \<lparr>od_status = Failed,
       od_error = Some (oa_error (''openapi_http_'' @ fam) (''OpenAPI upstream returned '' @ fam)),
       od_billing = oa_billing (oi_charge_on_failure i)
         (billable_cost (oi_charge_on_failure i) (oi_fixed_micros i)) (oi_currency i) key reason,
       od_executed = True, od_failure_stage = ''upstream'',
       od_billing_status = (if oi_charge_on_failure i then ''billable'' else ''waived''),
       od_billing_reason = reason\<rparr>)"

definition decide :: "outcome_input \<Rightarrow> outcome_decision" where
  "decide i =
     (let key = ''tool_execution:'' @ oi_tool_execution_id i; cur = oi_currency i in
      case oi_status i of
        HttpStatus s \<Rightarrow>
          if 200 \<le> s \<and> s \<le> 299 then
            \<lparr>od_status = Completed, od_error = None,
             od_billing = oa_billing True (oi_fixed_micros i) cur key ''openapi_2xx'', od_executed = True,
             od_failure_stage = [], od_billing_status = ''actual'', od_billing_reason = ''openapi_2xx''\<rparr>
          else if 400 \<le> s \<and> s \<le> 499 then charged_failure i key ''4xx''
          else if 500 \<le> s \<and> s \<le> 599 then charged_failure i key ''5xx''
          else
            \<lparr>od_status = Failed, od_error = Some (oa_error ''openapi_unexpected_http_status''
               ''OpenAPI upstream returned unexpected HTTP status''),
             od_billing = oa_billing False 0 cur key ''unexpected_http_status'', od_executed = True,
             od_failure_stage = ''upstream'', od_billing_status = ''waived'',
             od_billing_reason = ''unexpected_http_status''\<rparr>
      | OaSchemaInvalid \<Rightarrow> waived_failure Failed cur key ''schema'' ''openapi_schema_invalid'' ''schema_invalid''
          ''OpenAPI request schema validation failed'' False
      | OaPolicyBlocked \<Rightarrow> waived_failure Blocked cur key ''policy'' ''openapi_policy_blocked'' ''policy_blocked''
          ''OpenAPI tool call blocked by policy'' False
      | OaEgressBlocked \<Rightarrow> waived_failure Blocked cur key ''egress'' ''openapi_egress_blocked'' ''egress_blocked''
          ''OpenAPI egress blocked'' False
      | OaSnapshotStale \<Rightarrow> waived_failure Failed cur key ''snapshot'' ''openapi_snapshot_stale'' ''snapshot_stale''
          ''OpenAPI target snapshot is stale'' False
      | OaTimeout \<Rightarrow>
          \<lparr>od_status = Timeout, od_error = Some (oa_error ''openapi_timeout'' ''OpenAPI upstream timed out''),
           od_billing = oa_billing False 0 cur key ''timeout'', od_executed = True,
           od_failure_stage = ''timeout'', od_billing_status = ''waived'', od_billing_reason = ''timeout''\<rparr>
      | OaRequestTooLarge \<Rightarrow> waived_failure Failed cur key ''request'' ''openapi_request_too_large''
          ''request_too_large'' ''OpenAPI request exceeded size limit'' False
      | OaResponseTooLarge \<Rightarrow> waived_failure Failed cur key ''response'' ''openapi_response_too_large''
          ''response_too_large'' ''OpenAPI response exceeded size limit'' True
      | OaInvalidJsonResponse \<Rightarrow> waived_failure Failed cur key ''response'' ''openapi_invalid_json_response''
          ''invalid_json_response'' ''OpenAPI response was not valid JSON'' True
      | OaInternalError \<Rightarrow> waived_failure Failed cur key ''internal'' ''openapi_internal_error'' ''internal_error''
          ''OpenAPI gateway internal error'' False)"

section \<open>The path is a substitution\<close>

text \<open>
  The specification of a path: a template is a sequence of literal pieces and placeholders, and a request
  puts at each placeholder the encoding of its own argument, all at the same time. The code replaces one
  placeholder after the other in the string.
\<close>

datatype piece = Lit string | Hole string

fun unparse_piece :: "piece \<Rightarrow> string" where
  "unparse_piece (Lit s) = s"
| "unparse_piece (Hole n) = placeholder n"

definition unparse :: "piece list \<Rightarrow> string" where
  "unparse ps = concat (map unparse_piece ps)"

definition brace_free :: "string \<Rightarrow> bool" where
  "brace_free s \<longleftrightarrow> CHR ''{'' \<notin> set s \<and> CHR ''}'' \<notin> set s"

fun piece_text :: "piece \<Rightarrow> string" where
  "piece_text (Lit s) = s"
| "piece_text (Hole n) = n"

definition wf_template :: "piece list \<Rightarrow> bool" where
  "wf_template ps \<longleftrightarrow> list_all (\<lambda>p. brace_free (piece_text p)) ps"

fun fill_piece :: "(string \<Rightarrow> string) \<Rightarrow> piece \<Rightarrow> string" where
  "fill_piece sub (Lit s) = s"
| "fill_piece sub (Hole n) = percent_encode_path_segment (sub n)"

definition fill :: "(string \<Rightarrow> string) \<Rightarrow> piece list \<Rightarrow> string" where
  "fill sub ps = concat (map (fill_piece sub) ps)"

definition path_argument :: "openapi_lib \<Rightarrow> json \<Rightarrow> parameter_mapping \<Rightarrow> string option" where
  "path_argument lib arguments m =
     (case resolve_value (map_source m) arguments of
        Inr (Some v) \<Rightarrow> scalar_to_string (lib_show_number lib) v
      | _ \<Rightarrow> None)"

definition is_delimiter :: "char \<Rightarrow> bool" where
  "is_delimiter c \<longleftrightarrow> c \<in> {CHR ''/'', CHR ''?'', CHR ''#''}"

subsection \<open>The encoding\<close>

lemma hex_digit_unreserved: "n < 16 \<Longrightarrow> is_unreserved (hex_digit n)"
  by (auto simp: hex_digit_def is_unreserved_def is_ascii_alphanumeric_def is_ascii_digit_def
      is_ascii_uppercase_def is_ascii_lowercase_def byte_def)

lemma unreserved_plain:
  "is_unreserved c \<Longrightarrow> \<not> is_delimiter c \<and> c \<noteq> CHR ''{'' \<and> c \<noteq> CHR ''}'' \<and> c \<noteq> CHR ''%''"
  by (auto simp: is_unreserved_def is_delimiter_def is_ascii_alphanumeric_def is_ascii_digit_def
      is_ascii_uppercase_def is_ascii_lowercase_def byte_def)

lemma percent_encode_simps [simp]:
  "percent_encode_path_segment [] = []"
  "percent_encode_path_segment (c # s) = (if is_unreserved c then [c]
     else [CHR ''%'', hex_digit (byte c div 16), hex_digit (byte c mod 16)]) @ percent_encode_path_segment s"
  by (simp_all add: percent_encode_path_segment_def)

lemma byte_div_16: "byte c div 16 < 16"
  using byte_bound [of c] by simp

lemma percent_encode_chars:
  "c \<in> set (percent_encode_path_segment s) \<Longrightarrow> is_unreserved c \<or> c = CHR ''%''"
  by (induction s) (auto split: if_splits simp: hex_digit_unreserved byte_div_16)

lemma percent_encode_plain:
  "c \<in> set (percent_encode_path_segment s) \<Longrightarrow> \<not> is_delimiter c \<and> c \<noteq> CHR ''{'' \<and> c \<noteq> CHR ''}''"
  using percent_encode_chars [of c s] unreserved_plain [of c] by (auto simp: is_delimiter_def)

lemma percent_encode_brace_free: "brace_free (percent_encode_path_segment s)"
  using percent_encode_plain [of _ s] by (auto simp: brace_free_def)

text \<open>A reference decoder, as a server applies it to a segment.\<close>

definition hex_value :: "char \<Rightarrow> nat option" where
  "hex_value c =
     (if is_ascii_digit c then Some (byte c - 48)
      else if 65 \<le> byte c \<and> byte c \<le> 70 then Some (byte c - 55)
      else if 97 \<le> byte c \<and> byte c \<le> 102 then Some (byte c - 87)
      else None)"

fun percent_decode :: "string \<Rightarrow> string" where
  "percent_decode (c # h # l # s) =
     (if c = CHR ''%'' then
        (case (hex_value h, hex_value l) of
           (Some a, Some b) \<Rightarrow> char_of (16 * a + b) # percent_decode s
         | _ \<Rightarrow> c # percent_decode (h # l # s))
      else c # percent_decode (h # l # s))"
| "percent_decode s = s"

lemma byte_char_of: "n < 256 \<Longrightarrow> byte (char_of n) = n"
  by (simp add: byte_def)

lemma hex_value_digit: "n < 16 \<Longrightarrow> hex_value (hex_digit n) = Some n"
  by (auto simp: hex_value_def hex_digit_def byte_char_of is_ascii_digit_def)

lemma percent_decode_plain: "c \<noteq> CHR ''%'' \<Longrightarrow> percent_decode (c # s) = c # percent_decode s"
  by (cases s rule: percent_decode.cases) (auto)

lemma percent_decode_escape:
  "\<lbrakk>a < 16; b < 16\<rbrakk> \<Longrightarrow> percent_decode (CHR ''%'' # hex_digit a # hex_digit b # s)
     = char_of (16 * a + b) # percent_decode s"
  by (simp add: hex_value_digit)

lemma char_of_byte [simp]: "char_of (byte c) = c"
  by (simp add: byte_def)

lemma percent_decode_encode: "percent_decode (percent_encode_path_segment s) = s"
proof (induction s)
  case (Cons c s)
  show ?case
  proof (cases "is_unreserved c")
    case True
    then show ?thesis
      using unreserved_plain [OF True] by (simp add: Cons.IH percent_decode_plain)
  next
    case False
    then show ?thesis
      by (simp add: Cons.IH percent_decode_escape byte_div_16 del: percent_decode.simps)
  qed
qed simp

subsection \<open>Replacing a placeholder\<close>

definition put :: "string \<Rightarrow> string \<Rightarrow> piece list \<Rightarrow> piece list" where
  "put n v ps = map (\<lambda>p. if p = Hole n then Lit v else p) ps"

lemma unparse_simps [simp]: "unparse [] = []" "unparse (p # ps) = unparse_piece p @ unparse ps"
  by (simp_all add: unparse_def)

lemma fill_simps [simp]: "fill sub [] = []" "fill sub (p # ps) = fill_piece sub p @ fill sub ps"
  by (simp_all add: fill_def)

lemma wf_template_simps [simp]:
  "wf_template []" "wf_template (p # ps) \<longleftrightarrow> brace_free (piece_text p) \<and> wf_template ps"
  by (simp_all add: wf_template_def)

lemma other_placeholder:
  assumes "brace_free n" "brace_free m" "n \<noteq> m"
  shows "strip_prefix (placeholder n) (placeholder m @ r) = None"
proof (rule ccontr)
  assume "strip_prefix (placeholder n) (placeholder m @ r) \<noteq> None"
  then obtain x where "m @ CHR ''}'' # r = n @ CHR ''}'' # x"
    by (auto simp: strip_prefix_Some placeholder_def)
  moreover have "CHR ''}'' \<notin> set m" "CHR ''}'' \<notin> set n"
    using assms by (auto simp: brace_free_def)
  ultimately have "m = n"
    by (metis split_once_append option.inject prod.inject)
  then show False using assms by simp
qed

lemma replace_placeholder:
  assumes "brace_free n" "wf_template ps"
  shows "replace_all (placeholder n) v (unparse ps) = unparse (put n v ps)"
  using assms(2)
proof (induction ps)
  case (Cons p ps)
  have head: "placeholder n = CHR ''{'' # (n @ ''}'')" by (simp add: placeholder_def)
  note IH = Cons.IH and wf = Cons.prems
  show ?case
  proof (cases p)
    case (Lit s)
    then show ?thesis
      using wf IH by (simp add: put_def brace_free_def replace_all_skips [OF head])
  next
    case (Hole m)
    show ?thesis
    proof (cases "m = n")
      case True
      then show ?thesis
        using Hole wf IH replace_all_hit [of "placeholder n" v "unparse ps"] head by (simp add: put_def)
    next
      case False
      have "strip_prefix (placeholder n) (CHR ''{'' # (m @ ''}'') @ unparse ps) = None"
        using other_placeholder [of n m "unparse ps"] assms(1) wf Hole False by (simp add: placeholder_def)
      then have "replace_all (placeholder n) v (CHR ''{'' # (m @ ''}'') @ unparse ps)
          = CHR ''{'' # (m @ ''}'') @ replace_all (placeholder n) v (unparse ps)"
        using wf Hole by (simp only: replace_all_miss) (subst replace_all_skips [OF head], auto simp: brace_free_def)
      then show ?thesis using Hole wf IH False by (simp add: put_def placeholder_def)
    qed
  qed
qed (simp add: put_def)

lemma wf_put: "\<lbrakk>wf_template ps; brace_free v\<rbrakk> \<Longrightarrow> wf_template (put n v ps)"
  by (induction ps) (auto simp: put_def)

lemma fill_put:
  "fill sub (put n (percent_encode_path_segment v) ps) = fill (sub(n := v)) ps"
proof (induction ps)
  case (Cons p ps)
  then show ?case by (cases p) (auto simp: put_def)
qed (simp add: put_def)

lemma no_holes: "\<not> has_unresolved_path_template_parameter (unparse ps) \<Longrightarrow> Hole n \<notin> set ps"
  by (induction ps) (auto simp: has_unresolved_path_template_parameter_def placeholder_def)

lemma fill_no_holes: "(\<And>n. Hole n \<notin> set ps) \<Longrightarrow> fill sub ps = unparse ps"
proof (induction ps)
  case (Cons p ps)
  then show ?case by (cases p) auto
qed simp

subsection \<open>The loop over the parameters\<close>

definition path_names_ok :: "parameter_mapping list \<Rightarrow> bool" where
  "path_names_ok ms \<longleftrightarrow> list_all (\<lambda>m. location m = InPath \<longrightarrow> brace_free (map_name m)) ms"

text \<open>What a value must be to stand for a placeholder: the argument of one of the mappings, allowed in a path.\<close>

definition supplied :: "openapi_lib \<Rightarrow> json \<Rightarrow> parameter_mapping list \<Rightarrow> string \<Rightarrow> string \<Rightarrow> bool" where
  "supplied lib arguments ms n v \<longleftrightarrow> \<not> contains_forbidden_path_value v
     \<and> (\<exists>m \<in> set ms. location m = InPath \<and> map_name m = n \<and> path_argument lib arguments m = Some v)"

lemma apply_mapping_path:
  assumes "apply_mapping lib arguments m (path, q, h) = Ok (path', q', h')"
  shows "path' = path \<or> (\<exists>v. location m = InPath \<and> supplied lib arguments [m] (map_name m) v
    \<and> path' = replace_all (placeholder (map_name m)) (percent_encode_path_segment v) path)"
proof -
  from assms obtain r where r: "resolve_value (map_source m) arguments = Ok r"
    by (auto simp: apply_mapping_def)
  show ?thesis
  proof (cases r)
    case None
    then show ?thesis using assms r by (auto simp: apply_mapping_def split: if_splits)
  next
    case (Some v)
    then show ?thesis
      using assms r
      by (cases "location m"; cases "scalar_to_string (lib_show_number lib) v")
        (auto simp: apply_mapping_def supplied_def path_argument_def split: if_splits)
  qed
qed

lemma apply_mappings_fill:
  assumes "apply_mappings lib arguments ms (unparse ps, q, h) = Ok (path, q', h')"
    and "wf_template ps" "path_names_ok ms" "\<not> has_unresolved_path_template_parameter path"
  shows "\<exists>sub. path = fill sub ps \<and> (\<forall>n. Hole n \<in> set ps \<longrightarrow> supplied lib arguments ms n (sub n))"
  using assms
proof (induction ms arbitrary: ps q h)
  case Nil
  then have "path = unparse ps" by simp
  then show ?case using Nil no_holes [of ps] fill_no_holes [of ps] by auto
next
  case (Cons m ms)
  obtain p1 q1 h1 where step: "apply_mapping lib arguments m (unparse ps, q, h) = Ok (p1, q1, h1)"
    and rest: "apply_mappings lib arguments ms (p1, q1, h1) = Ok (path, q', h')"
    using Cons.prems(1) by auto
  have more: "supplied lib arguments ms n v \<Longrightarrow> supplied lib arguments (m # ms) n v" for n v
    by (auto simp: supplied_def)
  from apply_mapping_path [OF step] consider "p1 = unparse ps"
    | v where "location m = InPath" "supplied lib arguments [m] (map_name m) v"
        "p1 = replace_all (placeholder (map_name m)) (percent_encode_path_segment v) (unparse ps)"
    by blast
  then show ?case
  proof cases
    case 1
    then show ?thesis
      using Cons.IH [OF rest [unfolded 1] Cons.prems(2) _ Cons.prems(4)] Cons.prems(3) more
      by (fastforce simp: path_names_ok_def)
  next
    case (2 v)
    define ps' where "ps' = put (map_name m) (percent_encode_path_segment v) ps"
    have "p1 = unparse ps'"
      using 2 Cons.prems(2,3) by (simp add: ps'_def replace_placeholder path_names_ok_def)
    moreover have "wf_template ps'"
      using Cons.prems(2) by (simp add: ps'_def wf_put percent_encode_brace_free)
    moreover have "path_names_ok ms" using Cons.prems(3) by (simp add: path_names_ok_def)
    ultimately obtain sub where sub: "path = fill sub ps'"
      and sup: "\<And>n. Hole n \<in> set ps' \<Longrightarrow> supplied lib arguments ms n (sub n)"
      using Cons.IH [of ps' q1 h1] rest Cons.prems(4) by auto
    have "path = fill (sub(map_name m := v)) ps"
      using sub by (simp add: ps'_def fill_put)
    moreover have "supplied lib arguments (m # ms) n ((sub(map_name m := v)) n)" if "Hole n \<in> set ps" for n
    proof (cases "n = map_name m")
      case True
      then show ?thesis using 2 by (auto simp: supplied_def)
    next
      case False
      then have "Hole n \<in> set ps'" using that by (force simp: ps'_def put_def)
      then show ?thesis using sup more False by simp
    qed
    ultimately show ?thesis by blast
  qed
qed

lemma fill_delimiters:
  "filter is_delimiter (fill sub ps) = filter is_delimiter (concat (map (\<lambda>p. case p of Lit s \<Rightarrow> s | Hole n \<Rightarrow> []) ps))"
proof (induction ps)
  case (Cons p ps)
  have "filter is_delimiter (percent_encode_path_segment v) = []" for v
    using percent_encode_plain [of _ v] by (auto simp: filter_empty_conv)
  then show ?case using Cons by (cases p) auto
qed simp

lemma build_request_plan_parts:
  assumes "build_request_plan lib method target arguments = Ok plan"
  obtains path q h u where
    "apply_mappings lib arguments (parameter_mappings target) (path_template target, [], []) = Ok (path, q, h)"
    "\<not> has_unresolved_path_template_parameter path" "lib_parse lib (base_url target) = Some u"
    "plan_url plan = (let u1 = lib_set_path lib u (join_base_and_template_path (lib_path lib u) path)
       in if q = [] then u1 else lib_append_pairs lib u1 q)"
    "plan_headers plan = h"
  using assms unfolding build_request_plan_def Let_def
  by (auto split: prod.splits if_splits option.splits simp: Let_def)

section \<open>Properties\<close>

text \<open>
  Property C39. A request that is planned goes to the base URL with the template's path, in which every placeholder
  is replaced at once by the percent-encoding of the argument that a path mapping of that name gives, and
  that argument is not a dot segment and has no delimiter; so the delimiters of the path are those that the
  template's literal text has. No argument can stand for another placeholder or leave its segment, although the
  code replaces the placeholders one after the other in the string.
\<close>

theorem openapi_path_substitution:
  assumes "build_request_plan lib method target arguments = Ok plan"
    and "path_template target = unparse ps" "wf_template ps" "path_names_ok (parameter_mappings target)"
  shows "\<exists>sub u q. lib_parse lib (base_url target) = Some u
    \<and> plan_url plan = (let u1 = lib_set_path lib u (join_base_and_template_path (lib_path lib u) (fill sub ps))
         in if q = [] then u1 else lib_append_pairs lib u1 q)
    \<and> (\<forall>n. Hole n \<in> set ps \<longrightarrow> supplied lib arguments (parameter_mappings target) n (sub n))
    \<and> filter is_delimiter (fill sub ps)
        = filter is_delimiter (concat (map (\<lambda>p. case p of Lit s \<Rightarrow> s | Hole n \<Rightarrow> []) ps))"
proof -
  obtain path q h u where
    loop: "apply_mappings lib arguments (parameter_mappings target) (unparse ps, [], []) = Ok (path, q, h)"
    and res: "\<not> has_unresolved_path_template_parameter path"
    and u: "lib_parse lib (base_url target) = Some u"
    and url: "plan_url plan = (let u1 = lib_set_path lib u (join_base_and_template_path (lib_path lib u) path)
       in if q = [] then u1 else lib_append_pairs lib u1 q)"
    using assms(1) unfolding assms(2) [symmetric] by (rule build_request_plan_parts)
  from apply_mappings_fill [OF loop assms(3,4) res] u url fill_delimiters show ?thesis
    by blast
qed

definition ex_openapi_lib :: openapi_lib where
  "ex_openapi_lib =
     \<lparr>lib_parse = (\<lambda>s. Some \<lparr>scheme = ''https'', username = [], password = None, host = None,
        host_str = None, port_or_known_default = Some 443, fragment = None, as_text = s\<rparr>),
      lib_path = (\<lambda>u. ''/v1/''), lib_set_path = (\<lambda>u p. u\<lparr>as_text := p\<rparr>),
      lib_append_pairs = (\<lambda>u q. u), lib_query_pairs = (\<lambda>u. []), lib_header_name = Some,
      lib_show_number = (\<lambda>n. []), lib_to_string = (\<lambda>j. [])\<rparr>"

definition argument_mapping :: "parameter_location \<Rightarrow> string \<Rightarrow> parameter_mapping" where
  "argument_mapping loc n =
     \<lparr>location = loc, map_name = n, map_source = default_value_source\<lparr>argument_path := Some (''$.'' @ n)\<rparr>,
      required = True\<rparr>"

definition ex_openapi_template :: "piece list" where
  "ex_openapi_template = [Lit ''/users/'', Hole ''id'', Lit ''/raw'']"

definition ex_openapi_target :: runtime_openapi_target where
  "ex_openapi_target = default_openapi_target\<lparr>path_template := unparse ex_openapi_template,
     parameter_mappings := [argument_mapping InPath ''id'']\<rparr>"

lemma ex_openapi_plan:
  "is_ok (build_request_plan ex_openapi_lib ''GET'' ex_openapi_target (JObject [(''id'', JString ''a{b'')]))"
  by code_simp

theorem openapi_path_substitution_witness:
  "\<exists>v. supplied ex_openapi_lib (JObject [(''id'', JString ''a{b'')]) [argument_mapping InPath ''id''] ''id'' v"
proof -
  obtain plan where plan: "build_request_plan ex_openapi_lib ''GET'' ex_openapi_target (JObject [(''id'', JString ''a{b'')]) = Ok plan"
    using ex_openapi_plan by (cases "build_request_plan ex_openapi_lib ''GET'' ex_openapi_target (JObject [(''id'', JString ''a{b'')])") auto
  show ?thesis
    using openapi_path_substitution [OF plan, of ex_openapi_template]
    by (auto simp: ex_openapi_target_def ex_openapi_template_def brace_free_def path_names_ok_def argument_mapping_def)
qed

text \<open>
  The encoding of an argument in a path loses nothing: a server that decodes the segment gets the
  argument back byte by byte, and the encoded segment has only unreserved characters and escapes.
\<close>

theorem openapi_segment_roundtrip:
  "percent_decode (percent_encode_path_segment v) = v
     \<and> list_all (\<lambda>c. is_unreserved c \<or> c = CHR ''%'') (percent_encode_path_segment v)"
  by (auto simp: percent_decode_encode list_all_iff dest: percent_encode_chars)

end
