(* ===== verification/Upstream_Outcome.thy ===== *)
theory Upstream_Outcome
  imports Json
begin

text \<open>
  Business failures that an upstream reports inside a successful HTTP answer
  (\<open>dispatcher/upstream_outcome.rs\<close>). \<open>serde_json::from_slice\<close> is the parameter \<open>parse\<close>.
\<close>

datatype business_failure_kind =
    BfInvalidRequest | BfContentPolicy | BfRateLimited | BfModelUnavailable | BfService

record business_failure =
  bf_kind :: business_failure_kind
  bf_code :: string

definition MAX_PROBE_BYTES :: nat where
  "MAX_PROBE_BYTES = 65536"

fun bf_status_of :: "business_failure_kind \<Rightarrow> nat" where
  "bf_status_of BfInvalidRequest = 400"
| "bf_status_of BfContentPolicy = 400"
| "bf_status_of BfRateLimited = 429"
| "bf_status_of BfModelUnavailable = 404"
| "bf_status_of BfService = 502"

definition bf_status :: "business_failure \<Rightarrow> nat" where
  "bf_status f = bf_status_of (bf_kind f)"

fun bf_message :: "business_failure_kind \<Rightarrow> string" where
  "bf_message BfInvalidRequest = ''The upstream service rejected the request parameters.''"
| "bf_message BfContentPolicy = ''The upstream service rejected the request under its content policy.''"
| "bf_message BfRateLimited = ''The upstream service is rate limited. Retry later.''"
| "bf_message BfModelUnavailable = ''The requested upstream model is unavailable.''"
| "bf_message BfService = ''The upstream service reported a business failure.''"

definition public_body :: "business_failure \<Rightarrow> json" where
  "public_body f = JObject [(''error'', JObject [(''code'', JString (bf_code f)),
     (''type'', JString ''upstream_error''), (''message'', JString (bf_message (bf_kind f)))])]"

fun is_error_value :: "json \<Rightarrow> bool" where
  "is_error_value JNull = False"
| "is_error_value (JBool b) = b"
| "is_error_value (JString text) = (trim text \<noteq> [])"
| "is_error_value (JObject fs) = (fs \<noteq> [])"
| "is_error_value (JArray items) = (items \<noteq> [])"
| "is_error_value (JNumber n) = (\<not> number_is_zero n)"

definition find_error :: "json \<Rightarrow> json option" where
  "find_error value =
     find is_error_value (List.map_filter (\<lambda>path. pointer path value)
       [[''error''], [''data'', ''error''], [''result'', ''error'']])"

definition status_failed :: "json \<Rightarrow> bool" where
  "status_failed value =
     (case Option.bind (get ''status'' value) as_str of
        None \<Rightarrow> False
      | Some s \<Rightarrow> to_ascii_lowercase s \<in> {''error'', ''failed'', ''failure'', ''rejected''})"

definition contains_any :: "string \<Rightarrow> string list \<Rightarrow> bool" where
  "contains_any signal ws = list_ex (contains signal) ws"

definition kind_of_signal :: "string \<Rightarrow> business_failure_kind" where
  "kind_of_signal signal =
     (if contains_any signal [''rate_limit'', ''rate limit'', ''too many requests'', ''quota_exceeded'']
      then BfRateLimited
      else if contains_any signal [''content_policy'', ''content_filter'', ''safety''] then BfContentPolicy
      else if contains_any signal [''invalid_request'', ''invalid_argument'', ''bad_request'', ''invalid parameter'']
      then BfInvalidRequest
      else if contains_any signal [''model_not_found'', ''model_not_available'', ''model_unavailable'']
      then BfModelUnavailable
      else BfService)"

definition safe_code :: "string \<Rightarrow> bool" where
  "safe_code text \<longleftrightarrow> text \<noteq> [] \<and> length text \<le> 128
     \<and> list_all (\<lambda>c. is_ascii_alphanumeric c \<or> c \<in> {CHR ''_'', CHR ''-'', CHR ''.''}) text"

definition failure_signal :: "json option \<Rightarrow> json option \<Rightarrow> string" where
  "failure_signal code error =
     to_ascii_lowercase (join '' '' (List.map_filter id
       [Option.bind code as_str, Option.bind (Option.bind error (get ''type'')) as_str,
        Option.bind (Option.bind error (get ''message'')) as_str, Option.bind error as_str]))"

definition classify_business_failure :: "json_parser \<Rightarrow> string \<Rightarrow> business_failure option" where
  "classify_business_failure parse body =
     (if MAX_PROBE_BYTES < length body then None
      else case parse body of
        None \<Rightarrow> None
      | Some value \<Rightarrow>
          (case as_object value of
             None \<Rightarrow> None
           | Some obj \<Rightarrow>
               (let error = find_error value in
                if error = None \<and> map_of obj ''success'' \<noteq> Some (JBool False) \<and> \<not> status_failed value
                then None
                else
                  (let code = (case Option.bind error (get ''code'') of
                         Some c \<Rightarrow> Some c | None \<Rightarrow> map_of obj ''code'') in
                   Some \<lparr>bf_kind = kind_of_signal (failure_signal code error),
                     bf_code = (case Option.bind code as_str of
                         Some text \<Rightarrow> if safe_code text then text else ''upstream_business_error''
                       | None \<Rightarrow> ''upstream_business_error'')\<rparr>))))"

lemma safe_code_default: "safe_code ''upstream_business_error''"
  by code_simp

lemma classify_safe_code: "classify_business_failure parse body = Some f \<Longrightarrow> safe_code (bf_code f)"
  using safe_code_default
  by (auto simp: classify_business_failure_def Let_def split: if_splits option.splits)

text \<open>
  What a failure is, without the search: a body of at most 64 KiB that is a JSON object and has an error value at one
  of the three places, or \<open>success: false\<close>, or a failed \<open>status\<close>.
\<close>

definition error_places :: "string list list" where
  "error_places = [[''error''], [''data'', ''error''], [''result'', ''error'']]"

lemma find_error_iff:
  "find_error j \<noteq> None \<longleftrightarrow> (\<exists>path v. path \<in> set error_places \<and> pointer path j = Some v \<and> is_error_value v)"
  unfolding find_error_def find_None_iff error_places_def [symmetric]
  by (force simp: List.map_filter_def)

lemma classify_iff:
  "classify_business_failure parse body \<noteq> None \<longleftrightarrow> length body \<le> MAX_PROBE_BYTES
     \<and> (\<exists>obj. parse body = Some (JObject obj)
         \<and> ((\<exists>path v. path \<in> set error_places \<and> pointer path (JObject obj) = Some v \<and> is_error_value v)
            \<or> map_of obj ''success'' = Some (JBool False) \<or> status_failed (JObject obj)))"
proof (cases "parse body")
  case None
  then show ?thesis by (simp add: classify_business_failure_def)
next
  case (Some j)
  then show ?thesis
    unfolding find_error_iff [symmetric]
    by (cases j) (auto simp: classify_business_failure_def Let_def)
qed

end
