(* ===== verification/Openapi_Executor.thy ===== *)
theory Openapi_Executor
  imports Agent_Io Openapi_Mapping Upstream_Outcome
begin

text \<open>
  The executor of the OpenAPI tools (\<open>agent/tools/openapi/executor.rs\<close>): the plan of the request, its checks, the
  dispatch, the reading of the answer and the response with its bill. The payload validation
  (\<open>crate::validation\<close>) is a parameter of three functions; the methods that \<open>reqwest\<close> accepts and whether a
  client can be built are parameters too.
\<close>

section \<open>Types\<close>

record execution_options =
  opt_target_id :: string
  opt_fixed_micros :: nat
  opt_currency :: string
  opt_charge_on_failure :: bool
  opt_timeout_ms :: nat
  opt_max_request_bytes :: nat
  opt_max_response_bytes :: nat

text \<open>
  \<open>for_route\<close>, \<open>prepare_policy\<close> (an error code, or the headers of the request and the prepared checks) and
  \<open>response\<close> (an error code, or nothing).
\<close>

record ('p, 'q) validation_lib =
  v_for_route :: "json option \<Rightarrow> json option \<Rightarrow> unit + 'p option"
  v_prepare :: "'p \<Rightarrow> header_map \<Rightarrow> string \<Rightarrow> string + header_map \<times> 'q"
  v_response :: "'q \<Rightarrow> nat \<Rightarrow> string \<Rightarrow> string + unit"

record ('p, 'q) openapi_deps =
  d_lib :: openapi_lib
  d_validation :: "('p, 'q) validation_lib"
  d_method_ok :: "string \<Rightarrow> bool"
  d_client_ok :: bool
  d_fresh_id :: string

type_synonym 'a exec = "(tool_execution_error, 'a) program"

section \<open>The static target\<close>

fun is_scalar :: "json \<Rightarrow> bool" where
  "is_scalar (JString _) = True"
| "is_scalar (JNumber _) = True"
| "is_scalar (JBool _) = True"
| "is_scalar _ = False"

definition origin_url :: "url \<Rightarrow> string \<Rightarrow> nat \<Rightarrow> string" where
  "origin_url parsed h port =
     (let default_port = (if scheme parsed = ''http'' then 80 else if scheme parsed = ''https'' then 443 else port) in
      if port = default_port then scheme parsed @ ''://'' @ h
      else scheme parsed @ ''://'' @ h @ '':'' @ show_nat port)"

definition static_query_mappings :: "openapi_lib \<Rightarrow> url \<Rightarrow> json \<Rightarrow> parameter_mapping list" where
  "static_query_mappings lib parsed arguments =
     map (\<lambda>(name, value). \<lparr>location = InQuery, map_name = name,
         map_source = default_value_source\<lparr>literal := Some (JString value)\<rparr>, required = False\<rparr>)
       (lib_query_pairs lib parsed)
     @ map (\<lambda>(name, _). \<lparr>location = InQuery, map_name = name,
         map_source = default_value_source\<lparr>argument_path := Some (''$.'' @ name)\<rparr>, required = False\<rparr>)
       (filter (\<lambda>(_, value). is_scalar value) (case as_object arguments of Some m \<Rightarrow> m | None \<Rightarrow> []))"

definition or_else :: "'a option \<Rightarrow> 'a \<Rightarrow> 'a" where
  "or_else x d = (case x of Some v \<Rightarrow> v | None \<Rightarrow> d)"

definition runtime_target_from_static ::
    "openapi_lib \<Rightarrow> tool_target \<Rightarrow> tool_call_request \<Rightarrow> tool_execution_error + runtime_openapi_target option" where
  "runtime_target_from_static lib target request =
     (case target_url target of
        None \<Rightarrow> Ok None
      | Some u \<Rightarrow>
          (case lib_parse lib u of
             None \<Rightarrow> Err ToolTargetUnavailable
           | Some parsed \<Rightarrow>
               if \<not> http_scheme (scheme parsed) then Err ToolTargetUnavailable
               else (case (host_str parsed, port_or_known_default parsed) of
                 (Some h, Some port) \<Rightarrow>
                   (let method = to_ascii_uppercase (trim (target_method target));
                        base = default_openapi_target
                          \<lparr>o_service_slug := or_else (target_service_slug target) (tool_id target),
                           o_operation_id := or_else (target_operation_id target) (tool_id target),
                           o_operation_slug := or_else (target_operation_slug target) (tool_id target),
                           base_url := origin_url parsed h port, canonical_host := h,
                           allowed_scheme := scheme parsed, allowed_port := port,
                           path_template := lib_path lib parsed, o_max_response_bytes := 0,
                           o_detect_business_errors := detect_business_errors target,
                           o_validation := validation target, o_request_contract := request_contract target\<rparr> in
                    if method = ''GET''
                    then Ok (Some (base\<lparr>parameter_mappings :=
                      static_query_mappings lib parsed (req_arguments request)\<rparr>))
                    else if method = ''POST''
                    then Ok (Some (base\<lparr>request_body_mapping :=
                      Some (default_value_source\<lparr>literal := Some (req_arguments request)\<rparr>)\<rparr>))
                    else Err ToolTargetUnavailable)
               | _ \<Rightarrow> Err ToolTargetUnavailable)))"

section \<open>The answer\<close>

datatype response_classification =
    NonSuccess json
  | InvalidJson
  | Success json

definition is_json_content_type :: "string option \<Rightarrow> bool" where
  "is_json_content_type content_type =
     (case content_type of
        None \<Rightarrow> False
      | Some v \<Rightarrow>
          (let media = trim (split_first (CHR '';'') v) in
           eq_ignore_ascii_case media ''application/json'' \<or> ends_with ''+json'' (to_ascii_lowercase media)))"

definition status_2xx :: "nat \<Rightarrow> bool" where
  "status_2xx s \<longleftrightarrow> 200 \<le> s \<and> s \<le> 299"

definition classify_response :: "json_parser \<Rightarrow> nat \<Rightarrow> string option \<Rightarrow> string \<Rightarrow> response_classification" where
  "classify_response parse s content_type body =
     (if \<not> status_2xx s then
        NonSuccess (case parse body of
            Some v \<Rightarrow> v
          | None \<Rightarrow> JObject [(''error'', JObject [(''code'', JString ''openapi_upstream_error''),
              (''message'', JString (from_utf8_lossy body))])])
      else if \<not> is_json_content_type content_type then InvalidJson
      else (case parse body of Some v \<Rightarrow> Success v | None \<Rightarrow> InvalidJson))"

datatype read_response_error = TooLarge nat | Transport

fun read_capped_chunks :: "nat \<Rightarrow> string \<Rightarrow> stream_item list \<Rightarrow> read_response_error + string" where
  "read_capped_chunks max_bytes body [] = Ok body"
| "read_capped_chunks max_bytes body (Chunk chunk # items) =
     (case checked_add (length body) (length chunk) of
        None \<Rightarrow> Err (TooLarge (u64_bound - 1))
      | Some next_len \<Rightarrow>
          if max_bytes < next_len then Err (TooLarge next_len)
          else read_capped_chunks max_bytes (body @ chunk) items)"
| "read_capped_chunks max_bytes body (_ # items) = Err Transport"

definition read_capped_response :: "mcp_response \<Rightarrow> nat \<Rightarrow> read_response_error + string" where
  "read_capped_response response max_bytes =
     (case r_content_length response of
        Some len \<Rightarrow> if max_bytes < len then Err (TooLarge len)
                      else read_capped_chunks max_bytes [] (r_stream response)
      | None \<Rightarrow> read_capped_chunks max_bytes [] (r_stream response))"

definition effective_max_response_bytes :: "runtime_openapi_target \<Rightarrow> execution_options \<Rightarrow> nat" where
  "effective_max_response_bytes target opts =
     max 1 (if o_max_response_bytes target = 0 then opt_max_response_bytes opts
            else min (o_max_response_bytes target) (opt_max_response_bytes opts))"

section \<open>Responses\<close>

text \<open>What every response of one call has in common.\<close>

record openapi_call =
  k_target :: runtime_openapi_target
  k_request :: tool_call_request
  k_opts :: execution_options
  k_execution_id :: string

definition call_of ::
    "('p, 'q) openapi_deps \<Rightarrow> runtime_openapi_target \<Rightarrow> tool_call_request \<Rightarrow> execution_options \<Rightarrow> openapi_call" where
  "call_of d target request opts =
     \<lparr>k_target = target, k_request = request, k_opts = opts,
      k_execution_id = or_else (req_tool_execution_id request) (''exec_'' @ d_fresh_id d)\<rparr>"

definition non_empty :: "string \<Rightarrow> string option" where
  "non_empty s = (if s = [] then None else Some s)"

definition blocks_dispatch :: "openapi_outcome_status \<Rightarrow> bool" where
  "blocks_dispatch s \<longleftrightarrow> s \<in> {OaSchemaInvalid, OaPolicyBlocked, OaEgressBlocked, OaRequestTooLarge, OaSnapshotStale}"

definition openapi_response_with_output ::
    "openapi_call \<Rightarrow> openapi_outcome_status \<Rightarrow> request_plan option \<Rightarrow> nat option \<Rightarrow> nat option \<Rightarrow> json \<Rightarrow> nat
       \<Rightarrow> tool_call_response" where
  "openapi_response_with_output k s plan code bytes result elapsed_ms =
     (let d = decide \<lparr>oi_status = s, oi_fixed_micros = opt_fixed_micros (k_opts k),
            oi_currency = opt_currency (k_opts k), oi_charge_on_failure = opt_charge_on_failure (k_opts k),
            oi_tool_execution_id = k_execution_id k\<rparr>;
          target = k_target k in
      \<lparr>status = od_status d, tool_call_id = req_tool_call_id (k_request k), tool_execution_id = k_execution_id k,
       tool_output = result, resp_error = od_error d,
       gateway_metadata = Some (default_metadata
         \<lparr>execution_source := ''gateway_executed'', meta_target_kind := ''openapi'',
          meta_target_id := opt_target_id (k_opts k), meta_target_hash := o_target_hash target,
          meta_auth_revision := show_nat (o_auth_revision target) @ ''/runtime'',
          failure_class := (case od_error d of
              Some err \<Rightarrow> Some (envelope_code err)
            | None \<Rightarrow> if od_status d = Completed then None else Some (od_billing_reason d)),
          blocked_before_dispatch := blocks_dispatch s, latency_ms := Some elapsed_ms,
          service_slug := non_empty (o_service_slug target), operation_id := non_empty (o_operation_id target),
          operation_slug := non_empty (o_operation_slug target), http_method := map_option plan_method plan,
          http_status := code, request_bytes := map_option plan_request_bytes plan, response_bytes := bytes,
          billing_status := Some (od_billing_status d), billing_reason := Some (od_billing_reason d),
          executed := Some (od_executed d), failure_stage := Some (od_failure_stage d)\<rparr>),
       billing = od_billing d,
       cost = \<lparr>amount_micros = cost_micros (od_billing d), cost_currency = opt_currency (k_opts k),
         cost_source = (if billable (od_billing d) then ''rate_card'' else ''waived'')\<rparr>,
       policy = allowed_policy, events = default_events\<rparr>)"

definition openapi_response ::
    "openapi_call \<Rightarrow> openapi_outcome_status \<Rightarrow> request_plan option \<Rightarrow> nat option \<Rightarrow> nat option \<Rightarrow> nat
       \<Rightarrow> tool_call_response" where
  "openapi_response k s plan code bytes elapsed_ms =
     openapi_response_with_output k s plan code bytes
       (JObject [(''error'', JNull), (''target_kind'', JString ''openapi'')]) elapsed_ms"

definition mark_failed :: "string \<Rightarrow> string \<Rightarrow> string \<Rightarrow> tool_call_response \<Rightarrow> tool_call_response" where
  "mark_failed code message stage r =
     r\<lparr>status := Failed,
       resp_error := Some \<lparr>envelope_code = code, envelope_message = message, envelope_retryable = False\<rparr>,
       gateway_metadata := map_option (\<lambda>m. m\<lparr>failure_class := Some code, failure_stage := Some stage\<rparr>)
         (gateway_metadata r)\<rparr>"

definition validation_failure ::
    "openapi_call \<Rightarrow> request_plan \<Rightarrow> nat option \<Rightarrow> nat option \<Rightarrow> json \<Rightarrow> string \<Rightarrow> nat \<Rightarrow> tool_call_response" where
  "validation_failure k plan code bytes result err elapsed_ms =
     mark_failed err ''Payload validation failed''
       (if code \<noteq> None then ''response_validation'' else ''request_validation'')
       (openapi_response_with_output k (case code of Some s \<Rightarrow> HttpStatus s | None \<Rightarrow> OaSchemaInvalid)
         (Some plan) code bytes result elapsed_ms)"

definition business_failure_response ::
    "openapi_call \<Rightarrow> request_plan \<Rightarrow> nat \<Rightarrow> nat \<Rightarrow> business_failure \<Rightarrow> nat \<Rightarrow> tool_call_response" where
  "business_failure_response k plan s bytes failure elapsed_ms =
     mark_failed (bf_code failure) ''Upstream returned a business failure'' ''business''
       (openapi_response_with_output k (HttpStatus s) (Some plan) (Some s) (Some bytes) (public_body failure) elapsed_ms)"

section \<open>Execution\<close>

text \<open>Every response reads the clock.\<close>

definition respond :: "(nat \<Rightarrow> tool_call_response) \<Rightarrow> tool_call_response exec" where
  "respond f = lbind (read_env e_elapsed_ms) (\<lambda>ms. lret (f ms))"

text \<open>
  A header value that is not allowed makes \<open>send\<close> fail before anything is sent. \<open>Requested\<close> is the attempt to send,
  so that a connection that times out counts as one.
\<close>

definition dispatch_request :: "request_plan \<Rightarrow> http_result exec" where
  "dispatch_request plan =
     (if list_all (\<lambda>(name, value). header_value_ok value) (plan_headers plan)
      then lthen (emit (Requested (plan_method plan) (plan_url plan) (plan_headers plan) (plan_body plan)))
        (lbind (await_for e_http) (\<lambda>r. case r of
           Responded resp \<Rightarrow> lthen (emit (Answered (http_status_code resp))) (lret r)
         | _ \<Rightarrow> lret r))
      else lret SendFailed)"

definition usage_output :: "json_parser \<Rightarrow> string \<Rightarrow> json" where
  "usage_output parse body =
     (case Option.bind (parse body) (get ''usage'') of Some v \<Rightarrow> JObject [(''usage'', v)] | None \<Rightarrow> JNull)"

text \<open>The part of \<open>execute_runtime_openapi_tool\<close> after the body has been read.\<close>

definition finish_response ::
    "('p, 'q) validation_lib \<Rightarrow> openapi_call \<Rightarrow> request_plan \<Rightarrow> 'q option \<Rightarrow> nat \<Rightarrow> string option \<Rightarrow> string
       \<Rightarrow> tool_call_response exec" where
  "finish_response v k plan prepared s content_type body =
     lbind (read_env (\<lambda>e n. e_parse e)) (\<lambda>parse.
     case (case prepared of None \<Rightarrow> Ok () | Some q \<Rightarrow> v_response v q s body) of
       Inl err \<Rightarrow> respond (validation_failure k plan (Some s) (Some (length body)) (usage_output parse body) err)
     | Inr _ \<Rightarrow>
         (case (if o_detect_business_errors (k_target k) \<and> status_2xx s
                then classify_business_failure parse body else None) of
            Some failure \<Rightarrow> respond (business_failure_response k plan s (length body) failure)
          | None \<Rightarrow>
              (case classify_response parse s content_type body of
                 NonSuccess result \<Rightarrow>
                   respond (openapi_response_with_output k (HttpStatus s) (Some plan) (Some s) (Some (length body)) result)
               | InvalidJson \<Rightarrow>
                   respond (openapi_response k OaInvalidJsonResponse (Some plan) (Some s) (Some (length body)))
               | Success result \<Rightarrow>
                   respond (openapi_response_with_output k (HttpStatus s) (Some plan) (Some s) (Some (length body)) result))))"

definition dispatch_plan ::
    "('p, 'q) openapi_deps \<Rightarrow> openapi_call \<Rightarrow> request_plan \<Rightarrow> 'q option \<Rightarrow> tool_call_response exec" where
  "dispatch_plan d k plan prepared =
     (if \<not> d_client_ok d then lfail ToolTargetUnavailable
      else lbind (dispatch_request plan) (\<lambda>r. case r of
        SendTimeout \<Rightarrow> respond (openapi_response k OaTimeout (Some plan) None None)
      | SendFailed \<Rightarrow> respond (openapi_response k OaInternalError (Some plan) None None)
      | Responded resp \<Rightarrow>
          (let s = http_status_code resp; content_type = header_str (r_headers (http_body resp)) ''content-type'' in
           lbind (await_for (\<lambda>e n. read_capped_response (http_body resp)
               (effective_max_response_bytes (k_target k) (k_opts k)))) (\<lambda>b. case b of
             Inl (TooLarge observed) \<Rightarrow>
               respond (openapi_response k OaResponseTooLarge (Some plan) (Some s) (Some observed))
           | Inl Transport \<Rightarrow> respond (openapi_response k OaInternalError (Some plan) (Some s) None)
           | Inr body \<Rightarrow> finish_response (d_validation d) k plan prepared s content_type body))))"

text \<open>The header map that the validation sees; an invalid value makes the target unavailable.\<close>

definition validation_headers :: "openapi_lib \<Rightarrow> header_map \<Rightarrow> tool_execution_error + header_map" where
  "validation_headers lib headers =
     (if list_all (\<lambda>(name, value). lib_header_name lib name \<noteq> None \<and> header_value_ok value) headers
      then Ok (map (\<lambda>(name, value). (or_else (lib_header_name lib name) [], value)) headers)
      else Err ToolTargetUnavailable)"

definition validated_dispatch ::
    "('p, 'q) openapi_deps \<Rightarrow> openapi_call \<Rightarrow> request_plan \<Rightarrow> tool_call_response exec" where
  "validated_dispatch d k plan =
     (case v_for_route (d_validation d) (o_validation (k_target k)) (o_request_contract (k_target k)) of
        Inl _ \<Rightarrow> lfail ToolTargetUnavailable
      | Inr None \<Rightarrow> dispatch_plan d k plan None
      | Inr (Some p) \<Rightarrow>
          lbind (lift id (validation_headers (d_lib d) (plan_headers plan))) (\<lambda>headers.
          lthen await
          (case v_prepare (d_validation d) p headers
              (case plan_body plan of Some b \<Rightarrow> lib_to_string (d_lib d) b | None \<Rightarrow> []) of
             Inl err \<Rightarrow> respond (validation_failure k plan None None JNull err)
           | Inr (headers', prepared) \<Rightarrow>
               dispatch_plan d k (plan\<lparr>plan_headers :=
                 map (\<lambda>(n, v). (n, or_else (header_to_str v) [])) headers'\<rparr>) (Some prepared))))"

definition execute_runtime_openapi_tool ::
    "('p, 'q) openapi_deps \<Rightarrow> runtime_openapi_target \<Rightarrow> string \<Rightarrow> tool_call_request \<Rightarrow> egress_policy
       \<Rightarrow> execution_options \<Rightarrow> tool_call_response exec" where
  "execute_runtime_openapi_tool d target method request egress opts =
     (let k = call_of d target request opts in
      case build_request_plan (d_lib d) method target (req_arguments request) of
        Inl _ \<Rightarrow> respond (openapi_response k OaSchemaInvalid None None None)
      | Inr plan \<Rightarrow>
          if \<not> is_ok (validate_openapi_egress (lib_parse (d_lib d)) target (plan_url plan) egress)
          then respond (openapi_response k OaEgressBlocked (Some plan) None None)
          else if opt_max_request_bytes opts < plan_request_bytes plan
          then respond (openapi_response k OaRequestTooLarge (Some plan) None None)
          else if \<not> d_method_ok d (plan_method plan)
          then respond (openapi_response k OaSchemaInvalid (Some plan) None None)
          else validated_dispatch d k plan)"

definition static_options :: "tool_target \<Rightarrow> tool_call_request \<Rightarrow> nat \<Rightarrow> nat \<Rightarrow> nat \<Rightarrow> execution_options" where
  "static_options target request default_timeout_ms max_request_bytes max_response_bytes =
     \<lparr>opt_target_id = tool_id target, opt_fixed_micros = fixed_micros (target_rate_card target),
      opt_currency = currency (target_rate_card target), opt_charge_on_failure = False,
      opt_timeout_ms = effective_timeout_ms (target_timeout_ms target) (req_timeout_ms request) default_timeout_ms,
      opt_max_request_bytes = max_request_bytes, opt_max_response_bytes = max_response_bytes\<rparr>"

definition execute_openapi_tool ::
    "('p, 'q) openapi_deps \<Rightarrow> tool_target \<Rightarrow> tool_call_request \<Rightarrow> egress_policy \<Rightarrow> nat \<Rightarrow> nat \<Rightarrow> nat
       \<Rightarrow> tool_call_response exec" where
  "execute_openapi_tool d target request egress default_timeout_ms max_request_bytes max_response_bytes =
     (case runtime_target_from_static (d_lib d) target request of
        Inl err \<Rightarrow> lfail err
      | Inr None \<Rightarrow> lfail ToolTargetUnavailable
      | Inr (Some runtime_target) \<Rightarrow>
          execute_runtime_openapi_tool d runtime_target (target_method target) request egress
            (static_options target request default_timeout_ms max_request_bytes max_response_bytes))"

section \<open>Accounting\<close>

text \<open>
  What a response of the executor must say, given the effects of the call: the bill is the rate card or nothing, only
  an answer of the upstream is billed, and \<open>executed\<close> says whether a request was sent. The exception is the outcome
  \<open>internal_error\<close>, which stands for every transport failure and always says that nothing was executed.
\<close>

definition accounted :: "openapi_call \<Rightarrow> tool_call_response \<Rightarrow> life_event list \<Rightarrow> bool" where
  "accounted k r tr \<longleftrightarrow>
     cost_micros (billing r) = amount_micros (cost r)
     \<and> amount_micros (cost r) = (if billable (billing r) then opt_fixed_micros (k_opts k) else 0)
     \<and> bill_currency (billing r) = opt_currency (k_opts k) \<and> cost_currency (cost r) = opt_currency (k_opts k)
     \<and> dedupe_key (billing r) = ''tool_execution:'' @ k_execution_id k
     \<and> (status r = Completed \<longrightarrow> billable (billing r))
     \<and> (resp_error r = None \<longleftrightarrow> status r = Completed)
     \<and> (billable (billing r) \<longrightarrow> (\<exists>s. Answered s \<in> set tr
          \<and> (status_2xx s \<or> opt_charge_on_failure (k_opts k) \<and> 400 \<le> s \<and> s \<le> 599)))
     \<and> (\<exists>m. gateway_metadata r = Some m \<and> (executed m = Some (tr \<noteq> [])
          \<or> executed m = Some False \<and> billing_reason m = Some ''internal_error''))"

text \<open>The effects that an outcome can have.\<close>

fun outcome_fits :: "openapi_outcome_status \<Rightarrow> life_event list \<Rightarrow> bool" where
  "outcome_fits (HttpStatus s) tr \<longleftrightarrow> Answered s \<in> set tr"
| "outcome_fits OaTimeout tr \<longleftrightarrow> tr \<noteq> []"
| "outcome_fits OaResponseTooLarge tr \<longleftrightarrow> tr \<noteq> []"
| "outcome_fits OaInvalidJsonResponse tr \<longleftrightarrow> tr \<noteq> []"
| "outcome_fits OaInternalError tr \<longleftrightarrow> True"
| "outcome_fits _ tr \<longleftrightarrow> tr = []"

lemmas outcome_defs = openapi_response_with_output_def decide_def charged_failure_def waived_failure_def
  oa_billing_def oa_error_def billable_cost_def Let_def

lemma accounted_with_output:
  assumes "outcome_fits s tr"
  shows "accounted k (openapi_response_with_output k s plan code bytes result ms) tr"
proof (cases s)
  case (HttpStatus c)
  then have "Answered c \<in> set tr" "tr \<noteq> []" using assms by auto
  then show ?thesis using HttpStatus
    by (auto simp: accounted_def outcome_defs status_2xx_def)
qed (use assms in \<open>simp_all add: accounted_def outcome_defs\<close>)

lemma accounted_response:
  "outcome_fits s tr \<Longrightarrow> accounted k (openapi_response k s plan code bytes ms) tr"
  by (simp add: openapi_response_def accounted_with_output)

lemma accounted_mark_failed: "accounted k r tr \<Longrightarrow> accounted k (mark_failed code message stage r) tr"
  by (auto simp: accounted_def mark_failed_def)

lemma accounted_validation_failure:
  "outcome_fits (case code of Some s \<Rightarrow> HttpStatus s | None \<Rightarrow> OaSchemaInvalid) tr
     \<Longrightarrow> accounted k (validation_failure k plan code bytes result err ms) tr"
  by (simp add: validation_failure_def accounted_mark_failed accounted_with_output)

lemma accounted_business_failure:
  "outcome_fits (HttpStatus s) tr \<Longrightarrow> accounted k (business_failure_response k plan s bytes failure ms) tr"
  by (simp only: business_failure_response_def accounted_mark_failed accounted_with_output)

subsection \<open>The steps\<close>

text \<open>At most one request, to a URL that \<open>P\<close> allows, and at most one answer after it.\<close>

definition at_most_one :: "(url \<Rightarrow> bool) \<Rightarrow> life_event list \<Rightarrow> bool" where
  "at_most_one P tr \<longleftrightarrow> tr = [] \<or> (\<exists>m u h b. P u \<and> (tr = [Requested m u h b] \<or> (\<exists>s. tr = [Requested m u h b, Answered s])))"

lemma at_most_one_Nil [simp]: "at_most_one P []"
  by (simp add: at_most_one_def)

definition accounts ::
    "life_env \<Rightarrow> (url \<Rightarrow> bool) \<Rightarrow> openapi_call \<Rightarrow> (life_world \<Rightarrow> bool) \<Rightarrow> tool_call_response exec \<Rightarrow> bool" where
  "accounts e P k pre m \<longleftrightarrow>
     spec e pre m (\<lambda>r w. accounted k r (w_trace w) \<and> at_most_one P (w_trace w))
       (\<lambda>w. w_trace w = []) (\<lambda>w. at_most_one P (w_trace w))"

lemma accounts_respond:
  "(\<And>w ms. pre w \<Longrightarrow> accounted k (f ms) (w_trace w) \<and> at_most_one P (w_trace w)) \<Longrightarrow> accounts e P k pre (respond f)"
  unfolding accounts_def respond_def
  by (rule spec_bind [where Q = "\<lambda>_. pre"]) (auto intro: spec_read_env spec_ret)

lemma accounts_fail: "(\<And>w. pre w \<Longrightarrow> w_trace w = []) \<Longrightarrow> accounts e P k pre (lfail err)"
  unfolding accounts_def by (rule spec_fail)

lemma accounts_finish:
  assumes "\<And>w. pre w \<Longrightarrow> Answered s \<in> set (w_trace w) \<and> at_most_one P (w_trace w)"
  shows "accounts e P k pre (finish_response v k plan prepared s content_type body)"
proof -
  have fits: "outcome_fits (HttpStatus s) (w_trace w)" "outcome_fits OaInvalidJsonResponse (w_trace w)"
      "at_most_one P (w_trace w)" if "pre w" for w
    using assms [OF that] by auto
  show ?thesis
    unfolding finish_response_def accounts_def
    apply (rule spec_bind [where Q = "\<lambda>_. pre"])
     apply (rule spec_read_env, assumption)
    apply (fold accounts_def)
    using fits
    by (auto intro!: accounts_respond accounted_validation_failure accounted_business_failure accounted_with_output
        accounted_response simp del: outcome_fits.simps split: sum.split option.split response_classification.split)
qed

lemma dispatch_spec:
  assumes "P (plan_url plan)"
  shows "spec e (\<lambda>w. w_trace w = []) (dispatch_request plan)
    (\<lambda>r w. at_most_one P (w_trace w) \<and> (case r of
        SendTimeout \<Rightarrow> w_trace w \<noteq> [] | SendFailed \<Rightarrow> True
      | Responded resp \<Rightarrow> Answered (http_status_code resp) \<in> set (w_trace w)))
    (\<lambda>w. w_trace w = []) (\<lambda>w. at_most_one P (w_trace w))"
  using assms
  by (auto simp: spec_def dispatch_request_def lthen_def lbind_def emit_def await_for_def lret_def at_most_one_def
      split: http_result.splits)

lemma accounts_dispatch_plan:
  assumes "P (plan_url plan)"
  shows "accounts e P k (\<lambda>w. w_trace w = []) (dispatch_plan d k plan prepared)"
proof (cases "d_client_ok d")
  case False
  then show ?thesis by (simp add: dispatch_plan_def accounts_fail)
next
  case True
  have after: "accounts e P k (\<lambda>w. at_most_one P (w_trace w) \<and> Answered s \<in> set (w_trace w))
      (case b of
         Inl (TooLarge observed) \<Rightarrow> respond (openapi_response k OaResponseTooLarge (Some plan) (Some s) (Some observed))
       | Inl Transport \<Rightarrow> respond (openapi_response k OaInternalError (Some plan) (Some s) None)
       | Inr body \<Rightarrow> finish_response (d_validation d) k plan prepared s content_type body)"
    for s b content_type
    by (auto intro!: accounts_respond accounted_response accounts_finish split: sum.split read_response_error.split)
  show ?thesis
    unfolding dispatch_plan_def accounts_def using True
    apply (simp only: if_False not_True_eq_False)
    apply (rule spec_bind [OF dispatch_spec [of P, OF assms]])
    subgoal for r
    proof (cases r)
      case (Responded resp)
      then show ?thesis
        by (simp only: http_result.case Let_def)
          (rule spec_bind, rule spec_await_for [where Q = "\<lambda>_ w. at_most_one P (w_trace w) \<and> Answered (http_status_code resp) \<in> set (w_trace w)"],
            auto intro: after [unfolded accounts_def])
    qed (auto intro!: accounts_respond [unfolded accounts_def] accounted_response)
    done
qed

lemma accounts_validated_dispatch:
  assumes "P (plan_url plan)"
  shows "accounts e P k (\<lambda>w. w_trace w = []) (validated_dispatch d k plan)"
proof -
  have prepared: "accounts e P k (\<lambda>w. w_trace w = [])
      (case v of
         Inl err \<Rightarrow> respond (validation_failure k plan None None JNull err)
       | Inr (headers', prepared) \<Rightarrow>
           dispatch_plan d k (plan\<lparr>plan_headers := map (\<lambda>(n, v). (n, or_else (header_to_str v) [])) headers'\<rparr>) (Some prepared))"
    for v
    using assms
    by (auto intro!: accounts_respond accounted_validation_failure accounts_dispatch_plan simp: at_most_one_def
        split: sum.split)
  show ?thesis
  proof (cases "v_for_route (d_validation d) (o_validation (k_target k)) (o_request_contract (k_target k))")
    case (Inl err)
    then show ?thesis by (simp add: validated_dispatch_def accounts_fail)
  next
    case (Inr p)
    show ?thesis
    proof (cases p)
      case None
      then show ?thesis using Inr assms by (simp add: validated_dispatch_def accounts_dispatch_plan)
    next
      case (Some p')
      show ?thesis
        unfolding validated_dispatch_def Inr Some sum.case option.case accounts_def await_def
        by (rule spec_bind [where Q = "\<lambda>_ w. w_trace w = []"], rule spec_lift, assumption, assumption,
            rule spec_then [where Q = "\<lambda>w. w_trace w = []"], rule spec_await_for)
          (auto intro: prepared [unfolded accounts_def])
    qed
  qed
qed

lemma accounts_execute_runtime:
  "accounts e (\<lambda>u. validate_openapi_egress (lib_parse (d_lib d)) target u egress = Ok ()) (call_of d target request opts)
    (\<lambda>w. w_trace w = []) (execute_runtime_openapi_tool d target method request egress opts)"
proof (cases "build_request_plan (d_lib d) method target (req_arguments request)")
  case (Inl err)
  then show ?thesis
    by (auto simp: execute_runtime_openapi_tool_def Let_def intro!: accounts_respond accounted_response)
next
  case (Inr plan)
  have unit: "is_ok x \<Longrightarrow> x = Ok ()" for x :: "'e + unit"
    by (cases x) auto
  show ?thesis
    unfolding execute_runtime_openapi_tool_def Let_def Inr sum.case
    by (auto intro!: accounts_respond accounted_response accounts_validated_dispatch unit)
qed

lemma accountsD:
  assumes "accounts e P k pre m" "pre w"
  shows "case m e w of
     (LDone r, w') \<Rightarrow> accounted k r (w_trace w') \<and> at_most_one P (w_trace w')
   | (LFail err, w') \<Rightarrow> w_trace w' = []
   | (LElapsed, w') \<Rightarrow> at_most_one P (w_trace w')"
  using assms by (auto simp: accounts_def spec_def)

lemma openapi_accounts:
  "case execute_openapi_tool d target request egress default_timeout_ms max_request_bytes max_response_bytes e world0 of
     (LDone r, w) \<Rightarrow> (\<exists>rt. runtime_target_from_static (d_lib d) target request = Ok (Some rt)
        \<and> accounted (call_of d rt request
            (static_options target request default_timeout_ms max_request_bytes max_response_bytes)) r (w_trace w)
        \<and> at_most_one (\<lambda>u. validate_openapi_egress (lib_parse (d_lib d)) rt u egress = Ok ()) (w_trace w))
   | (LFail err, w) \<Rightarrow> w_trace w = []
   | (LElapsed, w) \<Rightarrow> (\<exists>rt. runtime_target_from_static (d_lib d) target request = Ok (Some rt)
        \<and> at_most_one (\<lambda>u. validate_openapi_egress (lib_parse (d_lib d)) rt u egress = Ok ()) (w_trace w))"
proof (cases "runtime_target_from_static (d_lib d) target request")
  case (Inl err)
  then show ?thesis by (simp add: execute_openapi_tool_def lfail_def world0_def)
next
  case (Inr rt)
  show ?thesis
  proof (cases rt)
    case None
    then show ?thesis using Inr by (simp add: execute_openapi_tool_def lfail_def world0_def)
  next
    case (Some t)
    have "w_trace world0 = []" by (simp add: world0_def)
    from accountsD [OF accounts_execute_runtime [of e d t egress request
          "static_options target request default_timeout_ms max_request_bytes max_response_bytes" "target_method target"] this]
    show ?thesis using Inr Some by (auto simp: execute_openapi_tool_def split: prod.splits outcome.splits)
  qed
qed

section \<open>Properties\<close>

text \<open>
  Property C38. A call of an OpenAPI tool sends at most one request, to a URL on the configured scheme, host and port that
  passes the egress policy, and an execution error means that nothing was sent. The response bills the rate card exactly when
  it is billable and nothing otherwise; a completed call is billable; only an answer with a success status is
  billed; and \<open>executed\<close> tells whether a request was sent, except that every transport failure is reported as
  \<open>internal_error\<close> with \<open>executed\<close> false, also when the upstream has already answered.
\<close>

theorem openapi_call_accounted:
  "case execute_openapi_tool d target request egress default_timeout_ms max_request_bytes max_response_bytes e world0 of
     (LDone r, w) \<Rightarrow> (\<exists>rt. runtime_target_from_static (d_lib d) target request = Ok (Some rt)
        \<and> accounted (call_of d rt request
            (static_options target request default_timeout_ms max_request_bytes max_response_bytes)) r (w_trace w)
        \<and> at_most_one (\<lambda>u. validate_openapi_egress (lib_parse (d_lib d)) rt u egress = Ok ()) (w_trace w))
   | (LFail err, w) \<Rightarrow> w_trace w = []
   | (LElapsed, w) \<Rightarrow> (\<exists>rt. runtime_target_from_static (d_lib d) target request = Ok (Some rt)
        \<and> at_most_one (\<lambda>u. validate_openapi_egress (lib_parse (d_lib d)) rt u egress = Ok ()) (w_trace w))"
  by (rule openapi_accounts)

subsection \<open>The query of a static tool\<close>

definition argument_pair :: "openapi_lib \<Rightarrow> json_object \<Rightarrow> string \<times> json \<Rightarrow> (string \<times> string) option" where
  "argument_pair lib m = (\<lambda>(k, v).
     if \<not> is_scalar v then None
     else map_option (Pair k) (Option.bind
       (if CHR ''.'' \<in> set k then resolve_segments (JObject m) (split (CHR ''.'') k) else Some v)
       (scalar_to_string (lib_show_number lib))))"

lemma static_literals:
  "apply_mappings lib arguments
     (map (\<lambda>(name, value). \<lparr>location = InQuery, map_name = name,
         map_source = default_value_source\<lparr>literal := Some (JString value)\<rparr>, required = False\<rparr>) pairs @ ms)
     (path, q, h) = apply_mappings lib arguments ms (path, q @ pairs, h)"
  by (induction pairs arbitrary: q)
    (auto simp: apply_mapping_def resolve_value_def default_value_source_def)

lemma static_arguments:
  assumes "distinct (map fst m)" "set m' \<subseteq> set m"
    and "list_all (\<lambda>(k, v). is_scalar v \<longrightarrow> list_all (\<lambda>s. s \<noteq> []) (split (CHR ''.'') k)) m'"
  shows "apply_mappings lib (JObject m)
     (map (\<lambda>(name, _). \<lparr>location = InQuery, map_name = name,
         map_source = default_value_source\<lparr>argument_path := Some (''$.'' @ name)\<rparr>, required = False\<rparr>)
       (filter (\<lambda>(_, value). is_scalar value) m'))
     (path, q, h) = Ok (path, q @ List.map_filter (argument_pair lib m) m', h)"
  using assms(2,3)
proof (induction m' arbitrary: q)
  case Nil
  then show ?case by (simp add: List.map_filter_simps)
next
  case (Cons kv m')
  obtain k v where kv: "kv = (k, v)" by (cases kv)
  have v: "map_of m k = Some v" using Cons.prems(1) assms(1) kv by simp
  show ?case
  proof (cases "is_scalar v")
    case False
    then show ?thesis using Cons kv by (simp add: List.map_filter_simps argument_pair_def)
  next
    case True
    then have segs: "list_all (\<lambda>s. s \<noteq> []) (split (CHR ''.'') k)" "k \<noteq> []"
      using Cons.prems(2) kv by (auto simp: split_def)
    have nn: "v \<noteq> JNull" using True by auto
    have "resolve_argument_path (JObject m) (''$.'' @ k) = Ok (resolve_segments (JObject m) (split (CHR ''.'') k))"
      using segs by (simp add: resolve_argument_path_def list_ex_iff list_all_iff)
    moreover have "CHR ''.'' \<notin> set k \<Longrightarrow> resolve_segments (JObject m) (split (CHR ''.'') k) = Some v"
      using v nn by (simp add: split_no_sep)
    ultimately show ?thesis
      using Cons kv True
      by (auto simp: List.map_filter_simps argument_pair_def apply_mapping_def resolve_value_def default_value_source_def
          split: option.split)
  qed
qed

text \<open>
  The query of a static \<open>GET\<close> tool is that of the configured URL followed by one pair for each scalar
  argument, in order. An argument whose name has no dot is sent with its value. A dotted name is read as a
  path into the arguments instead: the argument itself is never sent, and the pair is silently left out
  when the path leads nowhere.
\<close>

lemma openapi_static_query:
  assumes "distinct (map fst m)"
    and "list_all (\<lambda>(k, v). is_scalar v \<longrightarrow> list_all (\<lambda>s. s \<noteq> []) (split (CHR ''.'') k)) m"
  shows "apply_mappings lib (JObject m) (static_query_mappings lib u (JObject m)) (path, [], [])
     = Ok (path, lib_query_pairs lib u @ List.map_filter (argument_pair lib m) m, [])"
  using static_arguments [OF assms(1) subset_refl assms(2)]
  by (simp add: static_query_mappings_def static_literals)

definition ex_openapi_arguments :: json_object where
  "ex_openapi_arguments = [(''a.b'', JString ''x''), (''c'', JString ''y'')]"

definition ex_openapi_url :: url where
  "ex_openapi_url = \<lparr>scheme = ''https'', username = [], password = None, host = None, host_str = Some ''api.test'',
     port_or_known_default = Some 443, fragment = None, as_text = ''https://api.test/''\<rparr>"

lemma openapi_static_query_witness:
  "apply_mappings ex_openapi_lib (JObject ex_openapi_arguments) (static_query_mappings ex_openapi_lib ex_openapi_url (JObject ex_openapi_arguments)) (''/p'', [], [])
   = Ok (''/p'', [(''c'', ''y'')], [])"
  using openapi_static_query [of ex_openapi_arguments ex_openapi_lib ex_openapi_url "''/p''"]
  by (simp add: ex_openapi_arguments_def split_def List.map_filter_simps argument_pair_def ex_openapi_lib_def)

end
