(* ===== verification/Tool_Executors.thy ===== *)
theory Tool_Executors
  imports Mcp_Lifecycle_Props Mcp_Sse_Lifecycle Openapi_Executor
begin

text \<open>
  The execution of a tool call by the kind of its target (\<open>agent/tools/executor.rs\<close>), with the mock, the plain
  HTTP and the stateless MCP HTTP executor (\<open>agent/tools/mcp_http.rs\<close>). The other three kinds are the
  lifecycles of the theories imported here.
\<close>

section \<open>Dependencies\<close>

text \<open>
  What the executors use of third-party code: the libraries of the OpenAPI executor, \<open>Url::join\<close> and the text
  of the current time.
\<close>

record ('p, 'q) exec_deps = "('p, 'q) openapi_deps" +
  d_url_join :: "url \<Rightarrow> string \<Rightarrow> url option"
  d_observed_at :: string

abbreviation d_url_parse :: "('p, 'q, 'z) openapi_deps_scheme \<Rightarrow> url_parser" where
  "d_url_parse d \<equiv> lib_parse (d_lib d)"

definition openapi_deps_of :: "('p, 'q) exec_deps \<Rightarrow> ('p, 'q) openapi_deps" where
  "openapi_deps_of d =
     \<lparr>d_lib = d_lib d, d_validation = d_validation d, d_method_ok = d_method_ok d, d_client_ok = d_client_ok d,
      d_fresh_id = d_fresh_id d\<rparr>"

definition execution_id :: "('p, 'q) exec_deps \<Rightarrow> tool_call_request \<Rightarrow> string" where
  "execution_id d request = or_else (req_tool_execution_id request) (''exec_'' @ d_fresh_id d)"

section \<open>Mock and HTTP\<close>

definition success_tool_response :: "tool_target \<Rightarrow> tool_call_request \<Rightarrow> string \<Rightarrow> json \<Rightarrow> tool_call_response" where
  "success_tool_response target request eid result =
     (let card = target_rate_card target;
          the_cost = \<lparr>amount_micros = fixed_micros card, cost_currency = currency card, cost_source = ''rate_card''\<rparr> in
      \<lparr>status = Completed, tool_call_id = req_tool_call_id request, tool_execution_id = eid, tool_output = result,
       resp_error = None, gateway_metadata = None,
       billing = \<lparr>bill_reason = ''success'', billable = True, cost_micros = amount_micros the_cost,
         bill_currency = cost_currency the_cost, dedupe_key = eid\<rparr>,
       cost = the_cost, policy = allowed_policy, events = default_events\<rparr>)"

definition mock_tool_response :: "('p, 'q) exec_deps \<Rightarrow> tool_target \<Rightarrow> tool_call_request \<Rightarrow> tool_call_response" where
  "mock_tool_response d target request =
     success_tool_response target request (execution_id d request)
       (JObject [(''tool_id'', JString (req_tool_id request)), (''arguments'', req_arguments request),
         (''mocked'', JBool True), (''observed_at'', JString (d_observed_at d))])"

fun json_option_str :: "string option \<Rightarrow> json" where
  "json_option_str (Some s) = JString s"
| "json_option_str None = JNull"

text \<open>A \<open>POST\<close> of a JSON body without further headers.\<close>

definition post_json :: "url \<Rightarrow> json \<Rightarrow> ('f, http_result) program" where
  "post_json u body =
     lthen (emit (Requested ''POST'' u [] (Some body)))
       (lbind (await_for e_http) (\<lambda>r. case r of
          Responded resp \<Rightarrow> lthen (emit (Answered (http_status_code resp))) (lret r)
        | _ \<Rightarrow> lret r))"

definition parse_limited_json_response :: "http_response \<Rightarrow> nat \<Rightarrow> json exec" where
  "parse_limited_json_response resp max_response_bytes =
     lbind (await_for (\<lambda>e n. and_then (read_limited_body (http_body resp) max_response_bytes)
         (\<lambda>body. ok_or ProtocolParse (e_parse e body))))
       (lift (\<lambda>_. ToolExecutionFailed))"

text \<open>The URL of a target that is posted to, after the checks that the HTTP executors share.\<close>

definition checked_post_url :: "('p, 'q) exec_deps \<Rightarrow> tool_target \<Rightarrow> egress_policy \<Rightarrow> url option" where
  "checked_post_url d target egress =
     (if \<not> eq_ignore_ascii_case (target_method target) ''POST'' then None
      else case target_url target of
        None \<Rightarrow> None
      | Some u \<Rightarrow>
          if \<not> is_ok (validate_target_url (d_url_parse d) u egress) then None
          else d_url_parse d u)"

definition execute_http_tool ::
    "('p, 'q) exec_deps \<Rightarrow> tool_target \<Rightarrow> tool_call_request \<Rightarrow> egress_policy \<Rightarrow> nat \<Rightarrow> tool_call_response exec" where
  "execute_http_tool d target request egress max_response_bytes =
     (case checked_post_url d target egress of
        None \<Rightarrow> lfail ToolTargetUnavailable
      | Some parsed \<Rightarrow>
          if \<not> http_scheme (scheme parsed) \<or> \<not> d_client_ok d then lfail ToolTargetUnavailable
          else
            lbind (post_json parsed
              (JObject [(''tool_id'', JString (req_tool_id request)), (''arguments'', req_arguments request),
                (''tool_call_id'', json_option_str (req_tool_call_id request)),
                (''tool_execution_id'', json_option_str (req_tool_execution_id request))])) (\<lambda>r. case r of
              Responded resp \<Rightarrow>
                if \<not> status_success (http_status_code resp) then lfail ToolExecutionFailed
                else lbind (parse_limited_json_response resp max_response_bytes) (\<lambda>result.
                  lret (success_tool_response target request (execution_id d request) result))
            | _ \<Rightarrow> lfail ToolTargetUnavailable))"

section \<open>MCP over plain HTTP\<close>

datatype mcp_http_error =
    MhTargetUrlMissing
  | MhTargetUnavailable
  | MhInitializeFailed
  | MhCapabilityUnsupported
  | MhProtocolError
  | MhCallFailed
  | MhResponseTooLarge
  | MhTimeout

fun map_mcp_http_error :: "mcp_http_error \<Rightarrow> tool_execution_error" where
  "map_mcp_http_error MhProtocolError = ToolExecutionFailed"
| "map_mcp_http_error MhCallFailed = ToolExecutionFailed"
| "map_mcp_http_error MhResponseTooLarge = ToolExecutionFailed"
| "map_mcp_http_error _ = ToolTargetUnavailable"

definition validate_initialize_result :: "mcp_initialize_result \<Rightarrow> mcp_http_error + unit" where
  "validate_initialize_result response =
     (case get ''tools'' (init_capabilities response) of
        Some (JObject _) \<Rightarrow> Ok ()
      | _ \<Rightarrow> Err MhCapabilityUnsupported)"

fun json_option :: "json option \<Rightarrow> json" where
  "json_option (Some j) = j"
| "json_option None = JNull"

definition json_i64 :: "int \<Rightarrow> json" where
  "json_i64 i = JNumber (if i < 0 then NegInt i else PosInt (nat i))"

definition map_mcp_error :: "string \<Rightarrow> string option \<Rightarrow> mcp_json_rpc_error \<Rightarrow> tool_call_response" where
  "map_mcp_error eid call_id error =
     (let retryable = mcp_error_retryable (err_code error); message = err_message error in
      \<lparr>status = Failed, tool_call_id = call_id, tool_execution_id = eid,
       tool_output = JObject [(''error'', JObject [(''code'', JString ''mcp_call_failed''),
         (''retryable'', JBool retryable), (''message'', JString message), (''mcpCode'', json_i64 (err_code error)),
         (''mcpData'', json_option (err_data error))])],
       resp_error = Some \<lparr>envelope_code = ''mcp_call_failed'', envelope_message = message, envelope_retryable = retryable\<rparr>,
       gateway_metadata = None,
       billing = \<lparr>bill_reason = ''mcp_call_failed'', billable = False, cost_micros = 0, bill_currency = ''USD'',
         dedupe_key = eid\<rparr>,
       cost = \<lparr>amount_micros = 0, cost_currency = ''USD'', cost_source = ''waived''\<rparr>,
       policy = allowed_policy, events = default_events\<rparr>)"

definition mh_validate_envelope :: "'a mcp_json_rpc_response \<Rightarrow> string \<Rightarrow> mcp_http_error + unit" where
  "mh_validate_envelope response expected_id =
     (if rpc_jsonrpc response \<noteq> Some ''2.0'' then Err MhProtocolError
      else if rpc_id response \<noteq> Some (JString expected_id) then Err MhProtocolError
      else Ok ())"

definition mh_post_json_rpc :: "url \<Rightarrow> string \<Rightarrow> string \<Rightarrow> json \<Rightarrow> (mcp_http_error, http_response) program" where
  "mh_post_json_rpc u rid method params =
     lbind (post_json u (JObject [(''jsonrpc'', JString ''2.0''), (''id'', JString rid), (''method'', JString method),
         (''params'', params)])) (\<lambda>r. case r of
       SendTimeout \<Rightarrow> lfail MhTimeout
     | SendFailed \<Rightarrow> lfail MhTargetUnavailable
     | Responded resp \<Rightarrow> if \<not> status_success (http_status_code resp) then lfail MhCallFailed else lret resp)"

text \<open>An item \<open>IdleElapsed\<close> of the stream stands for an error with \<open>is_timeout\<close>.\<close>

fun mh_read_chunks :: "nat \<Rightarrow> string \<Rightarrow> stream_item list \<Rightarrow> mcp_http_error + string" where
  "mh_read_chunks max_bytes body [] = Ok body"
| "mh_read_chunks max_bytes body (Chunk chunk # items) =
     (case checked_add (length body) (length chunk) of
        None \<Rightarrow> Err MhResponseTooLarge
      | Some next_len \<Rightarrow>
          if max_bytes < next_len then Err MhResponseTooLarge
          else mh_read_chunks max_bytes (body @ chunk) items)"
| "mh_read_chunks max_bytes body (IdleElapsed # items) = Err MhTimeout"
| "mh_read_chunks max_bytes body (StreamFailed # items) = Err MhTargetUnavailable"

definition mh_parse_limited ::
    "(life_env \<Rightarrow> string \<Rightarrow> 'a option) \<Rightarrow> http_response \<Rightarrow> nat \<Rightarrow> (mcp_http_error, 'a) program" where
  "mh_parse_limited from_slice resp max_bytes =
     (if (case r_content_length (http_body resp) of Some len \<Rightarrow> max_bytes < len | None \<Rightarrow> False)
      then lfail MhResponseTooLarge
      else lbind (await_for (\<lambda>e n. and_then (mh_read_chunks max_bytes [] (r_stream (http_body resp)))
          (\<lambda>body. ok_or MhProtocolError (from_slice e body))))
        (lift id))"

definition execute_mcp_http_flow ::
    "tool_target \<Rightarrow> tool_call_request \<Rightarrow> url \<Rightarrow> string \<Rightarrow> nat \<Rightarrow> (mcp_http_error, tool_call_response) program" where
  "execute_mcp_http_flow target request u eid max_bytes =
     lbind (read_env (\<lambda>e n. e_pkg_version e)) (\<lambda>pkg.
     lbind (mh_post_json_rpc u (''init_'' @ eid) ''initialize''
       (JObject [(''protocolVersion'', JString ''2025-03-26''), (''capabilities'', JObject []),
         (''clientInfo'', JObject [(''name'', JString ''alephant-ai-gateway''), (''version'', JString pkg)])])) (\<lambda>resp.
     lbind (mh_parse_limited e_init_slice resp max_bytes) (\<lambda>init.
     lthen (lift id (mh_validate_envelope init (''init_'' @ eid)))
     (case rpc_error init of
        Some error \<Rightarrow> lret (map_mcp_error eid (req_tool_call_id request) error)
      | None \<Rightarrow>
          lbind (lift id (ok_or MhProtocolError (rpc_result init))) (\<lambda>result.
          lthen (lift id (validate_initialize_result result))
          (lbind (mh_post_json_rpc u eid ''tools/call''
             (JObject [(''name'', JString (tool_id target)), (''arguments'', req_arguments request)])) (\<lambda>resp2.
          lbind (mh_parse_limited e_call_slice resp2 max_bytes) (\<lambda>call.
          lthen (lift id (mh_validate_envelope call eid))
          (case rpc_error call of
             Some error \<Rightarrow> lret (map_mcp_error eid (req_tool_call_id request) error)
           | None \<Rightarrow>
               lbind (lift id (ok_or MhProtocolError (rpc_result call))) (\<lambda>result.
               lret (success_tool_response target request eid result)))))))))))"

text \<open>\<open>tokio::time::timeout\<close>: the deadline of the environment is the one of the flow.\<close>

definition ltimeout :: "'f \<Rightarrow> ('f, 'a) program \<Rightarrow> ('f, 'a) program" where
  "ltimeout err m = (\<lambda>e w. case m e w of (LElapsed, w') \<Rightarrow> (LFail err, w') | x \<Rightarrow> x)"

definition execute_mcp_http_tool ::
    "('p, 'q) exec_deps \<Rightarrow> tool_target \<Rightarrow> tool_call_request \<Rightarrow> egress_policy \<Rightarrow> nat
       \<Rightarrow> (mcp_http_error, tool_call_response) program" where
  "execute_mcp_http_tool d target request egress max_response_bytes =
     (if \<not> eq_ignore_ascii_case (target_method target) ''POST'' then lfail MhTargetUnavailable
      else case target_url target of
        None \<Rightarrow> lfail MhTargetUrlMissing
      | Some u \<Rightarrow>
          (case checked_post_url d target egress of
             None \<Rightarrow> lfail MhTargetUnavailable
           | Some parsed \<Rightarrow>
               if \<not> d_client_ok d then lfail MhTargetUnavailable
               else ltimeout MhTimeout
                 (execute_mcp_http_flow target request parsed (execution_id d request) max_response_bytes)))"

section \<open>Dispatch on the kind\<close>

definition execute_tool ::
    "('p, 'q) exec_deps \<Rightarrow> tool_target \<Rightarrow> tool_call_request \<Rightarrow> egress_policy \<Rightarrow> nat \<Rightarrow> nat \<Rightarrow> nat
       \<Rightarrow> tool_call_response exec" where
  "execute_tool d target request egress default_timeout_ms max_request_bytes max_response_bytes =
     (case target_kind_of target of
        MockTool \<Rightarrow> lret (mock_tool_response d target request)
      | HttpTool \<Rightarrow> execute_http_tool d target request egress max_response_bytes
      | McpHttpTool \<Rightarrow>
          lmap_err map_mcp_http_error (execute_mcp_http_tool d target request egress max_response_bytes)
      | McpStreamableHttpTool \<Rightarrow> lfail ToolTargetUnavailable
      | McpSseTool \<Rightarrow> lfail ToolTargetUnavailable
      | OpenApiTool \<Rightarrow>
          execute_openapi_tool (openapi_deps_of d) target request egress default_timeout_ms max_request_bytes
            max_response_bytes)"

text \<open>The two lifecycles start from a fresh world, and their effects follow those of the caller.\<close>

definition after_world :: "life_world \<Rightarrow> life_world \<Rightarrow> life_world" where
  "after_world w w' = w'\<lparr>w_awaits := w_awaits w + w_awaits w', w_trace := w_trace w @ w_trace w'\<rparr>"

definition run_streamable ::
    "tool_execution_error + tool_call_response \<times> life_world \<Rightarrow> life_world
       \<Rightarrow> (tool_execution_error, tool_call_response) outcome \<times> life_world" where
  "run_streamable x w =
     (case x of Inl err \<Rightarrow> (LFail err, w) | Inr (r, w') \<Rightarrow> (LDone r, after_world w w'))"

definition run_sse ::
    "(tool_execution_error + tool_call_response) \<times> life_world \<Rightarrow> life_world
       \<Rightarrow> (tool_execution_error, tool_call_response) outcome \<times> life_world" where
  "run_sse x w =
     (case x of (Inl err, w') \<Rightarrow> (LFail err, after_world w w') | (Inr r, w') \<Rightarrow> (LDone r, after_world w w'))"

definition execute_tool_with_context ::
    "('p, 'q) exec_deps \<Rightarrow> tool_ctx \<Rightarrow> tool_target \<Rightarrow> tool_call_request \<Rightarrow> egress_policy \<Rightarrow> nat \<Rightarrow> nat \<Rightarrow> nat
       \<Rightarrow> tool_call_response exec" where
  "execute_tool_with_context d ctx target request egress default_timeout_ms max_request_bytes max_response_bytes =
     (case target_kind_of target of
        McpStreamableHttpTool \<Rightarrow> (\<lambda>e. run_streamable
          (execute_lifecycle_with_cache (d_url_parse d) (d_client_ok d) (d_fresh_id d) ctx target request egress
             default_timeout_ms max_response_bytes e))
      | McpSseTool \<Rightarrow> (\<lambda>e. run_sse
          (execute_sse_lifecycle (d_url_parse d) (d_url_join d) (d_client_ok d) ctx target request egress
             max_response_bytes e))
      | _ \<Rightarrow> execute_tool d target request egress default_timeout_ms max_request_bytes max_response_bytes)"

section \<open>The contract of an execution\<close>

text \<open>
  The bill of any executor: the amount of the bill is the cost, the rate card if billable and nothing otherwise;
  a completed call is billable, and only an OpenAPI call can be billed and yet failed.
\<close>

definition charged :: "tool_target \<Rightarrow> tool_call_response \<Rightarrow> bool" where
  "charged target r \<longleftrightarrow>
     cost_micros (billing r) = amount_micros (cost r)
     \<and> amount_micros (cost r) = (if billable (billing r) then fixed_micros (target_rate_card target) else 0)
     \<and> (billable (billing r) \<longrightarrow> cost_currency (cost r) = currency (target_rate_card target))
     \<and> (status r = Completed \<longrightarrow> billable (billing r))
     \<and> (billable (billing r) \<longrightarrow> status r = Completed \<or> target_kind_of target = OpenApiTool)
     \<and> (resp_error r = None \<longleftrightarrow> status r = Completed)"

text \<open>A request goes to a URL that the policy has passed as a text: the text it was parsed from, or its own.\<close>

definition passed_text :: "url_parser \<Rightarrow> egress_policy \<Rightarrow> string \<Rightarrow> bool" where
  "passed_text url_parse egress t \<longleftrightarrow> is_ok (validate_target_url url_parse t egress)"

definition passed_url :: "url_parser \<Rightarrow> egress_policy \<Rightarrow> url \<Rightarrow> bool" where
  "passed_url url_parse egress u \<longleftrightarrow> (\<exists>t. (url_parse t = Some u \<or> t = as_text u) \<and> passed_text url_parse egress t)"

fun egress_ok :: "url_parser \<Rightarrow> egress_policy \<Rightarrow> life_event \<Rightarrow> bool" where
  "egress_ok url_parse egress (Posted u body sid v) = passed_url url_parse egress u"
| "egress_ok url_parse egress (Requested m u h b) = passed_url url_parse egress u"
| "egress_ok url_parse egress (StreamOpened t) = passed_text url_parse egress t"
| "egress_ok url_parse egress (MessagePosted t body) = passed_text url_parse egress t"
| "egress_ok url_parse egress _ = True"

definition exec_ok ::
    "('p, 'q) exec_deps \<Rightarrow> tool_target \<Rightarrow> egress_policy
       \<Rightarrow> (tool_execution_error, tool_call_response) outcome \<times> life_world \<Rightarrow> bool" where
  "exec_ok d target egress x \<longleftrightarrow>
     list_all (egress_ok (d_url_parse d) egress) (w_trace (snd x))
     \<and> (case fst x of LDone r \<Rightarrow> charged target r | _ \<Rightarrow> True)"

lemma fair_charged: "fair_billing target r \<Longrightarrow> charged target r"
  by (auto simp: fair_billing_def charged_def)

lemma success_charged: "charged target (success_tool_response target request eid result)"
  by (simp add: charged_def success_tool_response_def Let_def)

lemma mcp_error_charged: "charged target (map_mcp_error eid call_id error)"
  by (simp add: charged_def map_mcp_error_def Let_def)

lemma checked_post_url_passed:
  "checked_post_url d target egress = Some u \<Longrightarrow> passed_url (d_url_parse d) egress u"
  by (auto simp: checked_post_url_def passed_url_def passed_text_def split: if_splits option.splits)

subsection \<open>The HTTP executors\<close>

abbreviation events_ok :: "('p, 'q, 'z) openapi_deps_scheme \<Rightarrow> egress_policy \<Rightarrow> life_world \<Rightarrow> bool" where
  "events_ok d egress w \<equiv> list_all (egress_ok (d_url_parse d) egress) (w_trace w)"

lemma post_json_spec:
  assumes "passed_url (d_url_parse d) egress u"
  shows "spec e (events_ok d egress) (post_json u body) (\<lambda>_. events_ok d egress) (events_ok d egress) (events_ok d egress)"
  using assms
  by (auto simp: spec_def post_json_def lthen_def lbind_def emit_def await_for_def lret_def split: http_result.splits)

lemma parse_limited_spec:
  "spec e (events_ok d egress) (parse_limited_json_response resp n) (\<lambda>_. events_ok d egress) (events_ok d egress) (events_ok d egress)"
  unfolding parse_limited_json_response_def
  by (rule spec_bind [where Q = "\<lambda>_. events_ok d egress"]) (auto intro: spec_await_for spec_lift)

lemma mh_parse_limited_spec:
  "spec e (events_ok d egress) (mh_parse_limited f resp n) (\<lambda>_. events_ok d egress) (events_ok d egress) (events_ok d egress)"
  unfolding mh_parse_limited_def
  by (rule spec_if, rule spec_fail, assumption, rule spec_bind [where Q = "\<lambda>_. events_ok d egress"])
    (auto intro: spec_await_for spec_lift)

lemma execute_http_spec:
  "spec e (events_ok d egress) (execute_http_tool d target request egress n)
     (\<lambda>r w. events_ok d egress w \<and> charged target r) (events_ok d egress) (events_ok d egress)"
proof (cases "checked_post_url d target egress")
  case None
  then show ?thesis by (simp add: execute_http_tool_def spec_fail)
next
  case (Some u)
  note ok = checked_post_url_passed [OF Some]
  show ?thesis
    unfolding execute_http_tool_def Some option.case
    by (rule spec_if, rule spec_fail, assumption, rule spec_bind [OF post_json_spec [OF ok]])
      (auto intro!: spec_fail spec_ret spec_bind [OF parse_limited_spec] simp: success_charged split: http_result.split)
qed

lemma mh_post_spec:
  assumes "passed_url (d_url_parse d) egress u"
  shows "spec e (events_ok d egress) (mh_post_json_rpc u rid method params) (\<lambda>_. events_ok d egress)
    (events_ok d egress) (events_ok d egress)"
  unfolding mh_post_json_rpc_def
  by (rule spec_bind [OF post_json_spec [OF assms]]) (auto intro!: spec_fail spec_ret split: http_result.split)

lemma lift_keeps: "spec e P (lift g r) (\<lambda>_. P) P P"
  by (rule spec_lift)

lemma execute_mcp_http_flow_spec:
  assumes "passed_url (d_url_parse d) egress u"
  shows "spec e (events_ok d egress) (execute_mcp_http_flow target request u eid n)
    (\<lambda>r w. events_ok d egress w \<and> charged target r) (events_ok d egress) (events_ok d egress)"
proof -
  note steps = spec_bind [OF mh_post_spec [OF assms]] spec_bind [OF mh_parse_limited_spec] spec_bind [OF lift_keeps]
    spec_then [OF lift_keeps]
  have finish: "spec e (events_ok d egress) (lret (map_mcp_error eid i error))
      (\<lambda>r w. events_ok d egress w \<and> charged target r) (events_ok d egress) (events_ok d egress)" for i error
    by (rule spec_ret) (simp add: mcp_error_charged)
  have good: "spec e (events_ok d egress) (lret (success_tool_response target request eid x))
      (\<lambda>r w. events_ok d egress w \<and> charged target r) (events_ok d egress) (events_ok d egress)" for x
    by (rule spec_ret) (simp add: success_charged)
  show ?thesis
    unfolding execute_mcp_http_flow_def
    by (rule spec_bind [OF spec_read_env [where Q = "\<lambda>_. events_ok d egress"]], assumption)
      (auto intro!: steps finish good split: option.split)
qed

lemma checked_method:
  "checked_post_url d target egress = Some u \<Longrightarrow> eq_ignore_ascii_case (target_method target) ''POST''"
  by (simp add: checked_post_url_def split: if_splits)

lemma spec_ltimeout: "spec e P m Q F F \<Longrightarrow> spec e P (ltimeout err m) Q F E"
  by (auto simp: spec_def ltimeout_def split: prod.splits outcome.splits)

lemma execute_mcp_http_spec:
  "spec e (events_ok d egress) (execute_mcp_http_tool d target request egress n)
     (\<lambda>r w. events_ok d egress w \<and> charged target r) (events_ok d egress) (events_ok d egress)"
proof (cases "checked_post_url d target egress")
  case None
  then show ?thesis by (auto simp: execute_mcp_http_tool_def spec_fail split: option.split)
next
  case (Some u)
  show ?thesis
    using spec_ltimeout [OF execute_mcp_http_flow_spec [OF checked_post_url_passed [OF Some]]] Some checked_method [OF Some]
    by (auto simp: execute_mcp_http_tool_def spec_fail split: option.split)
qed

lemma spec_exec_ok:
  assumes "spec e (events_ok d egress) m (\<lambda>r w. events_ok d egress w \<and> charged target r)
    (events_ok d egress) (events_ok d egress)"
  shows "exec_ok d target egress (m e world0)"
proof -
  obtain x w where run: "m e world0 = (x, w)" by fastforce
  have "events_ok d egress world0" by (simp add: world0_def)
  then show ?thesis using assms run by (cases x) (auto simp: spec_def exec_ok_def dest!: spec [where x = world0])
qed

subsection \<open>The other kinds\<close>

lemma at_most_one_events:
  assumes "at_most_one P tr" "\<And>u. P u \<Longrightarrow> passed_url url_parse egress u"
  shows "list_all (egress_ok url_parse egress) tr"
  using assms by (auto simp: at_most_one_def)

lemma openapi_egress_passed:
  "validate_openapi_egress url_parse target u egress = Ok () \<Longrightarrow> passed_url url_parse egress u"
  by (auto simp: validate_openapi_egress_def passed_url_def passed_text_def split: if_splits option.splits sum.splits)

lemma accounted_charged:
  "\<lbrakk>accounted k r tr; opt_fixed_micros (k_opts k) = fixed_micros (target_rate_card target);
    opt_currency (k_opts k) = currency (target_rate_card target); target_kind_of target = OpenApiTool\<rbrakk>
   \<Longrightarrow> charged target r"
  by (auto simp: accounted_def charged_def)

lemma openapi_exec_ok:
  assumes "target_kind_of target = OpenApiTool"
  shows "exec_ok d target egress (execute_openapi_tool (openapi_deps_of d) target request egress t mq mr e world0)"
proof -
  have lib: "d_lib (openapi_deps_of d) = d_lib d" by (simp add: openapi_deps_of_def)
  have ev: "at_most_one (\<lambda>u. validate_openapi_egress (d_url_parse d) rt u egress = Ok ()) tr
      \<Longrightarrow> list_all (egress_ok (d_url_parse d) egress) tr" for rt :: runtime_openapi_target and tr
    by (erule at_most_one_events) (rule openapi_egress_passed)
  have ch: "accounted (call_of (openapi_deps_of d) rt request (static_options target request t mq mr)) r tr
      \<Longrightarrow> charged target r" for rt r tr
    by (erule accounted_charged) (simp_all add: assms call_of_def static_options_def)
  obtain x w where run: "execute_openapi_tool (openapi_deps_of d) target request egress t mq mr e world0 = (x, w)"
    by fastforce
  note acc = openapi_accounts [where d = "openapi_deps_of d" and target = target and request = request and egress = egress
      and default_timeout_ms = t and max_request_bytes = mq and max_response_bytes = mr and e = e, unfolded run lib]
  show ?thesis
    using acc ev ch unfolding run by (cases x) (auto simp: exec_ok_def)
qed

lemma streamable_exec_ok:
  assumes "\<And>n i. e_role e n = FlightReceived (Some i) \<Longrightarrow> initialized_ok ctx i"
  shows "exec_ok d target egress (run_streamable
    (execute_lifecycle_with_cache (d_url_parse d) ok fid ctx target request egress t n e) world0)"
proof (cases "execute_lifecycle_with_cache (d_url_parse d) ok fid ctx target request egress t n e")
  case (Inl err)
  then show ?thesis by (simp add: run_streamable_def exec_ok_def world0_def)
next
  case (Inr x)
  obtain r w where x: "x = (r, w)" by (cases x)
  obtain u p c where u: "target_url target = Some u" "is_ok (validate_target_url (d_url_parse d) u egress)"
      "d_url_parse d u = Some p" and c: "c_ctx c = ctx" "c_url c = p" "c_target c = target" "run_lifecycle c e = (r, w)"
    using Inr x by (auto elim: lifecycle_runs)
  have "flights_ok c e" using assms c(1) by (simp add: flights_ok_def)
  note ends = run_ends [OF this, unfolded c(4)]
  have "passed_url (d_url_parse d) egress p" using u by (auto simp: passed_url_def passed_text_def)
  then have "egress_ok (d_url_parse d) egress ev" if "event_ok c ev" for ev
    using that c(2) by (cases ev) auto
  then have "events_ok d egress w" using ends(1) by (auto simp: list_all_iff)
  moreover have "charged target r" using ends(3) c(3) fair_charged by (simp add: resp_ok_def)
  ultimately show ?thesis using Inr x by (simp add: run_streamable_def exec_ok_def after_world_def world0_def)
qed

lemma sends_events_ok:
  assumes "list_all (egress_ok url_parse egress) (sends w)"
  shows "list_all (egress_ok url_parse egress) (w_trace w)"
proof -
  have "egress_ok url_parse egress ev" if "\<not> is_send ev" for ev
    using that by (cases ev) auto
  then show ?thesis using assms by (auto simp: sends_def list_all_iff)
qed

lemma sse_exec_ok:
  "exec_ok d target egress (run_sse (execute_sse_lifecycle (d_url_parse d) join_url ok ctx target request egress n e) world0)"
proof -
  obtain r w where run: "execute_sse_lifecycle (d_url_parse d) join_url ok ctx target request egress n e = (Ok r, w)"
    and fair: "fair_billing target r"
    using sse_response [of "d_url_parse d" join_url ok ctx target request egress n e] by blast
  have "list_all (egress_ok (d_url_parse d) egress) (sends w)"
    using sse_sends [of "d_url_parse d" join_url ok ctx target request egress n e] run
    by (auto simp: passed_text_def list_all_iff dest!: in_set_takeD)
  then show ?thesis
    using run fair_charged [OF fair] sends_events_ok by (simp add: run_sse_def exec_ok_def after_world_def world0_def)
qed

lemma execution_contract:
  assumes "\<And>n i. e_role e n = FlightReceived (Some i) \<Longrightarrow> initialized_ok ctx i"
  shows "exec_ok d target egress
    (execute_tool_with_context d ctx target request egress default_timeout_ms max_request_bytes max_response_bytes e world0)"
proof (cases "target_kind_of target")
  case MockTool
  then show ?thesis
    by (simp add: execute_tool_with_context_def execute_tool_def lret_def exec_ok_def world0_def mock_tool_response_def success_charged)
next
  case HttpTool
  then show ?thesis
    using spec_exec_ok [OF execute_http_spec] by (simp add: execute_tool_with_context_def execute_tool_def)
next
  case McpHttpTool
  then show ?thesis
    using spec_exec_ok [OF spec_map_err [OF execute_mcp_http_spec]] by (simp add: execute_tool_with_context_def execute_tool_def)
next
  case McpStreamableHttpTool
  then show ?thesis using streamable_exec_ok [OF assms] by (simp add: execute_tool_with_context_def)
next
  case McpSseTool
  then show ?thesis using sse_exec_ok by (simp add: execute_tool_with_context_def)
next
  case OpenApiTool
  then show ?thesis using openapi_exec_ok by (simp add: execute_tool_with_context_def execute_tool_def)
qed

section \<open>Properties\<close>

text \<open>
  Property C37. Whatever the kind of the target, an execution sends requests only to URLs that the egress policy has
  passed, whether it ends with a response, an error or is dropped; and the response of any executor is
  charged by one rule: the bill is the cost, the fixed price of the rate card when billable and zero otherwise,
  a completed call is billable, a call that failed is free unless it is an OpenAPI call, and an error is
  present exactly when the call did not complete. The hypothesis is that a session received from another caller's
  flight is one that an initialisation gives.
\<close>

theorem tool_execution_contract:
  assumes "\<And>n i. e_role e n = FlightReceived (Some i) \<Longrightarrow> initialized_ok ctx i"
  shows "exec_ok d target egress
    (execute_tool_with_context d ctx target request egress default_timeout_ms max_request_bytes max_response_bytes e world0)"
  using assms by (rule execution_contract)

definition ex_deps :: "(unit, unit) exec_deps" where
  "ex_deps =
     \<lparr>d_lib = ex_openapi_lib, d_validation = \<lparr>v_for_route = (\<lambda>_ _. Ok None), v_prepare = (\<lambda>_ h _. Ok (h, ())),
        v_response = (\<lambda>_ _ _. Ok ())\<rparr>,
      d_method_ok = (\<lambda>_. True), d_client_ok = True, d_fresh_id = [], d_url_join = (\<lambda>_ _. None), d_observed_at = []\<rparr>"

theorem tool_execution_contract_witness:
  "exec_ok ex_deps ex_target default_egress_policy
     (execute_tool_with_context ex_deps ex_ctx ex_target ex_request default_egress_policy 30000 100 100 (ex_env 20) world0)"
  by (rule tool_execution_contract) (simp add: ex_env_def)

end
