(* ===== verification/Tool_Catalog.thy ===== *)
theory Tool_Catalog
  imports Agent_Context
begin

text \<open>
  The catalogue of the static tools (\<open>agent/tools/catalog.rs\<close>): which targets a caller sees and may call, and the
  names under which agent frameworks get them; and the check of the arguments of a call
  (\<open>agent/tools/schema_validator.rs\<close>). SHA-256 and the JSON printer are parameters.
\<close>

section \<open>Hashes\<close>

record hash_lib =
  h_to_vec :: json_printer
  h_sha256_hex :: "string \<Rightarrow> string"

definition schema_hash_for_value :: "hash_lib \<Rightarrow> json \<Rightarrow> string" where
  "schema_hash_for_value lib schema = ''sha256:'' @ h_sha256_hex lib (h_to_vec lib schema)"

definition arguments_hash :: "hash_lib \<Rightarrow> json \<Rightarrow> string" where
  "arguments_hash lib arguments = ''sha256:'' @ h_sha256_hex lib (h_to_vec lib arguments)"

definition stable_hash_suffix :: "hash_lib \<Rightarrow> string \<Rightarrow> string" where
  "stable_hash_suffix lib s = take 8 (h_sha256_hex lib s)"

text \<open>What \<open>format!("{:x}", Sha256::digest(..))\<close> gives: 64 lower-case hexadecimal digits.\<close>

definition is_lower_hex :: "char \<Rightarrow> bool" where
  "is_lower_hex c \<longleftrightarrow> is_ascii_digit c \<or> (97 \<le> byte c \<and> byte c \<le> 102)"

definition sha256_ok :: "hash_lib \<Rightarrow> bool" where
  "sha256_ok lib \<longleftrightarrow> (\<forall>s. length (h_sha256_hex lib s) = 64 \<and> list_all is_lower_hex (h_sha256_hex lib s))"

section \<open>Visibility\<close>

definition trusted_agent_id_from_auth :: "auth_context \<Rightarrow> string option" where
  "trusted_agent_id_from_auth auth = (if auth_is_agent auth then Some (uuid_string (entity_id auth)) else None)"

definition target_visible :: "auth_context \<Rightarrow> tool_target \<Rightarrow> string option \<Rightarrow> bool" where
  "target_visible auth target requested_agent_id =
     (let allow = allowlist target in
      (workspace_ids allow = [] \<or> org_id auth \<in> set (workspace_ids allow))
      \<and> (virtual_key_ids allow = [] \<or> (case auth_virtual_key_id auth of
           Some i \<Rightarrow> i \<in> set (virtual_key_ids allow) | None \<Rightarrow> False))
      \<and> (agent_ids allow = [] \<or> (case requested_agent_id of
           Some i \<Rightarrow> i \<in> set (agent_ids allow) | None \<Rightarrow> False)))"

text \<open>The agent id that the caller reports is ignored by both operations.\<close>

definition find_callable_tool ::
    "auth_context \<Rightarrow> tool_target list \<Rightarrow> string option \<Rightarrow> string \<Rightarrow> tool_target option" where
  "find_callable_tool auth targets reported_agent_id tid =
     (case find (\<lambda>t. tool_id t = tid) targets of
        None \<Rightarrow> None
      | Some t \<Rightarrow> if target_visible auth t (trusted_agent_id_from_auth auth) then Some t else None)"

section \<open>Names for frameworks\<close>

text \<open>
  \<open>chars\<close> of a UTF-8 string: the bytes that start a character. A character that is not ASCII becomes one
  underscore.
\<close>

definition name_char :: "char \<Rightarrow> char" where
  "name_char c = (if is_ascii_alphanumeric c then ascii_lower_char c else CHR ''_'')"

definition framework_tool_name_base :: "string \<Rightarrow> string" where
  "framework_tool_name_base tid =
     (let base = map name_char (filter (\<lambda>c. \<not> utf8_cont c) tid) in
      take 64 (if base = [] then ''tool'' else base))"

definition with_suffix :: "nat \<Rightarrow> string \<Rightarrow> string \<Rightarrow> string" where
  "with_suffix keep base suffix = take keep base @ ''_'' @ suffix"

text \<open>The loop over the salts; \<open>None\<close> when \<open>fuel\<close> salts are not enough.\<close>

fun salted_name :: "hash_lib \<Rightarrow> string \<Rightarrow> nat \<Rightarrow> string \<Rightarrow> string set \<Rightarrow> nat \<Rightarrow> nat \<Rightarrow> string option" where
  "salted_name lib tid keep base seen 0 salt = None"
| "salted_name lib tid keep base seen (Suc fuel) salt =
     (let candidate = with_suffix keep base (stable_hash_suffix lib (tid @ '':'' @ show_nat salt)) in
      if candidate \<in> seen then salted_name lib tid keep base seen fuel (Suc salt) else Some candidate)"

definition framework_tool_name :: "hash_lib \<Rightarrow> nat \<Rightarrow> string \<Rightarrow> string set \<Rightarrow> string option" where
  "framework_tool_name lib fuel tid seen =
     (let base = framework_tool_name_base tid; suffix = stable_hash_suffix lib tid;
          keep = 64 - (1 + length suffix); suffixed = with_suffix keep base suffix in
      if base \<notin> seen then Some base
      else if suffixed \<notin> seen then Some suffixed
      else salted_name lib tid keep base seen fuel 1)"

section \<open>Descriptors\<close>

fun target_kind_name :: "tool_target_kind \<Rightarrow> string" where
  "target_kind_name MockTool = ''mock''"
| "target_kind_name HttpTool = ''http''"
| "target_kind_name McpHttpTool = ''mcp-http''"
| "target_kind_name McpStreamableHttpTool = ''mcp-streamable-http''"
| "target_kind_name McpSseTool = ''mcp-sse''"
| "target_kind_name OpenApiTool = ''openapi''"

record descriptor_metadata =
  dm_target_kind :: string
  dm_target_id :: string
  dm_service_slug :: "string option"
  dm_operation_id :: "string option"
  dm_operation_slug :: "string option"
  dm_target_hash :: "string option"
  dm_target_revision :: "nat option"
  dm_schema_hash :: "string option"
  dm_auth_revision :: "nat option"
  dm_rate_card_revision :: "nat option"

record tool_availability =
  av_catalog_status :: string
  av_policy_preview :: string
  av_runtime_status :: string
  av_visibility :: string
  av_source :: string
  av_reason_code :: string
  av_reason :: string
  av_may_become_available :: bool
  av_remediation :: string

record cost_policy =
  cp_pricing_type :: string
  cp_fixed_micros :: nat
  cp_source :: string
  cp_currency :: string

record tool_descriptor =
  td_tool_id :: string
  td_framework_tool_name :: string
  td_metadata :: descriptor_metadata
  td_upstream_tool_name :: string
  td_name_sanitization_version :: string
  td_mapping_revision :: nat
  td_snapshot_revision :: nat
  td_policy_revision :: nat
  td_display_name :: string
  td_safe_model_description :: string
  td_name :: string
  td_description :: string
  td_tool_version :: nat
  td_input_schema :: json
  td_output_schema :: json
  td_schema_version :: string
  td_schema_hash :: string
  td_risk_level :: string
  td_approval_mode :: string
  td_timeout_ms :: nat
  td_availability :: tool_availability
  td_cost_policy :: cost_policy

definition descriptor :: "hash_lib \<Rightarrow> tool_target \<Rightarrow> nat \<Rightarrow> string \<Rightarrow> tool_descriptor" where
  "descriptor lib target default_timeout_ms framework_name =
     \<lparr>td_tool_id = tool_id target, td_framework_tool_name = framework_name,
      td_metadata = \<lparr>dm_target_kind = target_kind_name (target_kind_of target), dm_target_id = tool_id target,
        dm_service_slug = None, dm_operation_id = None, dm_operation_slug = None, dm_target_hash = None,
        dm_target_revision = None, dm_schema_hash = None, dm_auth_revision = None, dm_rate_card_revision = None\<rparr>,
      td_upstream_tool_name = tool_id target, td_name_sanitization_version = ''v1'', td_mapping_revision = 0,
      td_snapshot_revision = 0, td_policy_revision = 0, td_display_name = target_name target,
      td_safe_model_description = target_description target, td_name = target_name target,
      td_description = target_description target, td_tool_version = 0, td_input_schema = input_schema target,
      td_output_schema = JObject [], td_schema_version = ''2026-06-05.1'',
      td_schema_hash = schema_hash_for_value lib (input_schema target), td_risk_level = risk_level target,
      td_approval_mode = ''none'',
      td_timeout_ms = (case target_timeout_ms target of Some t \<Rightarrow> t | None \<Rightarrow> default_timeout_ms),
      td_availability = \<lparr>av_catalog_status = ''published'', av_policy_preview = ''callable'',
        av_runtime_status = ''healthy'', av_visibility = ''listed_available'', av_source = ''static'',
        av_reason_code = [], av_reason = [], av_may_become_available = False, av_remediation = []\<rparr>,
      td_cost_policy = \<lparr>cp_pricing_type = ''per_call'', cp_fixed_micros = fixed_micros (target_rate_card target),
        cp_source = ''rate_card'', cp_currency = currency (target_rate_card target)\<rparr>\<rparr>"

text \<open>The visible targets in order, with the set of the names given so far.\<close>

fun describe_all ::
    "hash_lib \<Rightarrow> nat \<Rightarrow> nat \<Rightarrow> tool_target list \<Rightarrow> string set \<Rightarrow> tool_descriptor list option" where
  "describe_all lib fuel default_timeout_ms [] seen = Some []"
| "describe_all lib fuel default_timeout_ms (t # ts) seen =
     (case framework_tool_name lib fuel (tool_id t) seen of
        None \<Rightarrow> None
      | Some n \<Rightarrow>
          map_option (\<lambda>ds. descriptor lib t default_timeout_ms n # ds)
            (describe_all lib fuel default_timeout_ms ts (insert n seen)))"

definition visible_tools ::
    "hash_lib \<Rightarrow> nat \<Rightarrow> auth_context \<Rightarrow> tool_target list \<Rightarrow> string option \<Rightarrow> nat \<Rightarrow> tool_descriptor list option" where
  "visible_tools lib fuel auth targets reported_agent_id default_timeout_ms =
     describe_all lib fuel default_timeout_ms
       (filter (\<lambda>t. target_visible auth t (trusted_agent_id_from_auth auth)) targets) {}"

section \<open>The arguments of a call\<close>

datatype schema_validation_error = ArgumentsMustBeObject | RequiredMissing string | InvalidType string

fun matches_type :: "string \<Rightarrow> json \<Rightarrow> bool" where
  "matches_type type_name v =
     (if type_name = ''string'' then as_str v \<noteq> None
      else if type_name = ''number'' then is_number v
      else if type_name = ''boolean'' then as_bool v \<noteq> None
      else if type_name = ''object'' then as_object v \<noteq> None
      else if type_name = ''array'' then as_array v \<noteq> None
      else True)"

fun check_required :: "json list \<Rightarrow> json_object \<Rightarrow> schema_validation_error + unit" where
  "check_required [] m = Ok ()"
| "check_required (JString field # fs) m =
     (if map_of m field = None then Err (RequiredMissing field) else check_required fs m)"
| "check_required (_ # fs) m = check_required fs m"

fun check_properties :: "json_object \<Rightarrow> json_object \<Rightarrow> schema_validation_error + unit" where
  "check_properties [] m = Ok ()"
| "check_properties ((field, schema) # ps) m =
     (case (map_of m field, Option.bind (get ''type'' schema) as_str) of
        (Some v, Some type_name) \<Rightarrow>
          if matches_type type_name v then check_properties ps m else Err (InvalidType field)
      | _ \<Rightarrow> check_properties ps m)"

definition validate_arguments :: "json \<Rightarrow> json \<Rightarrow> schema_validation_error + unit" where
  "validate_arguments schema arguments =
     (case as_object arguments of
        None \<Rightarrow> Err ArgumentsMustBeObject
      | Some m \<Rightarrow>
          and_then (case Option.bind (get ''required'' schema) as_array of
              Some required \<Rightarrow> check_required required m
            | None \<Rightarrow> Ok ()) (\<lambda>_.
          case Option.bind (get ''properties'' schema) as_object of
            Some properties \<Rightarrow> check_properties properties m
          | None \<Rightarrow> Ok ()))"

section \<open>Lemmas\<close>

subsection \<open>What the argument check accepts\<close>

lemma check_required_ok:
  "check_required fs m = Ok () \<longleftrightarrow> (\<forall>f. JString f \<in> set fs \<longrightarrow> map_of m f \<noteq> None)"
  by (induction fs m rule: check_required.induct) auto

lemma check_properties_ok:
  "check_properties ps m = Ok () \<longleftrightarrow>
     (\<forall>(field, schema) \<in> set ps. \<forall>v type_name. map_of m field = Some v \<longrightarrow>
        Option.bind (get ''type'' schema) as_str = Some type_name \<longrightarrow> matches_type type_name v)"
proof (induction ps m rule: check_properties.induct)
  case (2 field schema ps m)
  then show ?case
    by (cases "map_of m field"; cases "Option.bind (get ''type'' schema) as_str") (auto simp del: matches_type.simps)
qed simp

definition required_present :: "json \<Rightarrow> json_object \<Rightarrow> bool" where
  "required_present schema m \<longleftrightarrow> (\<forall>fs f. get ''required'' schema = Some (JArray fs) \<longrightarrow> JString f \<in> set fs
     \<longrightarrow> map_of m f \<noteq> None)"

definition types_match :: "json \<Rightarrow> json_object \<Rightarrow> bool" where
  "types_match schema m \<longleftrightarrow> (\<forall>ps field s v type_name. get ''properties'' schema = Some (JObject ps)
     \<longrightarrow> (field, s) \<in> set ps \<longrightarrow> map_of m field = Some v \<longrightarrow> get ''type'' s = Some (JString type_name)
     \<longrightarrow> matches_type type_name v)"

lemma required_present_iff:
  "(case Option.bind (get ''required'' schema) as_array of Some r \<Rightarrow> check_required r m | None \<Rightarrow> Ok ()) = Ok ()
     \<longleftrightarrow> required_present schema m"
proof (cases "Option.bind (get ''required'' schema) as_array")
  case None
  then have "get ''required'' schema \<noteq> Some (JArray fs)" for fs by auto
  then show ?thesis by (simp add: None required_present_def)
next
  case (Some r)
  then have "get ''required'' schema = Some (JArray r)" by (auto simp: bind_eq_Some_conv as_array_Some)
  then show ?thesis by (simp add: required_present_def check_required_ok)
qed

lemma types_match_iff:
  "(case Option.bind (get ''properties'' schema) as_object of Some p \<Rightarrow> check_properties p m | None \<Rightarrow> Ok ()) = Ok ()
     \<longleftrightarrow> types_match schema m"
proof (cases "Option.bind (get ''properties'' schema) as_object")
  case None
  then have "get ''properties'' schema \<noteq> Some (JObject ps)" for ps by auto
  then show ?thesis by (simp add: None types_match_def)
next
  case (Some ps)
  then have ps: "get ''properties'' schema = Some (JObject ps)" by (auto simp: bind_eq_Some_conv as_object_Some)
  have "types_match schema m \<longleftrightarrow> (\<forall>(field, s) \<in> set ps. \<forall>v type_name. map_of m field = Some v \<longrightarrow>
      Option.bind (get ''type'' s) as_str = Some type_name \<longrightarrow> matches_type type_name v)"
    unfolding types_match_def bind_eq_Some_conv as_str_Some ps option.inject json.inject by blast
  then show ?thesis by (simp add: Some check_properties_ok del: matches_type.simps)
qed

lemma validate_arguments_ok:
  "validate_arguments schema arguments = Ok () \<longleftrightarrow>
     (\<exists>m. arguments = JObject m \<and> required_present schema m \<and> types_match schema m)"
proof (cases "as_object arguments")
  case None
  then show ?thesis by (auto simp: validate_arguments_def)
next
  case (Some m)
  let ?r = "case Option.bind (get ''required'' schema) as_array of Some r \<Rightarrow> check_required r m | None \<Rightarrow> Ok ()"
  let ?p = "case Option.bind (get ''properties'' schema) as_object of Some p \<Rightarrow> check_properties p m | None \<Rightarrow> Ok ()"
  have "and_then ?r (\<lambda>_. ?p) = Ok () \<longleftrightarrow> ?r = Ok () \<and> ?p = Ok ()"
    by (cases ?r) simp_all
  moreover have "validate_arguments schema arguments = and_then ?r (\<lambda>_. ?p)"
    by (simp only: validate_arguments_def Some option.case)
  ultimately show ?thesis
    using Some unfolding required_present_iff types_match_iff as_object_Some by simp
qed

subsection \<open>Visible and callable\<close>

lemma callable_visible:
  assumes "find_callable_tool auth targets r tid = Some t"
  shows "t \<in> set targets \<and> tool_id t = tid \<and> target_visible auth t (trusted_agent_id_from_auth auth)"
  using assms by (auto simp: find_callable_tool_def find_Some_iff split: option.splits if_splits)

lemma visible_callable:
  assumes "distinct (map tool_id targets)" "t \<in> set targets" "target_visible auth t (trusted_agent_id_from_auth auth)"
  shows "find_callable_tool auth targets r (tool_id t) = Some t"
proof -
  have "find (\<lambda>u. tool_id u = tool_id t) targets = Some t"
    using assms(1,2) by (induction targets) (auto simp: image_iff)
  then show ?thesis using assms(3) by (simp add: find_callable_tool_def)
qed

subsection \<open>The names\<close>

definition framework_ok :: "string \<Rightarrow> bool" where
  "framework_ok n \<longleftrightarrow> n \<noteq> [] \<and> length n \<le> 64
     \<and> list_all (\<lambda>c. is_ascii_lowercase c \<or> is_ascii_digit c \<or> c = CHR ''_'') n"

lemma name_char_ok: "is_ascii_lowercase (name_char c) \<or> is_ascii_digit (name_char c) \<or> name_char c = CHR ''_''"
  by (auto simp: name_char_def ascii_lower_char_def is_ascii_alphanumeric_def is_ascii_lowercase_def
      is_ascii_uppercase_def is_ascii_digit_def byte_def)

lemma base_ok: "framework_ok (framework_tool_name_base tid)"
proof -
  let ?base = "map name_char (filter (\<lambda>c. \<not> utf8_cont c) tid)"
  have "framework_ok (take 64 ?base)" if "?base \<noteq> []"
    using that name_char_ok unfolding framework_ok_def list_all_iff take_map by (auto simp del: filter_empty_conv)
  moreover have "framework_ok (take 64 ''tool'')"
    by (simp add: framework_ok_def is_ascii_lowercase_def is_ascii_digit_def byte_def)
  ultimately show ?thesis
    unfolding framework_tool_name_base_def Let_def by (simp split: if_split)
qed

lemma suffix_ok:
  assumes "sha256_ok lib"
  shows "length (stable_hash_suffix lib s) = 8" "list_all is_lower_hex (stable_hash_suffix lib s)"
  using assms by (auto simp: sha256_ok_def stable_hash_suffix_def list_all_iff dest: in_set_takeD)

lemma with_suffix_ok:
  assumes "framework_ok base" "sha256_ok lib"
  shows "framework_ok (with_suffix (63 - length (stable_hash_suffix lib r)) base (stable_hash_suffix lib s))"
proof -
  note sfx = suffix_ok [OF assms(2), of s] suffix_ok(1) [OF assms(2), of r]
  have "is_lower_hex c \<Longrightarrow> is_ascii_lowercase c \<or> is_ascii_digit c \<or> c = CHR ''_''" for c
    by (auto simp: is_lower_hex_def is_ascii_lowercase_def)
  then show ?thesis
    using assms(1) sfx by (auto simp: framework_ok_def with_suffix_def list_all_iff dest: in_set_takeD)
qed

lemma salted_name_fresh:
  assumes "salted_name lib tid (63 - length (stable_hash_suffix lib r)) base seen fuel salt = Some n"
    and "framework_ok base" "sha256_ok lib"
  shows "n \<notin> seen \<and> framework_ok n"
  using assms
proof (induction fuel arbitrary: salt)
  case (Suc fuel)
  then show ?case by (auto simp: Let_def with_suffix_ok split: if_splits)
qed simp

lemma framework_tool_name_fresh:
  assumes "framework_tool_name lib fuel tid seen = Some n" "sha256_ok lib"
  shows "n \<notin> seen \<and> framework_ok n"
  using assms salted_name_fresh [OF _ base_ok assms(2)]
  by (auto simp: framework_tool_name_def Let_def base_ok with_suffix_ok split: if_splits)

text \<open>
  Different suffixes give different candidates, so the loop ends once the salts have given more suffixes than there are
  names in use.
\<close>

definition enough_salts :: "hash_lib \<Rightarrow> nat \<Rightarrow> nat \<Rightarrow> string \<Rightarrow> bool" where
  "enough_salts lib fuel n tid \<longleftrightarrow>
     n \<le> card ((\<lambda>salt. stable_hash_suffix lib (tid @ '':'' @ show_nat salt)) ` {1 ..< Suc fuel})"

lemma salted_name_None:
  "salted_name lib tid keep base seen fuel salt = None \<Longrightarrow>
     (\<lambda>s. with_suffix keep base (stable_hash_suffix lib (tid @ '':'' @ show_nat s))) ` {salt ..< salt + fuel} \<subseteq> seen"
proof (induction fuel arbitrary: salt)
  case (Suc fuel)
  have "{salt ..< salt + Suc fuel} = insert salt {Suc salt ..< Suc salt + fuel}" by auto
  moreover have "salted_name lib tid keep base seen fuel (Suc salt) = None"
      "with_suffix keep base (stable_hash_suffix lib (tid @ '':'' @ show_nat salt)) \<in> seen"
    using Suc.prems by (auto simp: Let_def split: if_splits)
  ultimately show ?case using Suc.IH [of "Suc salt"] by (simp only: image_insert insert_subset)
qed simp

lemma with_suffix_inj:
  assumes "with_suffix keep base a = with_suffix keep base b" "length a = length b"
  shows "a = b"
  using assms by (simp add: with_suffix_def)

lemma framework_tool_name_returns:
  assumes "sha256_ok lib" "enough_salts lib fuel n tid" "finite seen" "card seen < n"
  shows "\<exists>name. framework_tool_name lib fuel tid seen = Some name"
proof (rule ccontr)
  assume "\<nexists>name. framework_tool_name lib fuel tid seen = Some name"
  then obtain keep where none: "salted_name lib tid keep (framework_tool_name_base tid) seen fuel 1 = None"
    by (auto simp: framework_tool_name_def Let_def split: if_splits)
  let ?suffix = "\<lambda>s. stable_hash_suffix lib (tid @ '':'' @ show_nat s)"
  let ?name = "with_suffix keep (framework_tool_name_base tid)"
  have "inj_on ?name (?suffix ` {1 ..< Suc fuel})"
    unfolding inj_on_def using with_suffix_inj suffix_ok(1) [OF assms(1)] by auto
  then have "card (?name ` ?suffix ` {1 ..< Suc fuel}) = card (?suffix ` {1 ..< Suc fuel})" by (rule card_image)
  moreover have "?name ` ?suffix ` {1 ..< Suc fuel} \<subseteq> seen"
    using salted_name_None [OF none] by (simp add: image_image)
  ultimately show False
    using assms(2-4) card_mono [of seen "?name ` ?suffix ` {1 ..< Suc fuel}"] unfolding enough_salts_def by linarith
qed

lemma describe_all_sound:
  assumes "sha256_ok lib" "describe_all lib fuel t0 ts seen = Some ds"
  shows "map td_tool_id ds = map tool_id ts \<and> distinct (map td_framework_tool_name ds)
    \<and> list_all (framework_ok \<circ> td_framework_tool_name) ds \<and> td_framework_tool_name ` set ds \<inter> seen = {}"
  using assms(2)
proof (induction ts arbitrary: seen ds)
  case (Cons t ts)
  then obtain n ds' where n: "framework_tool_name lib fuel (tool_id t) seen = Some n"
      and more: "describe_all lib fuel t0 ts (insert n seen) = Some ds'" and ds: "ds = descriptor lib t t0 n # ds'"
    by (auto split: option.splits)
  show ?case
    using Cons.IH [OF more] framework_tool_name_fresh [OF n assms(1)] by (auto simp: ds descriptor_def comp_def)
qed simp

lemma describe_all_returns:
  assumes "sha256_ok lib" "list_all (\<lambda>t. enough_salts lib fuel n (tool_id t)) ts" "finite seen" "card seen + length ts \<le> n"
  shows "describe_all lib fuel t0 ts seen \<noteq> None"
  using assms(2-4)
proof (induction ts arbitrary: seen)
  case (Cons t ts)
  obtain name where name: "framework_tool_name lib fuel (tool_id t) seen = Some name"
    using framework_tool_name_returns [OF assms(1), of fuel n "tool_id t" seen] Cons.prems by auto
  have "card (insert name seen) + length ts \<le> n"
    using Cons.prems framework_tool_name_fresh [OF name assms(1)] by simp
  then show ?case using Cons.IH [of "insert name seen"] Cons.prems name by auto
qed simp

lemma describe_all_bases:
  assumes "distinct (map (framework_tool_name_base \<circ> tool_id) ts)"
    and "(framework_tool_name_base \<circ> tool_id) ` set ts \<inter> seen = {}"
  shows "describe_all lib fuel t0 ts seen \<noteq> None"
  using assms
proof (induction ts arbitrary: seen)
  case (Cons t ts)
  have "framework_tool_name lib fuel (tool_id t) seen = Some (framework_tool_name_base (tool_id t))"
    using Cons.prems by (simp add: framework_tool_name_def Let_def)
  then show ?case using Cons.IH [of "insert (framework_tool_name_base (tool_id t)) seen"] Cons.prems by auto
qed simp

section \<open>Properties\<close>

text \<open>
  Property C40. The list of the tools is well formed and agrees with the calls. The list has exactly the visible targets
  in the order of the configuration; their names for frameworks are pairwise distinct, between 1 and 64 characters long
  and made of lower-case letters, digits and underscores, whatever the tool ids are. Every tool that
  \<open>find_callable_tool\<close> lets the caller call is in the list. The converse needs that the tool ids of the configuration
  are distinct, which nothing enforces: of two targets with one id only the first can be called. The search for free
  names ends when the names without suffix are distinct, and also when, for every tool, the first \<open>fuel\<close> salts give at
  least as many different suffixes as there are targets. The only hypothesis on the hash is that it prints 64
  hexadecimal digits.
\<close>

theorem tool_catalog_consistent:
  assumes "sha256_ok lib" and "listed = visible_tools lib fuel auth targets reported default_timeout_ms"
  shows "(\<forall>ds. listed = Some ds \<longrightarrow>
        map td_tool_id ds = map tool_id (filter (\<lambda>t. target_visible auth t (trusted_agent_id_from_auth auth)) targets)
      \<and> distinct (map td_framework_tool_name ds) \<and> list_all (framework_ok \<circ> td_framework_tool_name) ds
      \<and> (\<forall>tid. find_callable_tool auth targets reported tid \<noteq> None \<longrightarrow> tid \<in> td_tool_id ` set ds)
      \<and> (distinct (map tool_id targets) \<longrightarrow> (\<forall>tid \<in> td_tool_id ` set ds. find_callable_tool auth targets reported tid \<noteq> None)))
    \<and> (distinct (map (framework_tool_name_base \<circ> tool_id) targets)
       \<or> list_all (\<lambda>t. enough_salts lib fuel (length targets) (tool_id t)) targets \<longrightarrow> listed \<noteq> None)"
proof (intro conjI allI impI)
  let ?v = "\<lambda>t. target_visible auth t (trusted_agent_id_from_auth auth)"
  fix ds assume "listed = Some ds"
  note sound = describe_all_sound [OF assms(1) this [unfolded assms(2) visible_tools_def]]
  then show "map td_tool_id ds = map tool_id (filter ?v targets)" "distinct (map td_framework_tool_name ds)"
      "list_all (framework_ok \<circ> td_framework_tool_name) ds"
    by blast+
  have ids: "td_tool_id ` set ds = tool_id ` set (filter ?v targets)"
    using sound by (metis list.set_map)
  show "tid \<in> td_tool_id ` set ds" if "find_callable_tool auth targets reported tid \<noteq> None" for tid
    using that callable_visible unfolding ids by fastforce
  show "\<forall>tid \<in> td_tool_id ` set ds. find_callable_tool auth targets reported tid \<noteq> None" if "distinct (map tool_id targets)"
    using visible_callable [OF that] unfolding ids by auto
next
  assume names: "distinct (map (framework_tool_name_base \<circ> tool_id) targets)
    \<or> list_all (\<lambda>t. enough_salts lib fuel (length targets) (tool_id t)) targets"
  then show "listed \<noteq> None"
  proof
    assume "distinct (map (framework_tool_name_base \<circ> tool_id) targets)"
    then show ?thesis unfolding assms(2) visible_tools_def by (intro describe_all_bases) (simp_all add: distinct_map_filter)
  next
    assume "list_all (\<lambda>t. enough_salts lib fuel (length targets) (tool_id t)) targets"
    then show ?thesis
      unfolding assms(2) visible_tools_def by (intro describe_all_returns [OF assms(1)]) (auto simp: list_all_iff)
  qed
qed

definition ex_hash :: hash_lib where
  "ex_hash = \<lparr>h_to_vec = (\<lambda>_. []), h_sha256_hex = (\<lambda>s.
     (if s \<noteq> [] \<and> is_ascii_digit (last s) then last s else CHR ''0'') # replicate 63 (CHR ''0''))\<rparr>"

definition ex_auth :: auth_context where
  "ex_auth = \<lparr>api_key = [], user_id = 1, org_id = 2, workspace_type = None, auth_virtual_key_id = None,
     virtual_key_prefix = [], master_key_id = None, master_key_base_url = None, department_id = 0,
     entity_type = ''agent'', entity_id = 5, entity_name = [], registered_agent_name = None, body_ttl_days = 30,
     is_custom_provider = False\<rparr>"

definition ex_targets :: "tool_target list" where
  "ex_targets = [default_target\<lparr>tool_id := ''a.b''\<rparr>, default_target\<lparr>tool_id := ''a-b''\<rparr>]"

theorem tool_catalog_consistent_witness:
  "\<exists>ds. visible_tools ex_hash 3 ex_auth ex_targets None 8000 = Some ds
     \<and> map td_tool_id ds = [''a.b'', ''a-b''] \<and> distinct (map td_framework_tool_name ds)
     \<and> (\<forall>tid \<in> td_tool_id ` set ds. find_callable_tool ex_auth ex_targets None tid \<noteq> None)"
proof -
  have sha: "sha256_ok ex_hash"
    by (auto simp: sha256_ok_def ex_hash_def is_lower_hex_def list_all_iff is_ascii_digit_def byte_def)
  have "{1 ..< Suc 3} = {1, 2, 3 :: nat}" by auto
  then have salts: "enough_salts ex_hash 3 2 tid" for tid
    by (simp add: enough_salts_def stable_hash_suffix_def ex_hash_def show_nat.simps is_ascii_digit_def byte_def)
  have two: "length ex_targets = 2" "distinct (map tool_id ex_targets)" by (simp_all add: ex_targets_def)
  have listed: "map tool_id (filter (\<lambda>t. target_visible ex_auth t (trusted_agent_id_from_auth ex_auth)) ex_targets) = [''a.b'', ''a-b'']"
    by (simp add: ex_targets_def target_visible_def default_target_def default_allowlist_def)
  note T = tool_catalog_consistent [OF sha refl, of 3 ex_auth ex_targets None 8000, unfolded listed two(1)]
  then obtain ds where "visible_tools ex_hash 3 ex_auth ex_targets None 8000 = Some ds" using salts by (auto simp: list_all_iff)
  then show ?thesis using T two(2) by auto
qed

end
