(* ===== verification/Tool_Audit.thy ===== *)
theory Tool_Audit
  imports Agent_Policy Tool_Executors Tool_Catalog
begin

text \<open>
  The audit events of tool calls (\<open>agent/tools/audit.rs\<close>). The fresh identifier and the time of an event are
  arguments; the cost in units is the IEEE double of the quotient.
\<close>

section \<open>Doubles\<close>

text \<open>The quotient of two naturals rounded to the nearest natural, to the even one in the middle.\<close>

definition round_div :: "nat \<Rightarrow> nat \<Rightarrow> nat" where
  "round_div n d =
     (let q = n div d; r = n mod d in
      if 2 * r < d \<or> (2 * r = d \<and> even q) then q else Suc q)"

fun bit_length :: "nat \<Rightarrow> nat" where
  "bit_length n = (if n = 0 then 0 else Suc (bit_length (n div 2)))"

declare bit_length.simps [simp del]

text \<open>\<open>n as f64\<close>, as the natural that the double stands for.\<close>

definition f64_round :: "nat \<Rightarrow> nat" where
  "f64_round n =
     (if n < 2 ^ 53 then n
      else let s = bit_length n - 53 in round_div n (2 ^ s) * 2 ^ s)"

text \<open>The significand of \<open>n / d\<close> at the exponent \<open>e\<close>, and the double nearest to a quotient in the normal range.\<close>

definition significand :: "nat \<Rightarrow> nat \<Rightarrow> int \<Rightarrow> nat" where
  "significand n d e = (if 0 \<le> e then round_div n (d * 2 ^ nat e) else round_div (n * 2 ^ nat (- e)) d)"

definition f64_quotient :: "nat \<Rightarrow> nat \<Rightarrow> 64 word" where
  "f64_quotient n d =
     (if n = 0 then 0
      else
        let e0 = int (bit_length n) - int (bit_length d) - 53;
            wide = (if 0 \<le> e0 then 2 ^ 53 * (d * 2 ^ nat e0) \<le> n else 2 ^ 53 * d \<le> n * 2 ^ nat (- e0));
            e = (if wide then e0 + 1 else e0);
            m = significand n d e in
        word_of_nat (if m = 2 ^ 53 then nat (e + 1076) * 2 ^ 52 else nat (e + 1075) * 2 ^ 52 + (m - 2 ^ 52)))"

definition micros_to_units :: "tool_cost \<Rightarrow> 64 word" where
  "micros_to_units c = f64_quotient (f64_round (amount_micros c)) 1000000"

section \<open>Metadata\<close>

fun tool_status_str :: "tool_status \<Rightarrow> string" where
  "tool_status_str Completed = ''completed''"
| "tool_status_str Denied = ''denied''"
| "tool_status_str Blocked = ''blocked''"
| "tool_status_str Failed = ''failed''"
| "tool_status_str Timeout = ''timeout''"

definition canonical_billing_status :: "string \<Rightarrow> string" where
  "canonical_billing_status s = (if s = ''actual'' \<or> s = ''billable'' then ''settled'' else s)"

definition tool_billing_status :: "tool_call_response \<Rightarrow> string" where
  "tool_billing_status response =
     (case status response of
        Completed \<Rightarrow> if 0 < amount_micros (cost response) then ''settled'' else ''waived''
      | Denied \<Rightarrow> ''waived''
      | Blocked \<Rightarrow> ''waived''
      | Failed \<Rightarrow> ''waived''
      | Timeout \<Rightarrow> ''pending'')"

definition first_nonempty_owned :: "string option \<Rightarrow> string option \<Rightarrow> string option" where
  "first_nonempty_owned first second =
     (case nonempty_trimmed first of Some s \<Rightarrow> Some s | None \<Rightarrow> nonempty_trimmed second)"

definition merge_object_metadata :: "json \<Rightarrow> json \<Rightarrow> json" where
  "merge_object_metadata metadata extra =
     (case (as_object metadata, as_object extra) of
        (Some m, Some x) \<Rightarrow> JObject (fold (\<lambda>(k, v). map_insert k v) x m)
      | _ \<Rightarrow> metadata)"

definition json_nat :: "nat \<Rightarrow> json" where
  "json_nat n = JNumber (PosInt n)"

definition insert_optional :: "string \<Rightarrow> ('a \<Rightarrow> json) \<Rightarrow> 'a option \<Rightarrow> json_object \<Rightarrow> json_object" where
  "insert_optional key f v m = (case v of Some x \<Rightarrow> map_insert key (f x) m | None \<Rightarrow> m)"

definition gateway_tool_metadata :: "tool_call_response \<Rightarrow> json" where
  "gateway_tool_metadata response =
     (case gateway_metadata response of
        None \<Rightarrow> JObject []
      | Some g \<Rightarrow>
          JObject
            (insert_optional ''failureStage'' JString (failure_stage g)
            (insert_optional ''executed'' JBool (executed g)
            (insert_optional ''billingReason'' JString (billing_reason g)
            (insert_optional ''billingStatus'' JString (billing_status g)
            (insert_optional ''rateCardRevision'' json_nat (rate_card_revision g)
            (insert_optional ''schemaHash'' JString (schema_hash g)
            (insert_optional ''targetRevision'' json_nat (meta_target_revision g)
            (insert_optional ''responseBytes'' json_nat (response_bytes g)
            (insert_optional ''requestBytes'' json_nat (request_bytes g)
            (insert_optional ''httpStatus'' json_nat (http_status g)
            (insert_optional ''httpMethod'' JString (http_method g)
            (insert_optional ''operationSlug'' JString (operation_slug g)
            (insert_optional ''operationId'' JString (operation_id g)
            (insert_optional ''serviceSlug'' JString (service_slug g)
               [(''targetKind'', JString (meta_target_kind g)),
                (''executionSource'', JString (execution_source g)),
                (''targetId'', JString (meta_target_id g)),
                (''targetHash'', JString (meta_target_hash g)),
                (''authRevision'', JString (meta_auth_revision g)),
                (''cacheHit'', JBool (cache_hit g)),
                (''reinitialized'', JBool (reinitialized g)),
                (''protocolVersion'', json_option_str (protocol_version g)),
                (''sseUsed'', JBool (meta_sse_used g)),
                (''failureClass'', json_option_str (failure_class g)),
                (''blockedBeforeDispatch'', JBool (blocked_before_dispatch g)),
                (''latencyMs'', json_option (map_option json_nat (latency_ms g)))])))))))))))))))"

definition metadata_field :: "(tool_metadata \<Rightarrow> 'a option) \<Rightarrow> tool_call_response \<Rightarrow> 'a option" where
  "metadata_field f response = Option.bind (gateway_metadata response) f"

definition event_billing_status :: "tool_call_response \<Rightarrow> string" where
  "event_billing_status response =
     (case metadata_field billing_status response of
        Some s \<Rightarrow> canonical_billing_status s
      | None \<Rightarrow> tool_billing_status response)"

definition event_billing_reason :: "tool_call_response \<Rightarrow> json" where
  "event_billing_reason response =
     (case metadata_field billing_reason response of
        Some r \<Rightarrow> JString r
      | None \<Rightarrow> if event_billing_status response = ''settled'' then JNull
                else JString (bill_reason (billing response)))"

definition tool_execution_metadata :: "tool_call_request \<Rightarrow> tool_call_response \<Rightarrow> json" where
  "tool_execution_metadata request response =
     JObject
       [(''status'', JString (tool_status_str (status response))),
        (''severity'', JString ''info''),
        (''message'', JString ''agent tool execution completed''),
        (''tool_id'', JString (req_tool_id request)),
        (''tool_name'', JString (req_tool_id request)),
        (''toolExecutionId'', JString (tool_execution_id response)),
        (''toolCallId'', json_option_str (tool_call_id response)),
        (''toolCostMicros'', json_nat (amount_micros (cost response))),
        (''toolCostCurrency'', JString (cost_currency (cost response))),
        (''cost'', JNumber (Float (micros_to_units (cost response)))),
        (''policy'', JObject [(''allowed'', JBool (allowed (policy response))),
           (''decision'', JString (decision (policy response))),
           (''reason'', JString (policy_reason (policy response)))]),
        (''gateway'', gateway_tool_metadata response),
        (''billing'', JObject
          [(''version'', JString ''2026-06-09''),
           (''costType'', JString ''tool''),
           (''costSubtype'', JString ''tool''),
           (''status'', JString (event_billing_status response)),
           (''billable'', JBool (billable (billing response))),
           (''amountMicros'', json_nat (cost_micros (billing response))),
           (''costMicros'', json_nat (cost_micros (billing response))),
           (''currency'', JString (bill_currency (billing response))),
           (''pricingSource'', JString (cost_source (cost response))),
           (''pricingRevision'', json_nat 0),
           (''dedupeKey'', JString (dedupe_key (billing response))),
           (''observedKind'', JString ''runtime_confirmed''),
           (''chargeOnFailure'', JBool False),
           (''reason'', event_billing_reason response)])]"

section \<open>Events\<close>

text \<open>What an event gets from the outside: the random part of its identifier and the time.\<close>

record event_stamp =
  st_uuid :: string
  st_now :: int

definition base_tool_event ::
    "event_stamp \<Rightarrow> auth_context \<Rightarrow> agent_context option \<Rightarrow> tool_call_request \<Rightarrow> string \<Rightarrow> event_phase
       \<Rightarrow> policy_stage \<Rightarrow> step_kind option \<Rightarrow> nat option \<Rightarrow> json \<Rightarrow> agent_event" where
  "base_tool_event stamp auth header_context request event_type phase stage kind sequence metadata =
     (let agent_is_auth_bound = auth_is_agent auth;
          resolved = resolve_agent_name (registered_agent_name auth) (req_agent_name request)
                       (Option.bind header_context ctx_agent_name);
          trust = (if agent_is_auth_bound then TlAuthBound
                   else case rn_trust_level resolved of Some t \<Rightarrow> t | None \<Rightarrow> TlSelfReported) in
      \<lparr>ev_version = ''2026-06-05'', ev_event_id = ''evt_'' @ st_uuid stamp, ev_event_type = event_type,
       ev_event_source = EsAlephant, ev_event_phase = phase, ev_policy_stage = stage, ev_policy_mode = PmAudit,
       ev_event_source_trust = EtGatewayExecuted, ev_sequence = sequence, ev_observed_at = st_now stamp,
       ev_timestamp = Some (st_now stamp), ev_name = Some (req_tool_id request),
       ev_alephant_agent_name = rn_name resolved, ev_alephant_agent_name_source = rn_source resolved,
       ev_alephant_agent_trust_level = Some (trust_level_str trust),
       ev_workspace_id = uuid_string (org_id auth), ev_virtual_key_id = auth_virtual_key_id auth,
       ev_agent_id_external =
         first_nonempty_owned (req_agent_id request) (Option.bind header_context agent_id_external),
       ev_agent_uid = (if agent_is_auth_bound then Some (entity_id auth) else None),
       ev_run_id = first_nonempty_owned (req_run_id request) (Option.bind header_context ctx_run_id),
       ev_step_id = first_nonempty_owned (req_step_id request) (Option.bind header_context ctx_step_id),
       ev_parent_step_id =
         first_nonempty_owned (req_parent_step_id request) (Option.bind header_context ctx_parent_step_id),
       ev_tool_call_id =
         first_nonempty_owned (req_tool_call_id request) (Option.bind header_context ctx_tool_call_id),
       ev_handoff_id = None, ev_graph_node = None, ev_step_kind = kind, ev_step_source = SsGateway,
       ev_step_confidence = CfHigh, ev_trust_level = trust, ev_context_conflict = False,
       ev_step_id_conflict = False, ev_attempt = None, ev_input_hash = None, ev_metadata = metadata,
       ev_billing_mirror_trusted = True\<rparr>)"

definition tool_call_requested_event ::
    "event_stamp \<Rightarrow> auth_context \<Rightarrow> agent_context option \<Rightarrow> tool_call_request \<Rightarrow> string \<Rightarrow> nat \<Rightarrow> json
       \<Rightarrow> agent_event" where
  "tool_call_requested_event stamp auth header_context request eid sequence operation_metadata =
     base_tool_event stamp auth header_context request ''tool.call.requested'' PhBefore PsPreAction
       (Some SkToolCall) (Some sequence)
       (merge_object_metadata
         (JObject [(''status'', JString ''requested''), (''severity'', JString ''info''),
            (''message'', JString ''agent tool call requested''),
            (''tool_id'', JString (req_tool_id request)), (''tool_name'', JString (req_tool_id request)),
            (''toolExecutionId'', JString eid), (''tool_execution_id'', JString eid),
            (''toolCallId'', json_option_str (req_tool_call_id request)), (''executed'', JBool False),
            (''failureStage'', JString [])])
         operation_metadata)"

definition tool_execution_completed_event_with_sequence ::
    "event_stamp \<Rightarrow> auth_context \<Rightarrow> agent_context option \<Rightarrow> tool_call_request \<Rightarrow> tool_call_response \<Rightarrow> nat
       \<Rightarrow> agent_event" where
  "tool_execution_completed_event_with_sequence stamp auth header_context request response sequence =
     base_tool_event stamp auth header_context request ''tool.result.received'' PhAfter PsAuditOnly
       (Some SkToolResult) (Some sequence) (tool_execution_metadata request response)"

section \<open>Lemmas\<close>

lemma micros_to_units_exact:
  "micros_to_units \<lparr>amount_micros = 0, cost_currency = c, cost_source = s\<rparr> = 0"
  "micros_to_units \<lparr>amount_micros = 1500000, cost_currency = c, cost_source = s\<rparr> = 0x3FF8000000000000"
  "micros_to_units \<lparr>amount_micros = 1, cost_currency = c, cost_source = s\<rparr> = 0x3EB0C6F7A0B5ED8D"
  by (simp_all add: micros_to_units_def f64_round_def f64_quotient_def significand_def round_div_def Let_def
      bit_length.simps)

text \<open>
  What an event says of its origin comes from the authenticated key: the client can neither name another
  workspace, key or agent nor raise the trust.
\<close>

definition attributed :: "auth_context \<Rightarrow> agent_event \<Rightarrow> bool" where
  "attributed auth event \<longleftrightarrow>
     ev_workspace_id event = uuid_string (org_id auth)
     \<and> ev_virtual_key_id event = auth_virtual_key_id auth
     \<and> ev_agent_uid event = (if auth_is_agent auth then Some (entity_id auth) else None)
     \<and> ev_trust_level event
         = (if auth_is_agent auth \<or> nonempty_trimmed (registered_agent_name auth) \<noteq> None
            then TlAuthBound else TlSelfReported)
     \<and> ev_alephant_agent_trust_level event = Some (trust_level_str (ev_trust_level event))
     \<and> (\<forall>r. nonempty_trimmed (registered_agent_name auth) = Some r \<longrightarrow> ev_alephant_agent_name event = Some r)
     \<and> ev_event_source_trust event = EtGatewayExecuted"

lemma base_event_attributed:
  "attributed auth (base_tool_event stamp auth h request ty ph sg kind sequence metadata)"
proof -
  let ?r = "resolve_agent_name (registered_agent_name auth) (req_agent_name request) (Option.bind h ctx_agent_name)"
  have "(case rn_trust_level ?r of Some t \<Rightarrow> t | None \<Rightarrow> TlSelfReported)
      = (if nonempty_trimmed (registered_agent_name auth) \<noteq> None then TlAuthBound else TlSelfReported)"
    by (auto simp: resolve_agent_name_def Let_def split: option.split)
  then show ?thesis
    unfolding attributed_def base_tool_event_def Let_def by (simp add: resolved_registered)
qed

end
