(* ===== verification/Target_Hash.thy ===== *)
theory Target_Hash
  imports Tool_Catalog Mcp_Session Egress
begin

text \<open>
  The configuration of agents and their tools (\<open>config/agent.rs\<close>), the hashes that identify an MCP target
  (\<open>agent/tools/mcp_streamable_http/target_hash.rs\<close>, \<open>agent/tools/mcp_sse/target_hash.rs\<close>) and the context of
  an execution (\<open>ToolExecutionContext::from_auth_and_target\<close> in \<open>agent/tools/executor.rs\<close>). The url crate, SHA-256
  and the JSON printer are parameters.
\<close>

section \<open>Configuration\<close>

record tools_config =
  tc_enabled :: bool
  tc_catalog_source :: catalog_source
  tc_redis_active_pointer_prefix :: string
  tc_snapshot_cache_ttl_ms :: nat
  tc_require_policy_decision :: bool
  tc_fail_open_for_static_targets :: bool
  tc_schema_validation_enabled :: bool
  tc_idempotency_ttl_seconds :: nat
  tc_response_mode :: response_mode
  tc_redis_timeout_ms :: nat
  tc_mcp_session_cache_ttl_secs :: nat
  tc_mcp_session_lock_ttl_secs :: nat
  tc_mcp_session_max_concurrent_per_session :: nat
  tc_mcp_sse_max_event_bytes :: nat
  tc_mcp_sse_max_line_bytes :: nat
  tc_mcp_sse_max_events :: nat
  tc_mcp_sse_max_batch_items :: nat
  tc_mcp_sse_idle_timeout_ms :: nat
  tc_policy_timeout_ms :: nat
  tc_max_concurrent_per_workspace :: nat
  tc_max_tool_call_cost_micros :: "nat option"
  tc_egress_policy :: egress_policy
  tc_timeout_ms :: nat
  tc_max_request_bytes :: nat
  tc_max_response_bytes :: nat
  tc_targets :: "tool_target list"

definition default_tools_config :: tools_config where
  "default_tools_config =
     \<lparr>tc_enabled = False, tc_catalog_source = CatalogStatic,
      tc_redis_active_pointer_prefix = ''alephant:agent-tools:v1'', tc_snapshot_cache_ttl_ms = 60000,
      tc_require_policy_decision = True, tc_fail_open_for_static_targets = False,
      tc_schema_validation_enabled = True, tc_idempotency_ttl_seconds = 3600, tc_response_mode = HttpStrict,
      tc_redis_timeout_ms = 1000, tc_mcp_session_cache_ttl_secs = 600, tc_mcp_session_lock_ttl_secs = 5,
      tc_mcp_session_max_concurrent_per_session = 1, tc_mcp_sse_max_event_bytes = 16384,
      tc_mcp_sse_max_line_bytes = 8192, tc_mcp_sse_max_events = 256, tc_mcp_sse_max_batch_items = 64,
      tc_mcp_sse_idle_timeout_ms = 5000, tc_policy_timeout_ms = 3000, tc_max_concurrent_per_workspace = 32,
      tc_max_tool_call_cost_micros = None, tc_egress_policy = default_egress_policy, tc_timeout_ms = 8000,
      tc_max_request_bytes = 65536, tc_max_response_bytes = 65536, tc_targets = []\<rparr>"

record agent_config =
  ac_enabled :: bool
  ac_event_stream_key :: string
  ac_event_log_http_fallback_enabled :: bool
  ac_event_log_http_endpoint :: string
  ac_event_log_http_timeout_ms :: nat
  ac_allow_header_context :: bool
  ac_validate_agent_registry :: bool
  ac_context_conflict_action :: conflict_action
  ac_step_conflict_action :: conflict_action
  ac_event_ttl_seconds :: nat
  ac_max_header_value_bytes :: nat
  ac_max_event_bytes :: nat
  ac_max_batch_events :: nat
  ac_max_metadata_bytes :: nat
  ac_metadata_redaction :: metadata_redaction
  ac_forward_agent_headers_upstream :: bool
  ac_policy_timeout_ms :: nat
  ac_policy_mode :: policy_mode
  ac_tools :: tools_config

definition default_agent_config :: agent_config where
  "default_agent_config =
     \<lparr>ac_enabled = False, ac_event_stream_key = ''lc:stream:alephant-agent-events'',
      ac_event_log_http_fallback_enabled = True, ac_event_log_http_endpoint = ''/v1/log/agent-event'',
      ac_event_log_http_timeout_ms = 1000, ac_allow_header_context = True, ac_validate_agent_registry = False,
      ac_context_conflict_action = ConflictWarn, ac_step_conflict_action = ConflictWarn,
      ac_event_ttl_seconds = 86400, ac_max_header_value_bytes = 256, ac_max_event_bytes = 65536,
      ac_max_batch_events = 100, ac_max_metadata_bytes = 8192, ac_metadata_redaction = RedactionBasic,
      ac_forward_agent_headers_upstream = False, ac_policy_timeout_ms = 3000, ac_policy_mode = PmAudit,
      ac_tools = default_tools_config\<rparr>"

section \<open>Hashes of targets\<close>

text \<open>What the code uses of the url crate; setters give the changed URL, and a failed \<open>set_host\<close> the URL itself.\<close>

record 'u url_ops =
  u_parse :: "string \<Rightarrow> 'u option"
  u_scheme :: "'u \<Rightarrow> string"
  u_host_str :: "'u \<Rightarrow> string option"
  u_port :: "'u \<Rightarrow> nat option"
  u_path :: "'u \<Rightarrow> string"
  u_set_host :: "'u \<Rightarrow> string \<Rightarrow> 'u"
  u_clear_port :: "'u \<Rightarrow> 'u"
  u_to_string :: "'u \<Rightarrow> string"

definition normalize_url :: "'u url_ops \<Rightarrow> string \<Rightarrow> string" where
  "normalize_url ops v =
     (case u_parse ops v of
        None \<Rightarrow> v
      | Some u \<Rightarrow>
          (let u1 = (case map_option to_ascii_lowercase (u_host_str ops u) of
                       Some h \<Rightarrow> u_set_host ops u h | None \<Rightarrow> u);
               u2 = (if (u_scheme ops u1 = ''http'' \<and> u_port ops u1 = Some 80)
                        \<or> (u_scheme ops u1 = ''https'' \<and> u_port ops u1 = Some 443)
                     then u_clear_port ops u1 else u1) in
           u_to_string ops u2))"

definition number_value :: "nat \<Rightarrow> json" where
  "number_value n = JNumber (PosInt n)"

definition effective_target_timeout :: "tool_target \<Rightarrow> tools_config \<Rightarrow> nat" where
  "effective_target_timeout target cfg =
     (case target_timeout_ms target of Some t \<Rightarrow> t | None \<Rightarrow> tc_timeout_ms cfg)"

definition canonical_target_hash ::
    "hash_lib \<Rightarrow> 'u url_ops \<Rightarrow> tool_target \<Rightarrow> nat \<Rightarrow> string \<Rightarrow> tools_config \<Rightarrow> string" where
  "canonical_target_hash lib ops target revision auth_rev cfg =
     ''sha256:'' @ h_sha256_hex lib (h_to_vec lib (JObject
       [(''targetId'', JString (tool_id target)),
        (''targetRevision'', number_value revision),
        (''transportKind'', JString ''mcp-streamable-http''),
        (''normalizedUrl'', JString (normalize_url ops (case target_url target of Some u \<Rightarrow> u | None \<Rightarrow> []))),
        (''method'', JString (to_ascii_uppercase (target_method target))),
        (''timeoutMs'', number_value (effective_target_timeout target cfg)),
        (''authRevision'', JString auth_rev),
        (''headerTemplateNames'', JArray []),
        (''toolNamespace'', JString (tool_id target)),
        (''sseMaxEventBytes'', number_value (tc_mcp_sse_max_event_bytes cfg)),
        (''sseMaxLineBytes'', number_value (tc_mcp_sse_max_line_bytes cfg)),
        (''sseMaxEvents'', number_value (tc_mcp_sse_max_events cfg)),
        (''sseMaxBatchItems'', number_value (tc_mcp_sse_max_batch_items cfg)),
        (''sseIdleTimeoutMs'', number_value (tc_mcp_sse_idle_timeout_ms cfg))]))"

definition normalize_url_for_hash :: "'u url_ops \<Rightarrow> string \<Rightarrow> string option" where
  "normalize_url_for_hash ops raw =
     (case u_parse ops raw of
        None \<Rightarrow> None
      | Some u \<Rightarrow>
          (case u_host_str ops u of
             None \<Rightarrow> None
           | Some h \<Rightarrow>
               (let sch = to_ascii_lowercase (u_scheme ops u);
                    default_port = (if sch = ''http'' then Some 80 else if sch = ''https'' then Some 443 else None);
                    port_part = (case u_port ops u of
                        None \<Rightarrow> []
                      | Some p \<Rightarrow> if Some p \<noteq> default_port then '':'' @ show_nat p else []) in
                Some (sch @ ''://'' @ to_ascii_lowercase h @ port_part @ u_path ops u))))"

definition canonical_mcp_sse_target_hash :: "hash_lib \<Rightarrow> 'u url_ops \<Rightarrow> tool_target \<Rightarrow> tools_config \<Rightarrow> string" where
  "canonical_mcp_sse_target_hash lib ops target cfg =
     ''sha256:'' @ h_sha256_hex lib (h_to_vec lib (JObject
       [(''transportKind'', JString ''mcp-sse''),
        (''toolId'', JString (tool_id target)),
        (''url'', JString (case Option.bind (target_url target) (normalize_url_for_hash ops) of
            Some u \<Rightarrow> u | None \<Rightarrow> [])),
        (''method'', JString (to_ascii_uppercase (target_method target))),
        (''timeoutMs'', number_value (effective_target_timeout target cfg)),
        (''authRevision'', JString ''0/static''),
        (''targetRevision'', JString ''0/static''),
        (''sseMaxEventBytes'', number_value (tc_mcp_sse_max_event_bytes cfg)),
        (''sseMaxLineBytes'', number_value (tc_mcp_sse_max_line_bytes cfg)),
        (''sseMaxEvents'', number_value (tc_mcp_sse_max_events cfg)),
        (''sseMaxBatchItems'', number_value (tc_mcp_sse_max_batch_items cfg)),
        (''sseIdleTimeoutMs'', number_value (tc_mcp_sse_idle_timeout_ms cfg))]))"

section \<open>The context of an execution\<close>

definition from_auth_and_target ::
    "hash_lib \<Rightarrow> 'u url_ops \<Rightarrow> auth_context \<Rightarrow> agent_context option \<Rightarrow> tool_target \<Rightarrow> bool \<Rightarrow> tools_config
       \<Rightarrow> tool_ctx" where
  "from_auth_and_target lib ops auth agent_ctx target redis cfg =
     \<lparr>workspace_id = uuid_string (org_id auth),
      virtual_key_id = map_option uuid_string (auth_virtual_key_id auth),
      agent_id = (case agent_ctx of
          Some c \<Rightarrow> agent_identity_for_namespace c (auth_virtual_key_id auth)
        | None \<Rightarrow> (case registered_agent_name auth of Some n \<Rightarrow> n | None \<Rightarrow> ''unknown-agent'')),
      caller_principal_id = uuid_string (entity_id auth),
      target_id = tool_id target, target_revision = 0,
      target_hash = (case target_kind_of target of
          McpSseTool \<Rightarrow> canonical_mcp_sse_target_hash lib ops target cfg
        | _ \<Rightarrow> canonical_target_hash lib ops target 0 ''0/static'' cfg),
      auth_revision = ''0/static'', has_redis = redis,
      mcp_session_cache_ttl_secs = tc_mcp_session_cache_ttl_secs cfg,
      mcp_session_lock_ttl_secs = tc_mcp_session_lock_ttl_secs cfg,
      mcp_session_max_concurrent_per_session = tc_mcp_session_max_concurrent_per_session cfg,
      mcp_sse_max_event_bytes = tc_mcp_sse_max_event_bytes cfg,
      mcp_sse_max_line_bytes = tc_mcp_sse_max_line_bytes cfg,
      mcp_sse_max_events = tc_mcp_sse_max_events cfg,
      mcp_sse_max_batch_items = tc_mcp_sse_max_batch_items cfg,
      mcp_sse_idle_timeout_ms = tc_mcp_sse_idle_timeout_ms cfg\<rparr>"

section \<open>Isolation of sessions\<close>

definition auth_wf :: "auth_context \<Rightarrow> bool" where
  "auth_wf auth \<longleftrightarrow> org_id auth < 2 ^ 128 \<and> entity_id auth < 2 ^ 128
     \<and> (\<forall>i. auth_virtual_key_id auth = Some i \<longrightarrow> i < 2 ^ 128)"

lemma uuid_not_no_vk: "uuid_string u @ x \<noteq> ''no-vk'' @ y"
proof
  assume "uuid_string u @ x = ''no-vk'' @ y"
  then have "hd (uuid_string u) = CHR ''n''"
    using uuid_string_length [of u] by (metis append_Cons hd_append2 list.sel(1) list.size(3) zero_neq_numeral)
  then have "lower_hex_digit (u div 16 ^ 31 mod 16) = CHR ''n''"
    by (simp add: uuid_string_def uuid_hex_def upt_rec)
  then have "of_char (lower_hex_digit (u div 16 ^ 31 mod 16)) = (110 :: nat)" by simp
  moreover have "u div 16 ^ 31 mod 16 < 16" by simp
  ultimately show False by (auto simp: lower_hex_digit_def simp del: mod_less_divisor split: if_splits)
qed

lemma target_hash_length:
  assumes "sha256_ok lib"
  shows "length (target_hash (from_auth_and_target lib ops auth c target redis cfg)) = 71"
  using assms by (auto simp: from_auth_and_target_def canonical_target_hash_def canonical_mcp_sse_target_hash_def
      sha256_ok_def split: tool_target_kind.split)

lemma show_nat_0: "show_nat 0 = ''0''"
  by code_simp

lemma key_tail_inj:
  assumes "length H = length (H' :: string)" "length C = length (C' :: string)" "H = H' \<Longrightarrow> T = T'"
    and "A @ s1 @ C @ s2 @ T @ s3 @ H @ s4 = A' @ s1 @ C' @ s2 @ T' @ s3 @ H' @ s4"
  shows "A = A' \<and> C = C' \<and> H = H' \<and> T = T'"
proof -
  have "(A @ s1 @ C @ s2 @ T @ s3) @ H @ s4 = (A' @ s1 @ C' @ s2 @ T' @ s3) @ H' @ s4" using assms(4) by simp
  moreover have "length (H @ s4) = length (H' @ s4)" using assms(1) by simp
  ultimately have "A @ s1 @ C @ s2 @ T @ s3 = A' @ s1 @ C' @ s2 @ T' @ s3 \<and> H @ s4 = H' @ s4"
    using append_eq_append_conv by blast
  then have H: "H = H'" and left: "A @ s1 @ C @ s2 @ T @ s3 = A' @ s1 @ C' @ s2 @ T' @ s3" by auto
  have T: "T = T'" using assms(3) H by simp
  then have "(A @ s1) @ C = (A' @ s1) @ C'" using left by simp
  then have "A @ s1 = A' @ s1 \<and> C = C'" using assms(2) append_eq_append_conv by blast
  then show ?thesis using H T by simp
qed

lemma uuid_prefix_inj:
  assumes "uuid_string i @ x = uuid_string j @ y" "i < 2 ^ 128" "j < 2 ^ 128"
  shows "i = j \<and> x = y"
proof -
  have "length (uuid_string i) = length (uuid_string j)" by (simp only: uuid_string_length)
  then have "uuid_string i = uuid_string j \<and> x = y" using assms(1) append_eq_append_conv by blast
  then show ?thesis using uuid_string_inj [OF assms(2,3)] by blast
qed

definition vk_part :: "uuid option \<Rightarrow> string" where
  "vk_part vk = (case map_option uuid_string vk of Some s \<Rightarrow> s | None \<Rightarrow> ''no-vk'')"

lemma vk_part_inj:
  assumes "vk_part a @ x = vk_part b @ y" "\<And>i. a = Some i \<Longrightarrow> i < 2 ^ 128" "\<And>j. b = Some j \<Longrightarrow> j < 2 ^ 128"
  shows "a = b \<and> x = y"
proof (cases a)
  case None
  show ?thesis
  proof (cases b)
    case (Some j)
    then have "uuid_string j @ y = ''no-vk'' @ x" using assms(1) None by (simp add: vk_part_def)
    then show ?thesis using uuid_not_no_vk by blast
  qed (use assms(1) None in simp)
next
  case (Some i)
  show ?thesis
  proof (cases b)
    case None
    then have "uuid_string i @ x = ''no-vk'' @ y" using assms(1) Some by (simp add: vk_part_def)
    then show ?thesis using uuid_not_no_vk by blast
  next
    case (Some j)
    then have "uuid_string i @ x = uuid_string j @ y" using assms(1) \<open>a = Some i\<close> by (simp add: vk_part_def)
    then show ?thesis using uuid_prefix_inj assms(2,3) Some \<open>a = Some i\<close> by blast
  qed
qed

text \<open>
  Property C16. A cached MCP session is never shared across callers. When the keys of two executions agree, then so do
  the workspace, the virtual key, the authenticated principal, the agent identity and the target of the two calls,
  although the agent identity is text that the client chooses and the parts of the key are only joined with
  colons. The hypotheses are that SHA-256 prints 64 hexadecimal digits and that the
  hashes of the two targets do not collide.
\<close>

theorem session_isolation:
  assumes "sha256_ok lib" "auth_wf auth" "auth_wf auth'"
    and "target_hash (from_auth_and_target lib ops auth c target redis cfg)
           = target_hash (from_auth_and_target lib ops auth' c' target' redis' cfg') \<Longrightarrow> tool_id target = tool_id target'"
    and "session_key (from_auth_and_target lib ops auth c target redis cfg)
           = session_key (from_auth_and_target lib ops auth' c' target' redis' cfg')"
  shows "org_id auth = org_id auth' \<and> auth_virtual_key_id auth = auth_virtual_key_id auth'
    \<and> entity_id auth = entity_id auth'
    \<and> agent_id (from_auth_and_target lib ops auth c target redis cfg)
        = agent_id (from_auth_and_target lib ops auth' c' target' redis' cfg')
    \<and> tool_id target = tool_id target'
    \<and> target_hash (from_auth_and_target lib ops auth c target redis cfg)
        = target_hash (from_auth_and_target lib ops auth' c' target' redis' cfg')"
proof -
  let ?x = "from_auth_and_target lib ops auth c target redis cfg"
    and ?y = "from_auth_and_target lib ops auth' c' target' redis' cfg'"
  let ?tail = "\<lambda>x. '':agent:'' @ agent_id x @ '':caller:'' @ caller_principal_id x @ '':target:'' @ target_id x
    @ '':target-rev:0:target-hash:'' @ target_hash x @ '':auth-rev:0/static:protocol:'' @ CLIENT_PROTOCOL_FAMILY"
  have key: "session_key (from_auth_and_target lib ops a k t r f)
      = ''agent:mcp:streamable-http:session:workspace:'' @ uuid_string (org_id a) @ '':vk:''
        @ vk_part (auth_virtual_key_id a) @ ?tail (from_auth_and_target lib ops a k t r f)" for a k t r f
    by (simp add: session_key_def from_auth_and_target_def show_nat_0 vk_part_def)
  have "uuid_string (org_id auth) @ '':vk:'' @ vk_part (auth_virtual_key_id auth) @ ?tail ?x
      = uuid_string (org_id auth') @ '':vk:'' @ vk_part (auth_virtual_key_id auth') @ ?tail ?y"
    using assms(5) unfolding key by (simp only: same_append_eq)
  then have both: "org_id auth = org_id auth'
      \<and> '':vk:'' @ vk_part (auth_virtual_key_id auth) @ ?tail ?x = '':vk:'' @ vk_part (auth_virtual_key_id auth') @ ?tail ?y"
    using assms(2,3) unfolding auth_wf_def by (intro uuid_prefix_inj) blast+
  then have "vk_part (auth_virtual_key_id auth) @ ?tail ?x = vk_part (auth_virtual_key_id auth') @ ?tail ?y"
    by (simp only: same_append_eq)
  then have vk: "auth_virtual_key_id auth = auth_virtual_key_id auth' \<and> ?tail ?x = ?tail ?y"
    using assms(2,3) unfolding auth_wf_def by (intro vk_part_inj) blast+
  have tail: "agent_id ?x = agent_id ?y \<and> caller_principal_id ?x = caller_principal_id ?y
      \<and> target_hash ?x = target_hash ?y \<and> target_id ?x = target_id ?y"
  proof (rule key_tail_inj)
    show "length (target_hash ?x) = length (target_hash ?y)" by (simp only: target_hash_length [OF assms(1)])
    show "length (caller_principal_id ?x) = length (caller_principal_id ?y)"
      by (simp add: from_auth_and_target_def uuid_string_length)
    show "target_hash ?x = target_hash ?y \<Longrightarrow> target_id ?x = target_id ?y"
      using assms(4) by (simp add: from_auth_and_target_def)
    show "agent_id ?x @ '':caller:'' @ caller_principal_id ?x @ '':target:'' @ target_id ?x
        @ '':target-rev:0:target-hash:'' @ target_hash ?x @ '':auth-rev:0/static:protocol:'' @ CLIENT_PROTOCOL_FAMILY
      = agent_id ?y @ '':caller:'' @ caller_principal_id ?y @ '':target:'' @ target_id ?y
        @ '':target-rev:0:target-hash:'' @ target_hash ?y @ '':auth-rev:0/static:protocol:'' @ CLIENT_PROTOCOL_FAMILY"
      using vk by (simp only: same_append_eq)
  qed
  moreover have "entity_id auth = entity_id auth'" if "uuid_string (entity_id auth) = uuid_string (entity_id auth')"
    using assms(2,3) that uuid_string_inj unfolding auth_wf_def by blast
  ultimately show ?thesis
    using both vk by (simp add: from_auth_and_target_def)
qed

definition ex_urls :: "unit url_ops" where
  "ex_urls = \<lparr>u_parse = (\<lambda>_. None), u_scheme = (\<lambda>_. []), u_host_str = (\<lambda>_. None), u_port = (\<lambda>_. None),
     u_path = (\<lambda>_. []), u_set_host = (\<lambda>u _. u), u_clear_port = (\<lambda>u. u), u_to_string = (\<lambda>_. [])\<rparr>"

theorem session_isolation_witness:
  "org_id ex_auth = org_id (ex_auth\<lparr>user_id := 9\<rparr>) \<and> entity_id ex_auth = entity_id (ex_auth\<lparr>user_id := 9\<rparr>)
     \<and> session_key (from_auth_and_target ex_hash ex_urls ex_auth None default_target True default_tools_config)
         = session_key (from_auth_and_target ex_hash ex_urls (ex_auth\<lparr>user_id := 9\<rparr>) None default_target False default_tools_config)"
proof -
  have sha: "sha256_ok ex_hash"
    by (auto simp: sha256_ok_def ex_hash_def is_lower_hex_def list_all_iff is_ascii_digit_def byte_def)
  have wf: "auth_wf ex_auth" "auth_wf (ex_auth\<lparr>user_id := 9\<rparr>)" by (simp_all add: auth_wf_def ex_auth_def)
  have same: "session_key (from_auth_and_target ex_hash ex_urls ex_auth None default_target True default_tools_config)
      = session_key (from_auth_and_target ex_hash ex_urls (ex_auth\<lparr>user_id := 9\<rparr>) None default_target False default_tools_config)"
    by (simp add: session_key_def from_auth_and_target_def)
  show ?thesis using session_isolation [OF sha wf _ same] same by simp
qed

end
