(* ===== verification/Tool_Replies.thy ===== *)
theory Tool_Replies
  imports Tool_Audit Target_Hash Slots
begin

text \<open>
  The replies of the tool service (\<open>agent/tools/response.rs\<close> and the pure parts of
  \<open>agent/tools/service.rs\<close>): the envelope of a call, the errors, the check for stale snapshots, and the limiter of
  concurrent calls, which implements the interface \<open>slot_store\<close>.
\<close>

section \<open>Replies\<close>

datatype envelope_status =
  EvCompleted | EvReplayed | EvDenied | EvBlocked | EvApprovalRequired | EvSnapshotStale | EvFailed | EvTimeout

datatype agent_action =
  ActNone | ActRefreshTools | ActWaitForApproval | ActChooseAlternativeTool | ActAskUser | ActRetryAfter | ActStop

datatype cost_stage = StEstimated | StReserved | StSettled | StReleased | StWaived | StBilled

record tool_call_cost =
  tcc_stage :: cost_stage
  tcc_estimated_micros :: nat
  tcc_reserved_micros :: nat
  tcc_actual_micros :: nat
  tcc_currency :: string
  tcc_billable :: bool
  tcc_rate_card_revision :: int
  tcc_charge_on_failure :: bool

definition default_call_cost :: tool_call_cost where
  "default_call_cost =
     \<lparr>tcc_stage = StWaived, tcc_estimated_micros = 0, tcc_reserved_micros = 0, tcc_actual_micros = 0,
      tcc_currency = ''USD'', tcc_billable = False, tcc_rate_card_revision = 0, tcc_charge_on_failure = False\<rparr>"

record tool_policy_envelope =
  pe_decision :: string
  pe_policy_id :: string
  pe_reason :: string
  pe_blocked_by :: string
  pe_policy_revision :: int

record envelope_error =
  ee_code :: string
  ee_retryable :: bool
  ee_retry_after_ms :: "nat option"
  ee_message :: string

record tool_event_ids =
  ei_requested_event_id :: "string option"
  ei_policy_event_id :: "string option"
  ei_completed_event_id :: "string option"

record tool_call_envelope =
  te_status :: envelope_status
  te_executed :: bool
  te_tool_execution_id :: string
  te_tool_id :: string
  te_run_id :: "string option"
  te_step_id :: "string option"
  te_tool_call_id :: "string option"
  te_snapshot_revision :: int
  te_snapshot_source :: string
  te_policy_revision :: int
  te_policy :: tool_policy_envelope
  te_cost :: tool_call_cost
  te_events :: tool_event_ids
  te_agent_action :: agent_action
  te_visible_to_user :: bool
  te_user_message :: string
  te_developer_message :: string
  te_admin_message :: string
  te_output :: json
  te_error :: "envelope_error option"
  te_approval :: "json option"

datatype agent_tools_error =
    AtDisabled | AtMethodNotAllowed | AtMissingRoute | AtMissingAuth | AtPayloadTooLarge | AtInvalidJson
  | AtInvalidArguments | AtToolIdRequired | AtToolNotAllowed | AtToolTargetUnavailable | AtToolExecutionFailed

fun service_error_code :: "agent_tools_error \<Rightarrow> string" where
  "service_error_code AtDisabled = ''agent_tools_disabled''"
| "service_error_code AtMethodNotAllowed = ''method_not_allowed''"
| "service_error_code AtMissingRoute = ''missing_route''"
| "service_error_code AtMissingAuth = ''missing_auth''"
| "service_error_code AtPayloadTooLarge = ''payload_too_large''"
| "service_error_code AtInvalidJson = ''invalid_json''"
| "service_error_code AtInvalidArguments = ''invalid_arguments''"
| "service_error_code AtToolIdRequired = ''tool_id_required''"
| "service_error_code AtToolNotAllowed = ''tool_not_allowed''"
| "service_error_code AtToolTargetUnavailable = ''tool_target_unavailable''"
| "service_error_code AtToolExecutionFailed = ''tool_execution_failed''"

fun error_text :: "agent_tools_error \<Rightarrow> string" where
  "error_text AtDisabled = ''agent tools gateway is disabled''"
| "error_text AtMethodNotAllowed = ''agent tools route only supports POST''"
| "error_text AtMissingRoute = ''agent tools route type is missing''"
| "error_text AtMissingAuth = ''agent tools authentication context is missing''"
| "error_text AtPayloadTooLarge = ''agent tools request payload is too large''"
| "error_text AtInvalidJson = ''agent tools request payload is invalid JSON''"
| "error_text AtInvalidArguments = ''agent tool arguments do not satisfy the input schema''"
| "error_text AtToolIdRequired = ''agent tools call requires tool_id''"
| "error_text AtToolNotAllowed = ''agent tool is not allowed''"
| "error_text AtToolTargetUnavailable = ''agent tool target is unavailable''"
| "error_text AtToolExecutionFailed = ''agent tool execution failed''"

fun error_status :: "agent_tools_error \<Rightarrow> nat" where
  "error_status AtDisabled = 503"
| "error_status AtMethodNotAllowed = 405"
| "error_status AtMissingRoute = 404"
| "error_status AtMissingAuth = 401"
| "error_status AtPayloadTooLarge = 413"
| "error_status AtInvalidJson = 400"
| "error_status AtInvalidArguments = 400"
| "error_status AtToolIdRequired = 400"
| "error_status AtToolNotAllowed = 403"
| "error_status AtToolTargetUnavailable = 502"
| "error_status AtToolExecutionFailed = 502"

record tool_list_response =
  tl_snapshot_revision :: nat
  tl_policy_revision :: nat
  tl_snapshot_source :: string
  tl_tools :: "tool_descriptor list"

text \<open>The value that \<open>json_response\<close> prints, with the status.\<close>

datatype tool_reply = EnvelopeReply nat tool_call_envelope | ListReply nat tool_list_response | ErrorReply nat json

definition error_response :: "agent_tools_error \<Rightarrow> tool_reply" where
  "error_response error =
     ErrorReply (error_status error)
       (JObject [(''error'', JObject [(''type'', JString ''agent_tools_error''), (''code'', JString (service_error_code error)),
          (''message'', JString (error_text error))])])"

section \<open>The limiter\<close>

text \<open>
  The semaphores of the workspaces, each as the number of its free permits; a semaphore is made with
  the limit at the first call of its workspace.
\<close>

type_synonym limiter = "string \<rightharpoonup> nat"

datatype workspace_permit = UnlimitedPermit | LimitedPermit

definition try_acquire_workspace :: "limiter \<Rightarrow> string \<Rightarrow> nat \<Rightarrow> limiter \<times> workspace_permit option" where
  "try_acquire_workspace lim ws limit =
     (if limit = 0 then (lim, Some UnlimitedPermit)
      else
        let lim' = (case lim ws of Some _ \<Rightarrow> lim | None \<Rightarrow> lim(ws \<mapsto> limit)) in
        case lim' ws of
          Some (Suc k) \<Rightarrow> (lim'(ws \<mapsto> k), Some LimitedPermit)
        | _ \<Rightarrow> (lim', None))"

definition drop_permit :: "limiter \<Rightarrow> string \<Rightarrow> workspace_permit \<Rightarrow> limiter" where
  "drop_permit lim ws permit =
     (case permit of
        UnlimitedPermit \<Rightarrow> lim
      | LimitedPermit \<Rightarrow> (case lim ws of Some k \<Rightarrow> lim(ws \<mapsto> Suc k) | None \<Rightarrow> lim))"

section \<open>Stale snapshots\<close>

datatype stale_reason =
    SnapshotRevision int int
  | SchemaHash string string
  | ToolVersion int int
  | TargetHash string string
  | TargetRevision int int

fun stale_field_name :: "stale_reason \<Rightarrow> string" where
  "stale_field_name (SnapshotRevision _ _) = ''snapshotRevision''"
| "stale_field_name (SchemaHash _ _) = ''schemaHash''"
| "stale_field_name (ToolVersion _ _) = ''toolVersion''"
| "stale_field_name (TargetHash _ _) = ''targetHash''"
| "stale_field_name (TargetRevision _ _) = ''targetRevision''"

definition show_int :: "int \<Rightarrow> string" where
  "show_int i = (if i < 0 then ''-'' @ show_nat (nat (- i)) else show_nat (nat i))"

definition developer_message :: "stale_reason \<Rightarrow> string" where
  "developer_message r = ''tool catalog '' @ stale_field_name r @ '' is stale; refresh tools and retry''"

fun admin_message :: "stale_reason \<Rightarrow> string" where
  "admin_message (SnapshotRevision requested active) =
     ''requested snapshot revision '' @ show_int requested
     @ '' does not match active static snapshot revision '' @ show_int active"
| "admin_message (SchemaHash requested active) =
     ''requested schema hash '' @ requested @ '' does not match active schema hash '' @ active"
| "admin_message (ToolVersion requested active) =
     ''requested tool version '' @ show_int requested @ '' does not match active tool version '' @ show_int active"
| "admin_message (TargetHash requested active) =
     ''requested target hash '' @ requested @ '' does not match active target hash '' @ active"
| "admin_message (TargetRevision requested active) =
     ''requested target revision '' @ show_int requested @ '' does not match active target revision '' @ show_int active"

definition stale_error_message :: "stale_reason \<Rightarrow> string" where
  "stale_error_message r = ''tool catalog '' @ stale_field_name r @ '' is stale; refresh tools before retrying''"

definition static_target_hash :: string where
  "static_target_hash = ''<absent>''"

fun nonzero :: "int option \<Rightarrow> int option" where
  "nonzero (Some i) = (if i \<noteq> 0 then Some i else None)"
| "nonzero None = None"

definition tool_call_static_snapshot_guard_stale ::
    "hash_lib \<Rightarrow> tool_call_request \<Rightarrow> tool_target option \<Rightarrow> stale_reason option" where
  "tool_call_static_snapshot_guard_stale lib request target =
     (case nonzero (req_snapshot_revision request) of
        Some requested \<Rightarrow> Some (SnapshotRevision requested 0)
      | None \<Rightarrow>
     (case target of
        None \<Rightarrow> None
      | Some t \<Rightarrow>
     (case nonzero (req_tool_version request) of
        Some requested \<Rightarrow> Some (ToolVersion requested 0)
      | None \<Rightarrow>
     (case nonzero (req_target_revision request) of
        Some requested \<Rightarrow> Some (TargetRevision requested 0)
      | None \<Rightarrow>
          (let active = schema_hash_for_value lib (input_schema t);
               target_check = map_option (\<lambda>h. TargetHash h static_target_hash) (req_target_hash request) in
           case req_schema_hash request of
             Some h \<Rightarrow> if h \<noteq> active then Some (SchemaHash h active) else target_check
           | None \<Rightarrow> target_check)))))"

definition stale_snapshot_response ::
    "tool_call_request \<Rightarrow> string \<Rightarrow> int \<Rightarrow> stale_reason \<Rightarrow> tool_call_envelope" where
  "stale_snapshot_response request eid active reason =
     \<lparr>te_status = EvSnapshotStale, te_executed = False, te_tool_execution_id = eid,
      te_tool_id = req_tool_id request, te_run_id = req_run_id request, te_step_id = req_step_id request,
      te_tool_call_id = req_tool_call_id request, te_snapshot_revision = active, te_snapshot_source = ''static'',
      te_policy_revision = 0,
      te_policy = \<lparr>pe_decision = ''blocked'', pe_policy_id = [], pe_reason = ''snapshot_stale'',
        pe_blocked_by = [], pe_policy_revision = 0\<rparr>,
      te_cost = default_call_cost,
      te_events = \<lparr>ei_requested_event_id = None, ei_policy_event_id = None, ei_completed_event_id = None\<rparr>,
      te_agent_action = ActRefreshTools, te_visible_to_user = False, te_user_message = [],
      te_developer_message = developer_message reason, te_admin_message = admin_message reason,
      te_output = JObject [],
      te_error = Some \<lparr>ee_code = ''snapshot_stale'', ee_retryable = True, ee_retry_after_ms = None,
        ee_message = stale_error_message reason\<rparr>,
      te_approval = None\<rparr>"

section \<open>Envelopes\<close>

definition tool_response_executed :: "tool_call_response \<Rightarrow> bool" where
  "tool_response_executed response =
     (case metadata_field executed response of
        Some b \<Rightarrow> b
      | None \<Rightarrow>
          \<not> (case gateway_metadata response of Some m \<Rightarrow> blocked_before_dispatch m | None \<Rightarrow> False)
          \<and> status response \<noteq> Blocked \<and> status response \<noteq> Denied)"

definition agent_action_for_response :: "tool_call_response \<Rightarrow> agent_action" where
  "agent_action_for_response response =
     (case status response of
        Completed \<Rightarrow> ActNone
      | Blocked \<Rightarrow> ActStop
      | Denied \<Rightarrow> ActStop
      | _ \<Rightarrow> (case resp_error response of
                 Some e \<Rightarrow> if envelope_retryable e then ActRetryAfter else ActNone
               | None \<Rightarrow> ActNone))"

definition envelope_from_response :: "tool_call_request \<Rightarrow> tool_call_response \<Rightarrow> tool_call_envelope" where
  "envelope_from_response request response =
     \<lparr>te_status = (case status response of
          Completed \<Rightarrow> EvCompleted | Denied \<Rightarrow> EvDenied | Blocked \<Rightarrow> EvBlocked | Failed \<Rightarrow> EvFailed
        | Timeout \<Rightarrow> EvTimeout),
      te_executed = tool_response_executed response, te_tool_execution_id = tool_execution_id response,
      te_tool_id = req_tool_id request, te_run_id = req_run_id request, te_step_id = req_step_id request,
      te_tool_call_id = tool_call_id response, te_snapshot_revision = 0, te_snapshot_source = ''static'',
      te_policy_revision = 0,
      te_policy = \<lparr>pe_decision = (if decision (policy response) = ''allowed'' then ''allow'' else decision (policy response)),
        pe_policy_id = [], pe_reason = policy_reason (policy response), pe_blocked_by = [], pe_policy_revision = 0\<rparr>,
      te_cost = \<lparr>tcc_stage = (if billable (billing response) then StSettled else StWaived),
        tcc_estimated_micros = cost_micros (billing response), tcc_reserved_micros = 0,
        tcc_actual_micros = cost_micros (billing response), tcc_currency = bill_currency (billing response),
        tcc_billable = billable (billing response), tcc_rate_card_revision = 0, tcc_charge_on_failure = False\<rparr>,
      te_events = \<lparr>ei_requested_event_id = started_event_id (events response), ei_policy_event_id = None,
        ei_completed_event_id = completed_event_id (events response)\<rparr>,
      te_agent_action = agent_action_for_response response, te_visible_to_user = False, te_user_message = [],
      te_developer_message = [], te_admin_message = [], te_output = tool_output response,
      te_error = map_option (\<lambda>e. \<lparr>ee_code = envelope_code e, ee_retryable = envelope_retryable e,
        ee_retry_after_ms = None, ee_message = envelope_message e\<rparr>) (resp_error response),
      te_approval = None\<rparr>"

section \<open>The limiter as a slot store\<close>

text \<open>A permit exists only while the semaphore counts it as taken.\<close>

definition permits_taken :: "string \<Rightarrow> nat \<Rightarrow> limiter \<Rightarrow> nat" where
  "permits_taken ws limit lim = (case lim ws of Some k \<Rightarrow> limit - k | None \<Rightarrow> 0)"

definition return_permit :: "string \<Rightarrow> nat \<Rightarrow> limiter \<Rightarrow> limiter" where
  "return_permit ws limit lim = (if permits_taken ws limit lim = 0 then lim else drop_permit lim ws LimitedPermit)"

definition try_permit :: "string \<Rightarrow> nat \<Rightarrow> limiter \<Rightarrow> limiter \<times> bool" where
  "try_permit ws limit lim =
     (fst (try_acquire_workspace lim ws limit), snd (try_acquire_workspace lim ws limit) \<noteq> None)"

definition limiter_inv :: "string \<Rightarrow> nat \<Rightarrow> limiter \<Rightarrow> bool" where
  "limiter_inv ws limit lim \<longleftrightarrow> (\<forall>k. lim ws = Some k \<longrightarrow> k \<le> limit)"

lemmas limiter_defs = permits_taken_def return_permit_def try_permit_def limiter_inv_def try_acquire_workspace_def
  drop_permit_def Let_def

interpretation workspace_permits: slot_store "try_permit ws (Suc n)" "return_permit ws (Suc n)" "permits_taken ws (Suc n)"
  "\<lambda>_. Suc n" "limiter_inv ws (Suc n)"
  by unfold_locales (auto simp: limiter_defs split: option.splits nat.splits if_splits)

text \<open>
  Whatever the calls of a workspace do, at most \<open>limit\<close> of them hold a permit, and a call gets one exactly when fewer
  hold one; other workspaces do not matter.
\<close>

lemma permits_bounded:
  assumes "serve (try_permit ws (Suc n)) (return_permit ws (Suc n)) Map.empty 0 ops = (lim, h)"
  shows "permits_taken ws (Suc n) lim = h \<and> h \<le> Suc n
    \<and> (snd (try_acquire_workspace lim ws (Suc n)) \<noteq> None \<longleftrightarrow> h < Suc n)"
proof -
  have ok: "limiter_inv ws (Suc n) Map.empty" "permits_taken ws (Suc n) Map.empty = 0" by (simp_all add: limiter_defs)
  note c = workspace_permits.serve_counts [OF ok assms]
  show ?thesis using c workspace_permits.acquire_iff [of ws n lim] by (simp add: try_permit_def)
qed

lemma limiter_local:
  assumes "other \<noteq> ws"
  shows "fst (try_acquire_workspace lim ws limit) other = lim other" "drop_permit lim ws permit other = lim other"
  using assms by (auto simp: try_acquire_workspace_def drop_permit_def Let_def split: option.split nat.split workspace_permit.split)

end
