(* ===== verification/Tool_Service.thy ===== *)
theory Tool_Service
  imports Tool_Replies
begin

text \<open>
  The handlers of the tool service (\<open>agent/tools/service.rs\<close>): the gates that a call passes before its target is
  contacted, the audit events it leaves, and its reply. The handler is a function of what the outside answers;
  it gives the reply, the list of its effects in order, and the limiter afterwards. Reading of JSON by serde, the
  audit sink and the policy service are parameters.
\<close>

section \<open>The outside\<close>

record tool_list_request =
  lq_source :: "string option"
  lq_agent_id :: "string option"
  lq_agent_name :: "string option"
  lq_run_id :: "string option"
  lq_framework :: "string option"
  lq_response_mode :: "string option"
  lq_include_unavailable :: bool
  lq_adapter_capabilities :: json
  lq_capabilities :: json
  lq_metadata :: json

text \<open>
  \<open>s_sink\<close> says whether the sink takes an event; \<open>s_stamp\<close> gives the identifier and time of the first and the second
  event of a call; \<open>s_life\<close> is the environment of the execution.
\<close>

record ('p, 'q, 'u) svc_env =
  s_deps :: "('p, 'q) exec_deps"
  s_hash :: hash_lib
  s_urls :: "'u url_ops"
  s_parse_call :: "string \<Rightarrow> tool_call_request option"
  s_parse_list :: "string \<Rightarrow> tool_list_request option"
  s_sink :: "agent_event \<Rightarrow> bool"
  s_policy_enabled :: bool
  s_policy_client :: "(policy_request \<Rightarrow> policy_call) option"
  s_stamp :: "nat \<Rightarrow> event_stamp"
  s_exec_uuid :: string
  s_has_redis :: bool
  s_life :: life_env
  s_name_fuel :: nat

datatype svc_effect =
    Audited agent_event bool
  | PolicyAsked policy_request
  | Dispatched tool_target tool_call_request tool_ctx

datatype svc_result = Replied "agent_tools_error + tool_reply" | CallDropped

section \<open>Metadata of the target\<close>

definition openapi_target_hash :: "tool_call_request \<Rightarrow> string" where
  "openapi_target_hash request = or_else (req_target_hash request) static_target_hash"

definition openapi_target_revision :: "tool_call_request \<Rightarrow> nat option" where
  "openapi_target_revision request =
     Some (case req_target_revision request of Some r \<Rightarrow> if 0 \<le> r then nat r else 0 | None \<Rightarrow> 0)"

definition openapi_service_slug :: "tool_target \<Rightarrow> string" where
  "openapi_service_slug target = or_else (target_service_slug target) (tool_id target)"

definition openapi_operation_id :: "tool_target \<Rightarrow> string" where
  "openapi_operation_id target = or_else (target_operation_id target) (tool_id target)"

definition openapi_operation_slug :: "tool_target \<Rightarrow> string" where
  "openapi_operation_slug target =
     (case target_operation_slug target of Some s \<Rightarrow> if s \<noteq> [] then s else tool_id target | None \<Rightarrow> tool_id target)"

definition requested_openapi_operation_metadata :: "hash_lib \<Rightarrow> tool_target \<Rightarrow> tool_call_request \<Rightarrow> json" where
  "requested_openapi_operation_metadata lib target request =
     (let schema = JString (schema_hash_for_value lib (input_schema target));
          thash = JString (openapi_target_hash request);
          trev = json_nat (or_else (openapi_target_revision request) 0);
          micros = json_nat (fixed_micros (target_rate_card target));
          ahash = JString (arguments_hash lib (req_arguments request));
          slug = JString (openapi_service_slug target); oid = JString (openapi_operation_id target);
          oslug = JString (openapi_operation_slug target); arev = JString ''0/static'' in
      JObject
        [(''targetKind'', JString ''openapi''), (''serviceSlug'', slug), (''operationId'', oid),
         (''operationSlug'', oslug), (''targetHash'', thash), (''schemaHash'', schema), (''targetRevision'', trev),
         (''authRevision'', arev), (''rateCardRevision'', json_nat 0), (''estimatedCostMicros'', micros),
         (''argumentsHash'', ahash), (''currency'', JString (currency (target_rate_card target))),
         (''estimated_cost_micros'', micros), (''schema_hash'', schema), (''arguments_hash'', ahash),
         (''gateway'', JObject
           [(''targetKind'', JString ''openapi''), (''serviceSlug'', slug), (''operationId'', oid),
            (''operationSlug'', oslug), (''targetHash'', thash), (''schemaHash'', schema),
            (''targetRevision'', trev), (''authRevision'', arev), (''rateCardRevision'', json_nat 0)])])"

definition requested_mcp_sse_operation_metadata ::
    "hash_lib \<Rightarrow> 'u url_ops \<Rightarrow> tool_target \<Rightarrow> tool_call_request \<Rightarrow> tools_config \<Rightarrow> json" where
  "requested_mcp_sse_operation_metadata lib ops target request cfg =
     (let schema = JString (schema_hash_for_value lib (input_schema target));
          thash = JString (canonical_mcp_sse_target_hash lib ops target cfg);
          micros = json_nat (fixed_micros (target_rate_card target));
          ahash = JString (arguments_hash lib (req_arguments request));
          tid = JString (tool_id target); rev = JString ''0/static'' in
      JObject
        [(''targetKind'', JString ''mcp-sse''), (''toolId'', tid), (''upstreamToolName'', tid),
         (''targetHash'', thash), (''schemaHash'', schema), (''targetRevision'', rev), (''authRevision'', rev),
         (''rateCardRevision'', json_nat 0), (''estimatedCostMicros'', micros), (''argumentsHash'', ahash),
         (''currency'', JString (currency (target_rate_card target))), (''estimated_cost_micros'', micros),
         (''schema_hash'', schema), (''arguments_hash'', ahash),
         (''gateway'', JObject
           [(''targetKind'', JString ''mcp-sse''), (''targetId'', tid), (''targetHash'', thash),
            (''schemaHash'', schema), (''targetRevision'', rev), (''authRevision'', rev),
            (''rateCardRevision'', json_nat 0)])])"

definition requested_tool_operation_metadata ::
    "hash_lib \<Rightarrow> 'u url_ops \<Rightarrow> tool_target \<Rightarrow> tool_call_request \<Rightarrow> tools_config \<Rightarrow> json" where
  "requested_tool_operation_metadata lib ops target request cfg =
     (case target_kind_of target of
        OpenApiTool \<Rightarrow> requested_openapi_operation_metadata lib target request
      | McpSseTool \<Rightarrow> requested_mcp_sse_operation_metadata lib ops target request cfg
      | _ \<Rightarrow> JObject [])"

definition target_hash_for_gateway_metadata ::
    "hash_lib \<Rightarrow> 'u url_ops \<Rightarrow> tool_target \<Rightarrow> tool_call_request \<Rightarrow> tools_config \<Rightarrow> string" where
  "target_hash_for_gateway_metadata lib ops target request cfg =
     (case target_kind_of target of
        McpSseTool \<Rightarrow> canonical_mcp_sse_target_hash lib ops target cfg
      | OpenApiTool \<Rightarrow> openapi_target_hash request
      | _ \<Rightarrow> or_else (req_target_hash request) static_target_hash)"

definition if_empty :: "string \<Rightarrow> string \<Rightarrow> string" where
  "if_empty s d = (if s = [] then d else s)"

definition if_none :: "'a option \<Rightarrow> 'a option \<Rightarrow> 'a option" where
  "if_none x d = (case x of None \<Rightarrow> d | Some _ \<Rightarrow> x)"

definition enrich_openapi_metadata :: "hash_lib \<Rightarrow> tool_target \<Rightarrow> tool_call_request \<Rightarrow> tool_metadata \<Rightarrow> tool_metadata" where
  "enrich_openapi_metadata lib target request m =
     m\<lparr>meta_target_kind := if_empty (meta_target_kind m) ''openapi'',
       meta_target_hash := if_empty (meta_target_hash m) (openapi_target_hash request),
       service_slug := if_none (service_slug m) (Some (openapi_service_slug target)),
       operation_id := if_none (operation_id m) (Some (openapi_operation_id target)),
       operation_slug := if_none (operation_slug m) (Some (openapi_operation_slug target)),
       meta_target_revision := if_none (meta_target_revision m) (openapi_target_revision request),
       schema_hash := if_none (schema_hash m) (Some (schema_hash_for_value lib (input_schema target))),
       rate_card_revision := if_none (rate_card_revision m) (Some 0),
       meta_auth_revision := if_empty (meta_auth_revision m) ''0/static''\<rparr>"

definition enrich_mcp_sse_metadata ::
    "hash_lib \<Rightarrow> 'u url_ops \<Rightarrow> tool_target \<Rightarrow> tool_call_request \<Rightarrow> tools_config \<Rightarrow> tool_metadata \<Rightarrow> tool_metadata" where
  "enrich_mcp_sse_metadata lib ops target request cfg m =
     m\<lparr>meta_target_kind := if_empty (meta_target_kind m) ''mcp-sse'',
       meta_target_id := if_empty (meta_target_id m) (tool_id target),
       meta_target_hash := if_empty (meta_target_hash m) (target_hash_for_gateway_metadata lib ops target request cfg),
       meta_auth_revision := if_empty (meta_auth_revision m) ''0/static'',
       meta_sse_used := True,
       meta_target_revision := if_none (meta_target_revision m) (Some 0),
       schema_hash := if_none (schema_hash m) (Some (schema_hash_for_value lib (input_schema target))),
       rate_card_revision := if_none (rate_card_revision m) (Some 0)\<rparr>"

definition enrich_target_gateway_metadata ::
    "hash_lib \<Rightarrow> 'u url_ops \<Rightarrow> tool_target \<Rightarrow> tool_call_request \<Rightarrow> tools_config \<Rightarrow> tool_call_response
       \<Rightarrow> tool_call_response" where
  "enrich_target_gateway_metadata lib ops target request cfg response =
     (case target_kind_of target of
        OpenApiTool \<Rightarrow>
          response\<lparr>gateway_metadata := map_option (enrich_openapi_metadata lib target request) (gateway_metadata response)\<rparr>
      | McpSseTool \<Rightarrow>
          response\<lparr>gateway_metadata :=
            map_option (enrich_mcp_sse_metadata lib ops target request cfg) (gateway_metadata response)\<rparr>
      | _ \<Rightarrow> response)"

section \<open>Responses of calls that are not executed\<close>

definition error_output :: "string \<Rightarrow> bool \<Rightarrow> string \<Rightarrow> json" where
  "error_output code retryable message =
     JObject [(''code'', JString code), (''retryable'', JBool retryable), (''message'', JString message)]"

definition not_dispatched_metadata :: "string \<Rightarrow> string \<Rightarrow> tool_metadata" where
  "not_dispatched_metadata tid failure =
     default_metadata\<lparr>execution_source := ''gateway_executed'', meta_target_id := tid,
       meta_auth_revision := ''0/static'', failure_class := Some failure, blocked_before_dispatch := True\<rparr>"

definition waived_response ::
    "tool_status \<Rightarrow> tool_call_request \<Rightarrow> string \<Rightarrow> string \<Rightarrow> bool \<Rightarrow> string \<Rightarrow> tool_events \<Rightarrow> tool_call_response" where
  "waived_response st request eid reason retryable message evs =
     \<lparr>status = st, tool_call_id = req_tool_call_id request, tool_execution_id = eid,
      tool_output = JObject [(''error'', error_output reason retryable message)],
      resp_error = Some \<lparr>envelope_code = reason, envelope_message = message, envelope_retryable = retryable\<rparr>,
      gateway_metadata = Some (not_dispatched_metadata (req_tool_id request) reason),
      billing = \<lparr>bill_reason = reason, billable = False, cost_micros = 0, bill_currency = ''USD'', dedupe_key = eid\<rparr>,
      cost = \<lparr>amount_micros = 0, cost_currency = ''USD'', cost_source = ''waived''\<rparr>,
      policy = \<lparr>allowed = False, decision = ''blocked'', policy_reason = reason\<rparr>,
      events = evs\<rparr>"

definition audit_unavailable_response :: "tool_call_request \<Rightarrow> string \<Rightarrow> string \<Rightarrow> tool_call_response" where
  "audit_unavailable_response request eid requested_event_id =
     waived_response Failed request eid ''audit_unavailable'' True
       ''audit sink unavailable; high-risk tool execution cannot proceed''
       \<lparr>started_event_id = Some requested_event_id, completed_event_id = None\<rparr>"

definition blocked_before_dispatch_response :: "tool_call_request \<Rightarrow> string \<Rightarrow> string \<Rightarrow> tool_call_response" where
  "blocked_before_dispatch_response request reason eid =
     waived_response Blocked request eid reason False ''agent tool call blocked before dispatch'' default_events"

definition openapi_pre_execution_failure_response ::
    "hash_lib \<Rightarrow> tool_target \<Rightarrow> tool_call_request \<Rightarrow> string \<Rightarrow> openapi_outcome_status \<Rightarrow> tool_call_response" where
  "openapi_pre_execution_failure_response lib target request eid st =
     (let d = decide \<lparr>oi_status = st, oi_fixed_micros = fixed_micros (target_rate_card target),
            oi_currency = currency (target_rate_card target), oi_charge_on_failure = False,
            oi_tool_execution_id = eid\<rparr>;
          failure = (case od_error d of Some e \<Rightarrow> envelope_code e | None \<Rightarrow> od_billing_reason d) in
      \<lparr>status = od_status d, tool_call_id = req_tool_call_id request, tool_execution_id = eid,
       tool_output = JObject
         [(''error'', json_option (map_option (\<lambda>e.
             error_output (envelope_code e) (envelope_retryable e) (envelope_message e)) (od_error d))),
          (''metadata'', JObject
            [(''billing'', JObject [(''reason'', JString (bill_reason (od_billing d))),
                (''billable'', JBool (billable (od_billing d))),
                (''dedupeKey'', JString (dedupe_key (od_billing d)))]),
             (''gateway'', JObject [(''targetKind'', JString ''openapi''), (''executed'', JBool (od_executed d)),
                (''failureStage'', JString (od_failure_stage d))])])],
       resp_error = od_error d,
       gateway_metadata = Some (default_metadata\<lparr>execution_source := ''gateway_executed'',
         meta_target_kind := ''openapi'', meta_target_id := tool_id target,
         meta_target_hash := openapi_target_hash request, meta_auth_revision := ''0/static'',
         failure_class := Some failure, blocked_before_dispatch := True, latency_ms := Some 0,
         billing_status := Some (od_billing_status d), billing_reason := Some (od_billing_reason d),
         executed := Some (od_executed d), failure_stage := Some (od_failure_stage d),
         service_slug := Some (openapi_service_slug target), operation_id := Some (openapi_operation_id target),
         operation_slug := Some (openapi_operation_slug target),
         meta_target_revision := openapi_target_revision request,
         schema_hash := Some (schema_hash_for_value lib (input_schema target)), rate_card_revision := Some 0\<rparr>),
       billing = od_billing d,
       cost = \<lparr>amount_micros = 0, cost_currency = currency (target_rate_card target), cost_source = ''waived''\<rparr>,
       policy = allowed_policy, events = default_events\<rparr>)"

definition generic_policy_blocked_response ::
    "hash_lib \<Rightarrow> 'u url_ops \<Rightarrow> tool_target \<Rightarrow> tool_call_request \<Rightarrow> string \<Rightarrow> string \<Rightarrow> tools_config
       \<Rightarrow> tool_call_response" where
  "generic_policy_blocked_response lib ops target request eid reason cfg =
     (let unavailable = (reason = ''policy_unavailable'');
          code = (if unavailable then ''tool_policy_unavailable'' else ''tool_policy_denied'');
          message = (if unavailable then ''Agent tool policy is unavailable''
                     else ''Agent tool call was blocked by policy'');
          kind = target_kind_name (target_kind_of target); cur = currency (target_rate_card target);
          key = ''tool_execution:'' @ eid in
      \<lparr>status = Blocked, tool_call_id = req_tool_call_id request, tool_execution_id = eid,
       tool_output = JObject
         [(''error'', error_output code unavailable message),
          (''metadata'', JObject
            [(''billing'', JObject [(''reason'', JString ''policy_blocked''), (''billable'', JBool False),
                (''dedupeKey'', JString key)]),
             (''gateway'', JObject [(''targetKind'', JString kind), (''executed'', JBool False),
                (''failureStage'', JString ''policy'')])])],
       resp_error = Some \<lparr>envelope_code = code, envelope_message = message, envelope_retryable = unavailable\<rparr>,
       gateway_metadata = Some (default_metadata\<lparr>execution_source := ''gateway_executed'',
         meta_target_kind := kind, meta_target_id := tool_id target,
         meta_target_hash := target_hash_for_gateway_metadata lib ops target request cfg,
         meta_auth_revision := ''0/static'', meta_sse_used := (target_kind_of target = McpSseTool),
         failure_class := Some reason, blocked_before_dispatch := True, latency_ms := Some 0,
         billing_status := Some ''waived'', billing_reason := Some ''policy_blocked'', executed := Some False,
         failure_stage := Some ''policy'', meta_target_revision := Some 0,
         schema_hash := Some (schema_hash_for_value lib (input_schema target)), rate_card_revision := Some 0\<rparr>),
       billing = \<lparr>bill_reason = ''policy_blocked'', billable = False, cost_micros = 0, bill_currency = cur,
         dedupe_key = key\<rparr>,
       cost = \<lparr>amount_micros = 0, cost_currency = cur, cost_source = ''waived''\<rparr>,
       policy = \<lparr>allowed = False, decision = ''blocked'', policy_reason = reason\<rparr>,
       events = default_events\<rparr>)"

definition concurrency_limited_response ::
    "hash_lib \<Rightarrow> 'u url_ops \<Rightarrow> tool_target \<Rightarrow> tool_call_request \<Rightarrow> string \<Rightarrow> tools_config \<Rightarrow> tool_call_response" where
  "concurrency_limited_response lib ops target request eid cfg =
     (let reason = ''agent_tools_concurrency_limited'';
          response = enrich_target_gateway_metadata lib ops target request cfg
            (blocked_before_dispatch_response request reason eid) in
      response
        \<lparr>gateway_metadata := map_option (\<lambda>m. m\<lparr>failure_stage := Some ''concurrency'',
            billing_status := Some ''waived'', billing_reason := Some reason, executed := Some False\<rparr>)
           (gateway_metadata response),
         tool_output := JObject
           [(''error'', error_output reason False ''agent tool call blocked before dispatch''),
            (''metadata'', JObject
              [(''billing'', JObject [(''reason'', JString reason), (''billable'', JBool False),
                  (''dedupeKey'', JString (dedupe_key (billing response)))]),
               (''gateway'', JObject [(''targetKind'', JString (target_kind_name (target_kind_of target))),
                  (''targetId'', JString (tool_id target)), (''executed'', JBool False),
                  (''failureStage'', JString ''concurrency''), (''failureClass'', JString reason)])])]\<rparr>)"

section \<open>The handler of a call\<close>

definition is_fail_closed_risk_level :: "string \<Rightarrow> bool" where
  "is_fail_closed_risk_level r =
     (to_ascii_lowercase (trim r) = ''high'' \<or> to_ascii_lowercase (trim r) = ''critical'')"

fun target_requires_policy_preflight :: "tool_target_kind \<Rightarrow> bool" where
  "target_requires_policy_preflight OpenApiTool = True"
| "target_requires_policy_preflight McpStreamableHttpTool = True"
| "target_requires_policy_preflight McpSseTool = True"
| "target_requires_policy_preflight _ = False"

definition estimate_tool_cost_micros :: "tool_target \<Rightarrow> nat" where
  "estimate_tool_cost_micros target = fixed_micros (target_rate_card target)"

text \<open>The end of every audited path: the completed event is made, named in the response and sent.\<close>

definition complete_call ::
    "('p, 'q, 'u) svc_env \<Rightarrow> auth_context \<Rightarrow> agent_context option \<Rightarrow> tool_call_request \<Rightarrow> tool_call_response \<Rightarrow> nat
       \<Rightarrow> svc_result \<times> svc_effect list" where
  "complete_call env auth header request response sequence =
     (let completed = tool_execution_completed_event_with_sequence (s_stamp env sequence) auth header request response
            sequence;
          response' = response\<lparr>events := (events response)\<lparr>completed_event_id := Some (ev_event_id completed)\<rparr>\<rparr> in
      (Replied (Ok (EnvelopeReply 200 (envelope_from_response request response'))),
       [Audited completed (s_sink env completed)]))"

definition policy_blocked_response_with_event ::
    "('p, 'q, 'u) svc_env \<Rightarrow> auth_context \<Rightarrow> agent_context option \<Rightarrow> tool_target \<Rightarrow> tool_call_request \<Rightarrow> string
       \<Rightarrow> string \<Rightarrow> string \<Rightarrow> string \<Rightarrow> tools_config \<Rightarrow> svc_result \<times> svc_effect list" where
  "policy_blocked_response_with_event env auth header target request eid requested_event_id verdict reason cfg =
     (let response = (case target_kind_of target of
            OpenApiTool \<Rightarrow> openapi_pre_execution_failure_response (s_hash env) target request eid OaPolicyBlocked
          | _ \<Rightarrow> generic_policy_blocked_response (s_hash env) (s_urls env) target request eid reason cfg) in
      complete_call env auth header request
        (response\<lparr>events := (events response)\<lparr>started_event_id := Some requested_event_id\<rparr>,
           policy := \<lparr>allowed = False, decision = verdict, policy_reason = reason\<rparr>\<rparr>) 2)"

text \<open>The preflight: \<open>None\<close> lets the call pass.\<close>

definition policy_preflight ::
    "('p, 'q, 'u) svc_env \<Rightarrow> auth_context \<Rightarrow> tool_target \<Rightarrow> agent_event \<Rightarrow> (string \<times> string) option" where
  "policy_preflight env auth target event =
     (if \<not> target_requires_policy_preflight (target_kind_of target) then None
      else case validate_agent_policy (s_policy_enabled env) (s_policy_client env) (h_to_vec (s_hash env)) auth event of
        Inl _ \<Rightarrow> Some (''blocked'', ''policy_unavailable'')
      | Inr d \<Rightarrow> if pd_allowed d then None else Some (pd_policy_decision d, pd_reason d))"

definition preflight_effects ::
    "('p, 'q, 'u) svc_env \<Rightarrow> auth_context \<Rightarrow> tool_target \<Rightarrow> agent_event \<Rightarrow> svc_effect list" where
  "preflight_effects env auth target event =
     (if target_requires_policy_preflight (target_kind_of target) \<and> s_policy_enabled env \<and> s_policy_client env \<noteq> None
      then [PolicyAsked (build_validate_agent_policy_request (h_to_vec (s_hash env)) auth event)] else [])"

definition requested_event ::
    "('p, 'q, 'u) svc_env \<Rightarrow> auth_context \<Rightarrow> agent_context option \<Rightarrow> tools_config \<Rightarrow> tool_target \<Rightarrow> tool_call_request
       \<Rightarrow> string \<Rightarrow> agent_event" where
  "requested_event env auth header cfg target request eid =
     tool_call_requested_event (s_stamp env 1) auth header request eid 1
       (requested_tool_operation_metadata (s_hash env) (s_urls env) target request cfg)"

definition run_tool ::
    "('p, 'q, 'u) svc_env \<Rightarrow> tools_config \<Rightarrow> tool_ctx \<Rightarrow> tool_target \<Rightarrow> tool_call_request
       \<Rightarrow> (tool_execution_error, tool_call_response) outcome" where
  "run_tool env cfg ctx target request =
     fst (execute_tool_with_context (s_deps env) ctx target request (tc_egress_policy cfg) (tc_timeout_ms cfg)
       (tc_max_request_bytes cfg) (tc_max_response_bytes cfg) (s_life env) world0)"

definition dispatch_call ::
    "('p, 'q, 'u) svc_env \<Rightarrow> auth_context \<Rightarrow> agent_context option \<Rightarrow> tools_config \<Rightarrow> tool_target \<Rightarrow> tool_call_request
       \<Rightarrow> string \<Rightarrow> svc_result \<times> svc_effect list" where
  "dispatch_call env auth header cfg target request requested_event_id =
     (let ctx = from_auth_and_target (s_hash env) (s_urls env) auth header target (s_has_redis env) cfg;
          sent = Dispatched target request ctx in
      case run_tool env cfg ctx target request of
        LElapsed \<Rightarrow> (CallDropped, [sent])
      | LFail ToolTargetUnavailable \<Rightarrow> (Replied (Err AtToolTargetUnavailable), [sent])
      | LFail ToolExecutionFailed \<Rightarrow> (Replied (Err AtToolExecutionFailed), [sent])
      | LDone r \<Rightarrow>
          (let response = enrich_target_gateway_metadata (s_hash env) (s_urls env) target request cfg r;
               (x, effects) = complete_call env auth header request
                 (response\<lparr>events := (events response)\<lparr>started_event_id := Some requested_event_id\<rparr>\<rparr>) 2 in
           (x, sent # effects)))"

text \<open>From the requested event on, with a permit in hand.\<close>

definition admitted_call ::
    "('p, 'q, 'u) svc_env \<Rightarrow> auth_context \<Rightarrow> agent_context option \<Rightarrow> tools_config \<Rightarrow> tool_target \<Rightarrow> tool_call_request
       \<Rightarrow> string \<Rightarrow> svc_result \<times> svc_effect list" where
  "admitted_call env auth header cfg target request eid =
     (let event = requested_event env auth header cfg target request eid;
          stored = s_sink env event;
          asked = preflight_effects env auth target event in
      if \<not> stored \<and> is_fail_closed_risk_level (risk_level target)
      then (Replied (Ok (EnvelopeReply 503 (envelope_from_response request
              (audit_unavailable_response request eid (ev_event_id event))))), [Audited event stored])
      else case policy_preflight env auth target event of
        Some (verdict, reason) \<Rightarrow>
          (let (x, effects) = policy_blocked_response_with_event env auth header target request eid
                 (ev_event_id event) verdict reason cfg in
           (x, Audited event stored # asked @ effects))
      | None \<Rightarrow>
          (let over = (case tc_max_tool_call_cost_micros cfg of
                 Some limit \<Rightarrow> limit < estimate_tool_cost_micros target | None \<Rightarrow> False);
               (x, effects) =
                 (if over then
                    let response = enrich_target_gateway_metadata (s_hash env) (s_urls env) target request cfg
                          (blocked_before_dispatch_response request ''budget_blocked'' eid) in
                    complete_call env auth header request
                      (response\<lparr>events := (events response)\<lparr>started_event_id := Some (ev_event_id event)\<rparr>\<rparr>) 2
                  else dispatch_call env auth header cfg target request (ev_event_id event)) in
           (x, Audited event stored # asked @ effects)))"

definition handle_call ::
    "('p, 'q, 'u) svc_env \<Rightarrow> limiter \<Rightarrow> auth_context \<Rightarrow> agent_context option \<Rightarrow> tools_config \<Rightarrow> string
       \<Rightarrow> svc_result \<times> svc_effect list \<times> limiter" where
  "handle_call env lim auth header cfg body =
     (case s_parse_call env body of
        None \<Rightarrow> (Replied (Err AtInvalidJson), [], lim)
      | Some request0 \<Rightarrow>
     if trim (req_tool_id request0) = [] then (Replied (Err AtToolIdRequired), [], lim)
     else
     let eid = ''exec_'' @ s_exec_uuid env; request = request0\<lparr>req_tool_execution_id := Some eid\<rparr>;
         lib = s_hash env;
         stale = (\<lambda>reason. Replied (Ok (EnvelopeReply 200 (stale_snapshot_response request eid 0 reason))));
         early = (\<lambda>target st. complete_call env auth header request
           (openapi_pre_execution_failure_response lib target request eid st) 1) in
     case tool_call_static_snapshot_guard_stale lib request None of
       Some reason \<Rightarrow> (stale reason, [], lim)
     | None \<Rightarrow>
     (case find_callable_tool auth (tc_targets cfg) (req_agent_id request) (req_tool_id request) of
        None \<Rightarrow> (Replied (Err AtToolNotAllowed), [], lim)
      | Some target \<Rightarrow>
     (case tool_call_static_snapshot_guard_stale lib request (Some target) of
        Some reason \<Rightarrow>
          if target_kind_of target = OpenApiTool
          then (let (x, effects) = early target OaSnapshotStale in (x, effects, lim))
          else (stale reason, [], lim)
      | None \<Rightarrow>
     if tc_schema_validation_enabled cfg \<and> validate_arguments (input_schema target) (req_arguments request) \<noteq> Ok ()
     then if target_kind_of target = OpenApiTool
          then (let (x, effects) = early target OaSchemaInvalid in (x, effects, lim))
          else (Replied (Err AtInvalidArguments), [], lim)
     else
     case try_acquire_workspace lim (uuid_string (org_id auth)) (tc_max_concurrent_per_workspace cfg) of
       (lim', None) \<Rightarrow>
         (Replied (Ok (EnvelopeReply 429 (envelope_from_response request
            (concurrency_limited_response lib (s_urls env) target request eid cfg)))), [], lim')
     | (lim', Some permit) \<Rightarrow>
         (let (x, effects) = admitted_call env auth header cfg target request eid in
          (x, effects, drop_permit lim' (uuid_string (org_id auth)) permit)))))"

section \<open>The service\<close>

datatype tools_action = ListTools | CallTool

record tools_http_request =
  hr_method :: string
  hr_route :: "tools_action option"
  hr_auth :: "auth_context option"
  hr_ctx_auth :: "auth_context option"
  hr_ctx_agent :: "agent_context option"
  hr_headers :: header_map
  hr_body :: "string option"

text \<open>
  \<open>hr_auth\<close> is the \<open>AuthContext\<close> extension, \<open>hr_ctx_auth\<close> and \<open>hr_ctx_agent\<close> are the parts of the \<open>RequestContext\<close>
  extension; a body that cannot be read is \<open>None\<close>.
\<close>

definition auth_context_from_extensions :: "tools_http_request \<Rightarrow> auth_context option" where
  "auth_context_from_extensions r = (case hr_auth r of Some a \<Rightarrow> Some a | None \<Rightarrow> hr_ctx_auth r)"

definition handle_agent_tools ::
    "('p, 'q, 'u) svc_env \<Rightarrow> limiter \<Rightarrow> agent_config \<Rightarrow> tools_http_request \<Rightarrow> svc_result \<times> svc_effect list \<times> limiter" where
  "handle_agent_tools env lim acfg req =
     (let cfg = ac_tools acfg; fail = (\<lambda>e. (Replied (Err e), [], lim)) in
      if \<not> ac_enabled acfg \<or> \<not> tc_enabled cfg then fail AtDisabled
      else if hr_method req \<noteq> ''POST'' then fail AtMethodNotAllowed
      else case hr_route req of
        None \<Rightarrow> fail AtMissingRoute
      | Some action \<Rightarrow>
      (case auth_context_from_extensions req of
        None \<Rightarrow> fail AtMissingAuth
      | Some auth \<Rightarrow>
      (let parsed = (if ac_allow_header_context acfg
             then parse_agent_context_from_headers (hr_headers req) (ac_max_header_value_bytes acfg) else None);
           header = (case hr_ctx_agent req of Some c \<Rightarrow> Some c | None \<Rightarrow> parsed) in
      case hr_body req of
        None \<Rightarrow> fail AtPayloadTooLarge
      | Some body \<Rightarrow>
          if tc_max_request_bytes cfg < length body then fail AtPayloadTooLarge
          else case action of
            CallTool \<Rightarrow> handle_call env lim auth header cfg body
          | ListTools \<Rightarrow>
              (case s_parse_list env body of
                 None \<Rightarrow> fail AtInvalidJson
               | Some request \<Rightarrow>
                   (case visible_tools (s_hash env) (s_name_fuel env) auth (tc_targets cfg) (lq_agent_id request)
                        (tc_timeout_ms cfg) of
                      None \<Rightarrow> (CallDropped, [], lim)
                    | Some tools \<Rightarrow>
                        (Replied (Ok (ListReply 200 \<lparr>tl_snapshot_revision = 0, tl_policy_revision = 0,
                           tl_snapshot_source = ''static'', tl_tools = tools\<rparr>)), [], lim))))))"

definition service_reply :: "svc_result \<Rightarrow> tool_reply option" where
  "service_reply x =
     (case x of
        CallDropped \<Rightarrow> None
      | Replied (Inl e) \<Rightarrow> Some (error_response e)
      | Replied (Inr r) \<Rightarrow> Some r)"

end
