(* ===== verification/Tool_Gates.thy ===== *)
theory Tool_Gates
  imports Tool_Service
begin

text \<open>
  What the tool service guarantees: the conditions under which a call reaches its target, and the agreement of the
  reply, the bill and the audit events of a call.
\<close>

section \<open>The gates\<close>

text \<open>The versions that the caller knows, if it names any, are those of the configuration.\<close>

definition current_for :: "hash_lib \<Rightarrow> tool_call_request \<Rightarrow> tool_target \<Rightarrow> bool" where
  "current_for lib request target \<longleftrightarrow>
     req_snapshot_revision request \<in> {None, Some 0} \<and> req_tool_version request \<in> {None, Some 0}
     \<and> req_target_revision request \<in> {None, Some 0}
     \<and> req_schema_hash request \<in> {None, Some (schema_hash_for_value lib (input_schema target))}
     \<and> req_target_hash request = None"

definition well_typed :: "json \<Rightarrow> json \<Rightarrow> bool" where
  "well_typed schema arguments \<longleftrightarrow> (\<exists>m. arguments = JObject m \<and> required_present schema m \<and> types_match schema m)"

definition permit_free :: "limiter \<Rightarrow> string \<Rightarrow> nat \<Rightarrow> bool" where
  "permit_free lim ws limit \<longleftrightarrow> limit = 0 \<or> (case lim ws of Some k \<Rightarrow> 0 < k | None \<Rightarrow> True)"

definition entry_ok ::
    "('p, 'q, 'u) svc_env \<Rightarrow> limiter \<Rightarrow> auth_context \<Rightarrow> tools_config \<Rightarrow> string \<Rightarrow> tool_target \<Rightarrow> tool_call_request
       \<Rightarrow> bool" where
  "entry_ok env lim auth cfg body target request \<longleftrightarrow>
     (\<exists>r. s_parse_call env body = Some r \<and> trim (req_tool_id r) \<noteq> []
        \<and> request = r\<lparr>req_tool_execution_id := Some (''exec_'' @ s_exec_uuid env)\<rparr>)
     \<and> find (\<lambda>t. tool_id t = req_tool_id request) (tc_targets cfg) = Some target
     \<and> target_visible auth target (trusted_agent_id_from_auth auth)
     \<and> current_for (s_hash env) request target
     \<and> (tc_schema_validation_enabled cfg \<longrightarrow> well_typed (input_schema target) (req_arguments request))
     \<and> permit_free lim (uuid_string (org_id auth)) (tc_max_concurrent_per_workspace cfg)"

abbreviation the_requested_event where
  "the_requested_event env auth header cfg target request \<equiv>
     requested_event env auth header cfg target request (''exec_'' @ s_exec_uuid env)"

definition may_dispatch ::
    "('p, 'q, 'u) svc_env \<Rightarrow> limiter \<Rightarrow> auth_context \<Rightarrow> agent_context option \<Rightarrow> tools_config \<Rightarrow> string \<Rightarrow> tool_target
       \<Rightarrow> tool_call_request \<Rightarrow> bool" where
  "may_dispatch env lim auth header cfg body target request \<longleftrightarrow>
     (let event = the_requested_event env auth header cfg target request in
      entry_ok env lim auth cfg body target request
      \<and> (is_fail_closed_risk_level (risk_level target) \<longrightarrow> s_sink env event)
      \<and> (target_requires_policy_preflight (target_kind_of target) \<longrightarrow>
           policy_allows (s_policy_enabled env) (s_policy_client env)
             (build_validate_agent_policy_request (h_to_vec (s_hash env)) auth event))
      \<and> (\<forall>limit. tc_max_tool_call_cost_micros cfg = Some limit \<longrightarrow> fixed_micros (target_rate_card target) \<le> limit))"

fun is_dispatch :: "svc_effect \<Rightarrow> bool" where
  "is_dispatch (Dispatched _ _ _) = True"
| "is_dispatch _ = False"

abbreviation effects_of :: "'a \<times> svc_effect list \<times> 'b \<Rightarrow> svc_effect list" where
  "effects_of x \<equiv> fst (snd x)"

definition dispatched_once ::
    "('p, 'q, 'u) svc_env \<Rightarrow> auth_context \<Rightarrow> agent_context option \<Rightarrow> tools_config \<Rightarrow> tool_target \<Rightarrow> tool_call_request
       \<Rightarrow> svc_effect list \<Rightarrow> bool" where
  "dispatched_once env auth header cfg target request effects \<longleftrightarrow>
     (let event = the_requested_event env auth header cfg target request in
      \<exists>rest. effects
        = Audited event (s_sink env event) # preflight_effects env auth target event
          @ Dispatched target request
              (from_auth_and_target (s_hash env) (s_urls env) auth header target (s_has_redis env) cfg) # rest
        \<and> filter is_dispatch rest = [])"

section \<open>Lemmas on the gates\<close>

lemma nonzero_None: "nonzero x = None \<longleftrightarrow> x \<in> {None, Some 0}"
  by (cases x) auto

lemma guard_none: "tool_call_static_snapshot_guard_stale lib request None = None
    \<longleftrightarrow> req_snapshot_revision request \<in> {None, Some 0}"
  unfolding tool_call_static_snapshot_guard_stale_def nonzero_None [symmetric] by (auto split: option.split)

lemma guard_current: "tool_call_static_snapshot_guard_stale lib request (Some t) = None \<longleftrightarrow> current_for lib request t"
  unfolding tool_call_static_snapshot_guard_stale_def current_for_def nonzero_None [symmetric] Let_def
  by (auto split: option.split)

lemma acquired_iff:
  "(\<exists>lim' permit. try_acquire_workspace lim ws limit = (lim', Some permit)) \<longleftrightarrow> permit_free lim ws limit"
  by (auto simp: try_acquire_workspace_def permit_free_def Let_def split: option.split nat.split)

lemma complete_call_effects: "filter is_dispatch (snd (complete_call env auth header request response n)) = []"
  by (simp add: complete_call_def Let_def)

lemma policy_blocked_effects:
  "filter is_dispatch (snd (policy_blocked_response_with_event env auth header target request eid i v r cfg)) = []"
  by (simp add: policy_blocked_response_with_event_def complete_call_effects Let_def)

lemma preflight_effects_none: "filter is_dispatch (preflight_effects env auth target event) = []"
  by (simp add: preflight_effects_def)

lemma preflight_None:
  "policy_preflight env auth target event = None \<longleftrightarrow>
     (target_requires_policy_preflight (target_kind_of target) \<longrightarrow>
        policy_allows (s_policy_enabled env) (s_policy_client env)
          (build_validate_agent_policy_request (h_to_vec (s_hash env)) auth event))"
  using validate_allows [of "s_policy_enabled env" "s_policy_client env" "h_to_vec (s_hash env)" auth event]
  by (auto simp: policy_preflight_def split: sum.splits if_splits)

lemma dispatch_call_effects:
  "\<exists>rest. snd (dispatch_call env auth header cfg target request i)
       = Dispatched target request (from_auth_and_target (s_hash env) (s_urls env) auth header target (s_has_redis env) cfg)
         # rest \<and> filter is_dispatch rest = []"
  by (auto simp: dispatch_call_def Let_def split_beta complete_call_effects
      split: outcome.split tool_execution_error.split)

text \<open>An accepted call, after its entry, either is dispatched right after its requested event or not at all.\<close>

lemma admitted_call_effects:
  assumes "eid = ''exec_'' @ s_exec_uuid env" "event = the_requested_event env auth header cfg target request"
  shows "if (is_fail_closed_risk_level (risk_level target) \<longrightarrow> s_sink env event)
        \<and> policy_preflight env auth target event = None
        \<and> (\<forall>limit. tc_max_tool_call_cost_micros cfg = Some limit \<longrightarrow> fixed_micros (target_rate_card target) \<le> limit)
      then dispatched_once env auth header cfg target request (snd (admitted_call env auth header cfg target request eid))
      else filter is_dispatch (snd (admitted_call env auth header cfg target request eid)) = []"
proof -
  let ?i = "ev_event_id event"
  obtain rest where d: "snd (dispatch_call env auth header cfg target request ?i)
       = Dispatched target request (from_auth_and_target (s_hash env) (s_urls env) auth header target (s_has_redis env) cfg)
         # rest" "filter is_dispatch rest = []"
    using dispatch_call_effects by blast
  show ?thesis
    using d unfolding admitted_call_def dispatched_once_def assms(1) assms(2) [symmetric]
    by (auto simp: Let_def split_beta complete_call_effects policy_blocked_effects preflight_effects_none
        estimate_tool_cost_micros_def split: option.splits)
qed

text \<open>Before the permit nothing is dispatched, and a call gets past it exactly when the entry conditions hold.\<close>

lemma refused_effects:
  assumes "\<And>target request. \<not> entry_ok env lim auth cfg body target request"
  shows "filter is_dispatch (effects_of (handle_call env lim auth header cfg body)) = []"
proof (cases "s_parse_call env body")
  case None
  then show ?thesis by (simp add: handle_call_def)
next
  case (Some r)
  let ?q = "r\<lparr>req_tool_execution_id := Some (''exec_'' @ s_exec_uuid env)\<rparr>" and ?ws = "uuid_string (org_id auth)"
  let ?g = "tool_call_static_snapshot_guard_stale (s_hash env) ?q"
  show ?thesis
  proof (cases "trim (req_tool_id r) = [] \<or> ?g None \<noteq> None")
    case True
    then show ?thesis by (auto simp: handle_call_def Some Let_def)
  next
    case gate1: False
    show ?thesis
    proof (cases "find_callable_tool auth (tc_targets cfg) (req_agent_id ?q) (req_tool_id ?q)")
      case None
      then show ?thesis using gate1 by (simp add: handle_call_def Some Let_def)
    next
      case (Some target)
      have found: "find (\<lambda>t. tool_id t = req_tool_id ?q) (tc_targets cfg) = Some target"
          "target_visible auth target (trusted_agent_id_from_auth auth)"
        using Some by (auto simp: find_callable_tool_def split: option.splits if_splits)
      have "\<not> (?g (Some target) = None
          \<and> (tc_schema_validation_enabled cfg \<longrightarrow> validate_arguments (input_schema target) (req_arguments ?q) = Ok ())
          \<and> permit_free lim ?ws (tc_max_concurrent_per_workspace cfg))"
        using assms [of target ?q] found gate1 \<open>s_parse_call env body = Some r\<close>
        by (auto simp: entry_ok_def guard_current validate_arguments_ok well_typed_def)
      then consider reason where "?g (Some target) = Some reason"
        | "?g (Some target) = None" "tc_schema_validation_enabled cfg"
            "validate_arguments (input_schema target) (req_arguments ?q) \<noteq> Ok ()"
        | lim' where "?g (Some target) = None"
            "\<not> (tc_schema_validation_enabled cfg \<and> validate_arguments (input_schema target) (req_arguments ?q) \<noteq> Ok ())"
            "try_acquire_workspace lim ?ws (tc_max_concurrent_per_workspace cfg) = (lim', None)"
        using acquired_iff [of lim ?ws "tc_max_concurrent_per_workspace cfg"] by (metis option.exhaust prod.exhaust)
      then show ?thesis
        using gate1 Some
        by cases (auto simp: handle_call_def \<open>s_parse_call env body = Some r\<close> Let_def split_beta complete_call_effects)
    qed
  qed
qed

lemma handle_call_entry:
  obtains (early) "filter is_dispatch (effects_of (handle_call env lim auth header cfg body)) = []"
      "\<And>target request. \<not> entry_ok env lim auth cfg body target request"
  | (admitted) target request where "entry_ok env lim auth cfg body target request"
      "effects_of (handle_call env lim auth header cfg body)
         = snd (admitted_call env auth header cfg target request (''exec_'' @ s_exec_uuid env))"
      "fst (handle_call env lim auth header cfg body)
         = fst (admitted_call env auth header cfg target request (''exec_'' @ s_exec_uuid env))"
      "\<And>t r. entry_ok env lim auth cfg body t r \<Longrightarrow> t = target \<and> r = request"
proof -
  let ?h = "handle_call env lim auth header cfg body"
  show ?thesis
  proof (cases "\<exists>target request. entry_ok env lim auth cfg body target request")
    case True
    then obtain target request where ok: "entry_ok env lim auth cfg body target request" by blast
    then obtain r where r: "s_parse_call env body = Some r" "trim (req_tool_id r) \<noteq> []"
        "request = r\<lparr>req_tool_execution_id := Some (''exec_'' @ s_exec_uuid env)\<rparr>"
      by (auto simp: entry_ok_def)
    note e = ok [unfolded entry_ok_def]
    have g1: "tool_call_static_snapshot_guard_stale (s_hash env) request None = None"
      using e by (simp add: guard_none current_for_def)
    have g2: "tool_call_static_snapshot_guard_stale (s_hash env) request (Some target) = None"
      using e by (simp add: guard_current)
    have f: "find_callable_tool auth (tc_targets cfg) (req_agent_id request) (req_tool_id request) = Some target"
      using e by (simp add: find_callable_tool_def)
    have v: "\<not> (tc_schema_validation_enabled cfg \<and> validate_arguments (input_schema target) (req_arguments request) \<noteq> Ok ())"
      using e by (auto simp: validate_arguments_ok well_typed_def)
    obtain lim' permit where p:
        "try_acquire_workspace lim (uuid_string (org_id auth)) (tc_max_concurrent_per_workspace cfg) = (lim', Some permit)"
      using e acquired_iff by blast
    have "?h = (let (x, effects) = admitted_call env auth header cfg target request (''exec_'' @ s_exec_uuid env) in
        (x, effects, drop_permit lim' (uuid_string (org_id auth)) permit))"
      unfolding handle_call_def r(1) option.case Let_def r(3) [symmetric] g1 f g2 p prod.case
      using r(2) v by auto
    then have "effects_of ?h = snd (admitted_call env auth header cfg target request (''exec_'' @ s_exec_uuid env))"
        "fst ?h = fst (admitted_call env auth header cfg target request (''exec_'' @ s_exec_uuid env))"
      by (simp_all add: split_beta Let_def)
    moreover have "t = target \<and> q = request" if "entry_ok env lim auth cfg body t q" for t q
      using that e by (auto simp: entry_ok_def)
    ultimately show ?thesis using admitted ok by blast
  next
    case False
    show ?thesis
    proof (rule early)
      show "\<And>target request. \<not> entry_ok env lim auth cfg body target request" using False by blast
      show "filter is_dispatch (effects_of ?h) = []"
        using refused_effects False by blast
    qed
  qed
qed

section \<open>Replies, bills and audit events\<close>

text \<open>A completed event states the cost of the envelope.\<close>

definition states_bill :: "agent_event \<Rightarrow> tool_call_cost \<Rightarrow> bool" where
  "states_bill event c \<longleftrightarrow>
     (\<exists>b. get ''billing'' (ev_metadata event) = Some b
        \<and> get ''billable'' b = Some (JBool (tcc_billable c))
        \<and> get ''costMicros'' b = Some (json_nat (tcc_actual_micros c))
        \<and> get ''currency'' b = Some (JString (tcc_currency c)))"

definition audited_events :: "svc_effect list \<Rightarrow> agent_event list" where
  "audited_events effects = concat (map (\<lambda>x. case x of Audited e _ \<Rightarrow> [e] | _ \<Rightarrow> []) effects)"

definition envelope_ok :: "svc_effect list \<Rightarrow> tool_call_envelope \<Rightarrow> bool" where
  "envelope_ok effects e \<longleftrightarrow>
     tcc_stage (te_cost e) = (if tcc_billable (te_cost e) then StSettled else StWaived)
     \<and> (tcc_billable (te_cost e) \<longrightarrow> (\<exists>target request ctx. Dispatched target request ctx \<in> set effects
          \<and> tcc_actual_micros (te_cost e) = fixed_micros (target_rate_card target)))
     \<and> (\<not> tcc_billable (te_cost e) \<longrightarrow> tcc_actual_micros (te_cost e) = 0)
     \<and> (te_executed e \<longrightarrow> (\<exists>x \<in> set effects. is_dispatch x))
     \<and> (\<forall>i. ei_completed_event_id (te_events e) = Some i \<longrightarrow>
          (\<exists>event \<in> set (audited_events effects). ev_event_id event = i \<and> states_bill event (te_cost e)))"

definition call_accounted :: "auth_context \<Rightarrow> svc_result \<times> svc_effect list \<times> limiter \<Rightarrow> bool" where
  "call_accounted auth x \<longleftrightarrow>
     list_all (attributed auth) (audited_events (effects_of x))
     \<and> map ev_sequence (audited_events (effects_of x)) \<in> {[], [Some 1], [Some 1, Some 2]}
     \<and> (\<forall>st e. fst x = Replied (Ok (EnvelopeReply st e)) \<longrightarrow> envelope_ok (effects_of x) e)"

lemma audited_events_simps [simp]:
  "audited_events [] = []"
  "audited_events (Audited e b # xs) = e # audited_events xs"
  "audited_events (PolicyAsked q # xs) = audited_events xs"
  "audited_events (Dispatched t r c # xs) = audited_events xs"
  "audited_events (xs @ ys) = audited_events xs @ audited_events ys"
  by (simp_all add: audited_events_def)

lemma audited_preflight [simp]: "audited_events (preflight_effects env auth target event) = []"
  by (simp add: preflight_effects_def)

lemma completed_attributed:
  "attributed auth (tool_execution_completed_event_with_sequence stamp auth h request response n)"
  by (simp add: tool_execution_completed_event_with_sequence_def base_event_attributed)

lemma requested_attributed: "attributed auth (requested_event env auth header cfg target request eid)"
  by (simp add: requested_event_def tool_call_requested_event_def base_event_attributed)

lemma requested_sequence: "ev_sequence (requested_event env auth header cfg target request eid) = Some 1"
  by (simp add: requested_event_def tool_call_requested_event_def base_tool_event_def Let_def)

lemma completed_sequence:
  "ev_sequence (tool_execution_completed_event_with_sequence stamp auth h request response n) = Some n"
  by (simp add: tool_execution_completed_event_with_sequence_def base_tool_event_def Let_def)

lemma completed_states_bill:
  "states_bill (tool_execution_completed_event_with_sequence stamp auth h request response n)
     (te_cost (envelope_from_response request' (response\<lparr>events := evs\<rparr>)))"
  by (simp add: states_bill_def tool_execution_completed_event_with_sequence_def base_tool_event_def Let_def
      tool_execution_metadata_def envelope_from_response_def)

text \<open>What is needed of a response: nothing billed or executed, or the charge of a dispatched target.\<close>

definition free_response :: "tool_call_response \<Rightarrow> bool" where
  "free_response r \<longleftrightarrow> \<not> billable (billing r) \<and> cost_micros (billing r) = 0 \<and> \<not> tool_response_executed r"

lemma envelope_free:
  assumes "free_response r" "completed_event_id (events r) = None"
  shows "envelope_ok effects (envelope_from_response request r)"
  using assms by (simp add: envelope_ok_def envelope_from_response_def free_response_def)

lemma executed_events [simp]: "tool_response_executed (r\<lparr>events := evs\<rparr>) = tool_response_executed r"
  by (simp add: tool_response_executed_def metadata_field_def split: option.split)

definition finished_well :: "auth_context \<Rightarrow> svc_effect list \<Rightarrow> nat \<Rightarrow> svc_result \<times> svc_effect list \<Rightarrow> bool" where
  "finished_well auth before n x \<longleftrightarrow>
     list_all (attributed auth) (audited_events (snd x)) \<and> map ev_sequence (audited_events (snd x)) = [Some n]
     \<and> (\<forall>st e. fst x = Replied (Ok (EnvelopeReply st e)) \<longrightarrow> envelope_ok (before @ snd x) e)"

lemma finish_accounted:
  assumes "free_response r \<or> (Dispatched target q ctx \<in> set before \<and> charged target r)"
  shows "finished_well auth before n (complete_call env auth header request r n)"
proof -
  let ?e = "tool_execution_completed_event_with_sequence (s_stamp env n) auth header request r n"
  let ?r = "r\<lparr>events := (events r)\<lparr>completed_event_id := Some (ev_event_id ?e)\<rparr>\<rparr>"
  let ?env = "envelope_from_response request ?r"
  have cost: "tcc_billable (te_cost ?env) = billable (billing r)" "tcc_actual_micros (te_cost ?env) = cost_micros (billing r)"
      "tcc_stage (te_cost ?env) = (if billable (billing r) then StSettled else StWaived)"
      "te_executed ?env = tool_response_executed r" "ei_completed_event_id (te_events ?env) = Some (ev_event_id ?e)"
    by (simp_all add: envelope_from_response_def)
  have bill: "billable (billing r) \<Longrightarrow> Dispatched target q ctx \<in> set before
        \<and> cost_micros (billing r) = fixed_micros (target_rate_card target)"
      "\<not> billable (billing r) \<Longrightarrow> cost_micros (billing r) = 0"
      "tool_response_executed r \<Longrightarrow> \<exists>x \<in> set before. is_dispatch x"
    using assms by (auto simp: free_response_def charged_def intro: bexI [of _ "Dispatched target q ctx"])
  have "envelope_ok (before @ [Audited ?e b]) ?env" for b
    unfolding envelope_ok_def cost
    using bill completed_states_bill [of "s_stamp env n" auth header request r n request] by auto
  then show ?thesis
    by (simp add: finished_well_def complete_call_def Let_def completed_attributed completed_sequence)
qed

lemma enrich_simps [simp]:
  "billing (enrich_target_gateway_metadata lib ops target request cfg r) = billing r"
  "cost (enrich_target_gateway_metadata lib ops target request cfg r) = cost r"
  "status (enrich_target_gateway_metadata lib ops target request cfg r) = status r"
  "resp_error (enrich_target_gateway_metadata lib ops target request cfg r) = resp_error r"
  "events (enrich_target_gateway_metadata lib ops target request cfg r) = events r"
  by (simp_all add: enrich_target_gateway_metadata_def split: tool_target_kind.split)

lemma enrich_executed [simp]:
  "tool_response_executed (enrich_target_gateway_metadata lib ops target request cfg r) = tool_response_executed r"
  by (auto simp: enrich_target_gateway_metadata_def tool_response_executed_def metadata_field_def
      enrich_openapi_metadata_def enrich_mcp_sse_metadata_def split: tool_target_kind.split option.split)

lemma enrich_free: "free_response r \<Longrightarrow> free_response (enrich_target_gateway_metadata lib ops target request cfg r)"
  by (simp add: free_response_def)

lemma enrich_charged: "charged t r \<Longrightarrow> charged t (enrich_target_gateway_metadata lib ops target request cfg r)"
  by (simp add: charged_def)

lemma waived_free: "free_response (waived_response st request eid reason b message evs)"
  by (simp add: waived_response_def free_response_def tool_response_executed_def metadata_field_def
      not_dispatched_metadata_def default_metadata_def)

lemma pre_execution_free:
  assumes "st = OaSnapshotStale \<or> st = OaSchemaInvalid \<or> st = OaPolicyBlocked"
  shows "free_response (openapi_pre_execution_failure_response lib target request eid st)"
  using assms by (auto simp: openapi_pre_execution_failure_response_def free_response_def tool_response_executed_def
      metadata_field_def decide_def waived_failure_def oa_billing_def Let_def)

lemma generic_free: "free_response (generic_policy_blocked_response lib ops target request eid reason cfg)"
  by (simp add: generic_policy_blocked_response_def free_response_def tool_response_executed_def metadata_field_def Let_def)

lemma free_update [simp]:
  "free_response (r\<lparr>events := evs\<rparr>) = free_response r" "free_response (r\<lparr>events := evs, policy := p\<rparr>) = free_response r"
  by (simp_all add: free_response_def tool_response_executed_def metadata_field_def split: option.split)

lemma charged_update [simp]: "charged t (r\<lparr>events := evs\<rparr>) = charged t r"
  by (simp add: charged_def)

lemma concurrency_free:
  "free_response (concurrency_limited_response lib ops target request eid cfg)"
  "events (concurrency_limited_response lib ops target request eid cfg) = default_events"
proof -
  let ?r = "blocked_before_dispatch_response request ''agent_tools_concurrency_limited'' eid"
  have "\<exists>m. gateway_metadata (enrich_target_gateway_metadata lib ops target request cfg ?r) = Some m"
    by (simp add: enrich_target_gateway_metadata_def blocked_before_dispatch_response_def waived_response_def
        split: tool_target_kind.split)
  then obtain m where m: "gateway_metadata (enrich_target_gateway_metadata lib ops target request cfg ?r) = Some m" by blast
  have "\<not> billable (billing ?r) \<and> cost_micros (billing ?r) = 0"
    by (simp add: blocked_before_dispatch_response_def waived_response_def)
  then show "free_response (concurrency_limited_response lib ops target request eid cfg)"
    by (simp add: concurrency_limited_response_def Let_def free_response_def tool_response_executed_def metadata_field_def m)
qed (simp add: concurrency_limited_response_def Let_def blocked_before_dispatch_response_def waived_response_def)

lemma policy_blocked_accounted:
  "finished_well auth before 2 (policy_blocked_response_with_event env auth header target request eid i v r cfg)"
  unfolding policy_blocked_response_with_event_def Let_def
  by (rule finish_accounted) (simp add: pre_execution_free generic_free split: tool_target_kind.split)

lemma dispatch_accounted:
  assumes "\<And>n i. e_role (s_life env) n = FlightReceived (Some i) \<Longrightarrow>
    initialized_ok (from_auth_and_target (s_hash env) (s_urls env) auth header target (s_has_redis env) cfg) i"
  shows "let (x, effects) = dispatch_call env auth header cfg target request i in
    list_all (attributed auth) (audited_events effects) \<and> map ev_sequence (audited_events effects) \<in> {[], [Some 2]}
    \<and> (\<forall>st e. x = Replied (Ok (EnvelopeReply st e)) \<longrightarrow> envelope_ok (before @ effects) e)"
proof -
  let ?ctx = "from_auth_and_target (s_hash env) (s_urls env) auth header target (s_has_redis env) cfg"
  let ?sent = "Dispatched target request ?ctx"
  show ?thesis
  proof (cases "run_tool env cfg ?ctx target request")
    case (LDone r)
    let ?r = "enrich_target_gateway_metadata (s_hash env) (s_urls env) target request cfg r"
    let ?f = "complete_call env auth header request (?r\<lparr>events := (events ?r)\<lparr>started_event_id := Some i\<rparr>\<rparr>) 2"
    have "exec_ok (s_deps env) target (tc_egress_policy cfg)
        (execute_tool_with_context (s_deps env) ?ctx target request (tc_egress_policy cfg) (tc_timeout_ms cfg)
           (tc_max_request_bytes cfg) (tc_max_response_bytes cfg) (s_life env) world0)"
      by (rule execution_contract) (rule assms)
    then have "charged target r" using LDone by (simp add: run_tool_def exec_ok_def)
    then have "finished_well auth (before @ [?sent]) 2 ?f"
      by (intro finish_accounted [where target = target and q = request and ctx = ?ctx]) (simp add: enrich_charged)
    then show ?thesis
      by (auto simp: dispatch_call_def Let_def LDone split_beta finished_well_def)
  next
    case (LFail err)
    then show ?thesis by (cases err) (simp_all add: dispatch_call_def Let_def)
  next
    case LElapsed
    then show ?thesis by (simp add: dispatch_call_def Let_def)
  qed
qed

lemma admitted_accounted:
  assumes "\<And>n i. e_role (s_life env) n = FlightReceived (Some i) \<Longrightarrow>
    initialized_ok (from_auth_and_target (s_hash env) (s_urls env) auth header target (s_has_redis env) cfg) i"
  shows "call_accounted auth
    (fst (admitted_call env auth header cfg target request eid), snd (admitted_call env auth header cfg target request eid), lim)"
proof -
  let ?e = "requested_event env auth header cfg target request eid"
  let ?pre = "Audited ?e (s_sink env ?e) # preflight_effects env auth target ?e"
  note facts = requested_attributed [of auth env header cfg target request eid]
    requested_sequence [of env auth header cfg target request eid]
  have well: "call_accounted auth (fst x, ?pre @ snd x, lim)" if "finished_well auth ?pre 2 x" for x
    using that facts by (auto simp: finished_well_def call_accounted_def)
  have sent: "call_accounted auth (fst (dispatch_call env auth header cfg target request (ev_event_id ?e)),
      ?pre @ snd (dispatch_call env auth header cfg target request (ev_event_id ?e)), lim)"
    using dispatch_accounted [OF assms, where request = request and i = "ev_event_id ?e" and before = ?pre] facts
    by (auto simp: call_accounted_def split_beta Let_def)
  have audit: "envelope_ok [Audited ?e b] (envelope_from_response request (audit_unavailable_response request eid i))" for b i
    by (rule envelope_free) (simp_all add: audit_unavailable_response_def waived_free, simp add: waived_response_def)
  consider "\<not> s_sink env ?e" "is_fail_closed_risk_level (risk_level target)"
    | v r where "s_sink env ?e \<or> \<not> is_fail_closed_risk_level (risk_level target)" "policy_preflight env auth target ?e = Some (v, r)"
    | "s_sink env ?e \<or> \<not> is_fail_closed_risk_level (risk_level target)" "policy_preflight env auth target ?e = None"
    by (cases "policy_preflight env auth target ?e") auto
  then show ?thesis
  proof cases
    case 1
    then show ?thesis using facts audit by (simp add: admitted_call_def Let_def call_accounted_def)
  next
    case (2 v r)
    then show ?thesis
      using well [OF policy_blocked_accounted] by (auto simp: admitted_call_def Let_def split_beta)
  next
    case 3
    let ?b = "enrich_target_gateway_metadata (s_hash env) (s_urls env) target request cfg
      (blocked_before_dispatch_response request ''budget_blocked'' eid)"
    have "finished_well auth ?pre 2 (complete_call env auth header request
        (?b\<lparr>events := (events ?b)\<lparr>started_event_id := Some (ev_event_id ?e)\<rparr>\<rparr>) 2)"
      by (rule finish_accounted) (simp add: enrich_free blocked_before_dispatch_response_def waived_free)
    note blocked = well [OF this]
    show ?thesis
      using 3 blocked sent by (auto simp: admitted_call_def Let_def split_beta simp del: enrich_simps split: option.split)
  qed
qed

lemma stale_envelope_ok: "envelope_ok effects (stale_snapshot_response request eid n reason)"
  by (simp add: envelope_ok_def stale_snapshot_response_def default_call_cost_def)

lemma early_accounted:
  assumes "st = OaSnapshotStale \<or> st = OaSchemaInvalid"
  shows "call_accounted auth
    (let (x, effects) = complete_call env auth header request
       (openapi_pre_execution_failure_response lib target request eid st) 1 in (x, effects, lim))"
proof -
  have "finished_well auth [] 1 (complete_call env auth header request
      (openapi_pre_execution_failure_response lib target request eid st) 1)"
    using assms by (intro finish_accounted) (auto simp: pre_execution_free)
  then show ?thesis by (simp add: finished_well_def call_accounted_def split_beta Let_def)
qed

lemma quiet_accounted:
  "(\<And>st e. x = Replied (Ok (EnvelopeReply st e)) \<Longrightarrow> envelope_ok [] e) \<Longrightarrow> call_accounted auth (x, [], lim)"
  by (simp add: call_accounted_def)

lemma limited_envelope_ok:
  "envelope_ok [] (envelope_from_response request (concurrency_limited_response lib ops target request eid cfg))"
  by (rule envelope_free) (simp_all add: concurrency_free default_events_def)

lemma handle_call_accounts:
  assumes "\<And>request target n i. \<lbrakk>s_parse_call env body = Some request;
      find_callable_tool auth (tc_targets cfg) (req_agent_id request) (req_tool_id request) = Some target;
      e_role (s_life env) n = FlightReceived (Some i)\<rbrakk> \<Longrightarrow>
    initialized_ok (from_auth_and_target (s_hash env) (s_urls env) auth header target (s_has_redis env) cfg) i"
  shows "call_accounted auth (handle_call env lim auth header cfg body)"
proof (cases "s_parse_call env body")
  case None
  then show ?thesis by (auto simp: handle_call_def intro!: quiet_accounted)
next
  case (Some r)
  let ?q = "r\<lparr>req_tool_execution_id := Some (''exec_'' @ s_exec_uuid env)\<rparr>" and ?ws = "uuid_string (org_id auth)"
  let ?g = "tool_call_static_snapshot_guard_stale (s_hash env) ?q"
  note def = handle_call_def Some Let_def
    and early = early_accounted [OF disjI1, OF refl, unfolded Let_def One_nat_def]
      early_accounted [OF disjI2, OF refl, unfolded Let_def One_nat_def]
  show ?thesis
  proof (cases "trim (req_tool_id r) = [] \<or> ?g None \<noteq> None")
    case True
    then show ?thesis by (auto simp: def intro!: quiet_accounted stale_envelope_ok)
  next
    case gate1: False
    show ?thesis
    proof (cases "find_callable_tool auth (tc_targets cfg) (req_agent_id ?q) (req_tool_id ?q)")
      case None
      then show ?thesis using gate1 by (auto simp: def intro!: quiet_accounted)
    next
      case found: (Some target)
      have received: "initialized_ok (from_auth_and_target (s_hash env) (s_urls env) auth header target (s_has_redis env) cfg) i"
        if "e_role (s_life env) n = FlightReceived (Some i)" for n i
        using assms [OF Some _ that] found by simp
      let ?bad = "tc_schema_validation_enabled cfg \<and> validate_arguments (input_schema target) (req_arguments ?q) \<noteq> Ok ()"
      obtain lim' p where acq: "try_acquire_workspace lim ?ws (tc_max_concurrent_per_workspace cfg) = (lim', p)" by fastforce
      consider reason where "?g (Some target) = Some reason" | "?g (Some target) = None" ?bad
        | "?g (Some target) = None" "\<not> ?bad" "p = None" | permit where "?g (Some target) = None" "\<not> ?bad" "p = Some permit"
        by (metis option.exhaust)
      then show ?thesis
      proof cases
        case 1
        then show ?thesis
          using gate1 found by (auto simp: def early intro!: quiet_accounted stale_envelope_ok)
      next
        case 2
        then show ?thesis
          using gate1 found by (auto simp: def early intro!: quiet_accounted)
      next
        case 3
        then show ?thesis
          using gate1 found acq limited_envelope_ok by (auto simp: def intro!: quiet_accounted)
      next
        case 4
        then show ?thesis
          using gate1 found acq admitted_accounted [OF received] by (auto simp: def split_beta)
      qed
    qed
  qed
qed

section \<open>Properties\<close>

text \<open>
  Property C6. A tool is contacted only through every gate. A call reaches its target exactly when its body is a
  request that names a tool, the tool is the first of that name and the allow lists admit the authenticated
  workspace, key and agent; the versions and the schema hash that the caller names are current; the
  arguments satisfy the schema, unless validation is off; the workspace has a free permit; the requested event
  was stored, unless the risk of the tool is neither high nor critical; the policy service allows the call, if
  the kind of the target asks for it; and the price is within the limit of a call. Then it is contacted once,
  right after its requested event was sent and the policy was asked. Otherwise it is not contacted at all.
\<close>

theorem tool_call_gated:
  "(may_dispatch env lim auth header cfg body target request \<longrightarrow>
      dispatched_once env auth header cfg target request (effects_of (handle_call env lim auth header cfg body)))
   \<and> ((\<nexists>target request. may_dispatch env lim auth header cfg body target request) \<longrightarrow>
      filter is_dispatch (effects_of (handle_call env lim auth header cfg body)) = [])"
proof -
  let ?h = "handle_call env lim auth header cfg body"
  have gates: "may_dispatch env lim auth header cfg body t q \<longleftrightarrow> entry_ok env lim auth cfg body t q
      \<and> (is_fail_closed_risk_level (risk_level t) \<longrightarrow> s_sink env (the_requested_event env auth header cfg t q))
      \<and> policy_preflight env auth t (the_requested_event env auth header cfg t q) = None
      \<and> (\<forall>limit. tc_max_tool_call_cost_micros cfg = Some limit \<longrightarrow> fixed_micros (target_rate_card t) \<le> limit)" for t q
    by (simp add: may_dispatch_def Let_def preflight_None)
  note admitted = admitted_call_effects [OF refl refl, where env = env and auth = auth and header = header and cfg = cfg]
  have "dispatched_once env auth header cfg target request (effects_of ?h)"
    if may: "may_dispatch env lim auth header cfg body target request"
  proof (rule handle_call_entry [of env lim auth header cfg body])
    fix t q
    assume "effects_of ?h = snd (admitted_call env auth header cfg t q (''exec_'' @ s_exec_uuid env))"
      and "\<And>t' q'. entry_ok env lim auth cfg body t' q' \<Longrightarrow> t' = t \<and> q' = q"
    moreover from this(2) have "t = target \<and> q = request" using may unfolding gates by blast
    ultimately show ?thesis
      using may admitted [of target request] unfolding gates by simp
  qed (use may gates in blast)
  moreover have "filter is_dispatch (effects_of ?h) = []"
    if no: "\<nexists>target request. may_dispatch env lim auth header cfg body target request"
  proof (rule handle_call_entry [of env lim auth header cfg body])
    fix t q
    assume "entry_ok env lim auth cfg body t q"
      and "effects_of ?h = snd (admitted_call env auth header cfg t q (''exec_'' @ s_exec_uuid env))"
    then show ?thesis
      using no admitted [of t q] unfolding gates by (metis (full_types))
  qed
  ultimately show ?thesis by blast
qed

definition ex_tool_call :: tool_call_request where
  "ex_tool_call = default_request\<lparr>req_tool_id := ''a-b''\<rparr>"

definition ex_mock :: tool_target where
  "ex_mock = default_target\<lparr>tool_id := ''a-b''\<rparr>"

definition ex_svc :: "(unit, unit, unit) svc_env" where
  "ex_svc =
     \<lparr>s_deps = ex_deps, s_hash = ex_hash, s_urls = ex_urls, s_parse_call = (\<lambda>_. Some ex_tool_call),
      s_parse_list = (\<lambda>_. None), s_sink = (\<lambda>_. False), s_policy_enabled = True, s_policy_client = None,
      s_stamp = (\<lambda>n. \<lparr>st_uuid = [], st_now = 0\<rparr>), s_exec_uuid = ''1'', s_has_redis = False, s_life = ex_env 20,
      s_name_fuel = 3\<rparr>"

definition ex_tools :: tools_config where
  "ex_tools = default_tools_config\<lparr>tc_targets := [ex_mock]\<rparr>"

theorem tool_call_gated_witness:
  "dispatched_once ex_svc ex_auth None ex_tools ex_mock (ex_tool_call\<lparr>req_tool_execution_id := Some ''exec_1''\<rparr>)
     (effects_of (handle_call ex_svc Map.empty ex_auth None ex_tools []))"
proof -
  have "trim ''a-b'' \<noteq> []" by code_simp
  moreover have "\<not> is_fail_closed_risk_level ''medium''" by code_simp
  ultimately have "may_dispatch ex_svc Map.empty ex_auth None ex_tools [] ex_mock (ex_tool_call\<lparr>req_tool_execution_id := Some ''exec_1''\<rparr>)"
    by (simp add: may_dispatch_def entry_ok_def ex_svc_def ex_tool_call_def ex_mock_def ex_tools_def default_tools_config_def
        default_request_def default_target_def default_allowlist_def default_rate_card_def target_visible_def current_for_def
        well_typed_def required_present_def types_match_def permit_free_def Let_def)
  then show ?thesis using tool_call_gated by blast
qed

text \<open>
  Property C13. Reply, bill and audit trail of a call agree. Every audit event is attributed to the authenticated
  caller, whatever the request and the headers claim; the events of a call are numbered 1 and 2; a reply bills only a
  call that was dispatched, and then the fixed price of its target, and reports an execution only of such a
  call; and the completed event that a reply names was sent to the sink and states the same bill. The hypothesis is
  about the target that the call is for: a session received from another caller's flight is one that an initialisation
  for this target gives, which holds since the flights are keyed by the session key of the target.
\<close>

theorem tool_call_accounted:
  assumes "\<And>request target n i. \<lbrakk>s_parse_call env body = Some request;
      find_callable_tool auth (tc_targets cfg) (req_agent_id request) (req_tool_id request) = Some target;
      e_role (s_life env) n = FlightReceived (Some i)\<rbrakk> \<Longrightarrow>
    initialized_ok (from_auth_and_target (s_hash env) (s_urls env) auth header target (s_has_redis env) cfg) i"
  shows "call_accounted auth (handle_call env lim auth header cfg body)"
  using assms by (rule handle_call_accounts)

text \<open>A call of an MCP target whose session comes from the flight of another caller.\<close>

definition ex_mcp_tools :: tools_config where
  "ex_mcp_tools = default_tools_config\<lparr>tc_targets := [ex_target, ex_mock]\<rparr>"

definition ex_received :: initialized_session where
  "ex_received = \<lparr>i_session = Some (ex_session\<lparr>s_target_hash :=
       target_hash (from_auth_and_target ex_hash ex_urls ex_auth None ex_target False ex_mcp_tools)\<rparr>),
     i_protocol_version = ''2025-03-26'', i_sse_used = False\<rparr>"

definition ex_waiting :: "(unit, unit, unit) svc_env" where
  "ex_waiting = ex_svc\<lparr>s_parse_call := (\<lambda>_. Some (default_request\<lparr>req_tool_id := ''t''\<rparr>)),
     s_life := (ex_env 20)\<lparr>e_role := (\<lambda>_. FlightReceived (Some ex_received))\<rparr>\<rparr>"

lemma ex_received_ok:
  "initialized_ok (from_auth_and_target ex_hash ex_urls ex_auth None ex_target False ex_mcp_tools) ex_received"
proof -
  have "is_ok (validate_supported_protocol_version ''2025-03-26'')" "is_ok (validate_session_id ''s'')" by code_simp+
  then show ?thesis
    by (simp add: initialized_ok_def session_ok_def ex_received_def ex_session_def from_auth_and_target_def)
qed

theorem tool_call_accounted_witness:
  "find_callable_tool ex_auth (tc_targets ex_mcp_tools) None ''t'' = Some ex_target
   \<and> call_accounted ex_auth (handle_call ex_waiting Map.empty ex_auth None ex_mcp_tools [])"
proof -
  have found: "find_callable_tool ex_auth (tc_targets ex_mcp_tools) agent ''t'' = Some ex_target" for agent
    by (simp add: find_callable_tool_def ex_mcp_tools_def ex_target_def target_visible_def default_target_def
        default_allowlist_def Let_def)
  have "call_accounted ex_auth (handle_call ex_waiting Map.empty ex_auth None ex_mcp_tools [])"
    by (rule tool_call_accounted) (auto simp: ex_waiting_def ex_svc_def found ex_received_ok)
  then show ?thesis using found by blast
qed

end
