(* ===== verification/Step_State.thy ===== *)
theory Step_State
  imports Target_Hash Openapi_Mapping Agent_Policy
begin

text \<open>
  The record of the steps of a run (\<open>agent/step_state.rs\<close>) and the redaction of metadata (\<open>agent/redaction.rs\<close>). A
  step is kept in Redis under a key of its workspace, agent, run and identifier, with a fingerprint of what it does;
  the same identifier with another fingerprint is a conflict.
\<close>

section \<open>Keys and fingerprints\<close>

record step_fingerprint_input =
  sf_parent_step_id :: "string option"
  sf_step_kind :: "step_kind option"
  sf_graph_node :: "string option"
  sf_tool_call_id :: "string option"
  sf_attempt :: "nat option"
  sf_input_hash :: "string option"

definition should_percent_encode :: "char \<Rightarrow> bool \<Rightarrow> bool" where
  "should_percent_encode ch encode_colon \<longleftrightarrow>
     ch = CHR ''%'' \<or> ch = CHR ''|'' \<or> ch = CHR ''='' \<or> encode_colon \<and> ch = CHR '':''"

text \<open>
  The characters to escape are ASCII, so the loop over characters is one over bytes. \<open>hex_digit\<close> is the function of
  the OpenAPI mapping, which \<open>step_state.rs\<close> repeats.
\<close>

definition encode_component :: "string \<Rightarrow> bool \<Rightarrow> string" where
  "encode_component v encode_colon =
     (if \<not> (\<exists>ch \<in> set v. should_percent_encode ch encode_colon) then v
      else concat (map (\<lambda>ch. if should_percent_encode ch encode_colon
                             then [CHR ''%'', hex_digit (byte ch div 16), hex_digit (byte ch mod 16)] else [ch]) v))"

definition step_fingerprint :: "step_fingerprint_input \<Rightarrow> string" where
  "step_fingerprint i =
     ''parent='' @ encode_component (text_or_empty (sf_parent_step_id i)) False
     @ ''|kind='' @ (case sf_step_kind i of Some k \<Rightarrow> step_kind_str k | None \<Rightarrow> ''unknown'')
     @ ''|graph='' @ encode_component (text_or_empty (sf_graph_node i)) False
     @ ''|tool='' @ encode_component (text_or_empty (sf_tool_call_id i)) False
     @ ''|attempt='' @ (case sf_attempt i of Some n \<Rightarrow> show_nat n | None \<Rightarrow> [])
     @ ''|input='' @ encode_component (text_or_empty (sf_input_hash i)) False"

definition step_state_key :: "uuid \<Rightarrow> string \<Rightarrow> string \<Rightarrow> string \<Rightarrow> string" where
  "step_state_key workspace agent_identity run step =
     ''agent:step:'' @ uuid_string workspace @ '':'' @ encode_component agent_identity True
     @ '':'' @ encode_component run True @ '':'' @ encode_component step True"

section \<open>Detection of conflicts\<close>

datatype step_conflict_decision = StepNoConflict | StepConflictWarn | StepConflictStrict | StepCheckDisabled

datatype redis_error = RedisError

text \<open>
  How Redis runs the two commands of a check: the time of each on its clock, whether each is answered, and what the
  commands of other clients between the two do to the store.
\<close>

record step_redis =
  sr_set_at :: nat
  sr_get_at :: nat
  sr_set_ok :: bool
  sr_get_ok :: bool
  sr_between :: "lock_store \<Rightarrow> lock_store"

definition detect_step_conflict ::
    "step_redis option \<Rightarrow> lock_store \<Rightarrow> string \<Rightarrow> string \<Rightarrow> nat \<Rightarrow> conflict_action
       \<Rightarrow> (redis_error + step_conflict_decision) \<times> lock_store" where
  "detect_step_conflict redis db key fingerprint ttl_secs action =
     (if action = ConflictDisabled then (Ok StepCheckDisabled, db)
      else case redis of
        None \<Rightarrow> (Ok StepNoConflict, db)
      | Some r \<Rightarrow>
          if \<not> sr_set_ok r then (Err RedisError, db)
          else
            let (db', inserted) = set_nx_ex db (sr_set_at r) key fingerprint ttl_secs in
            if inserted then (Ok StepNoConflict, db')
            else
              let db2 = sr_between r db' in
              if \<not> sr_get_ok r then (Err RedisError, db2)
              else if lock_at (sr_get_at r) db2 key = Some fingerprint then (Ok StepNoConflict, db2)
              else if action = ConflictStrict then (Ok StepConflictStrict, db2)
              else (Ok StepConflictWarn, db2))"

section \<open>Redaction\<close>

definition SENSITIVE_KEYS :: "string list" where
  "SENSITIVE_KEYS = [''authorization'', ''cookie'', ''set-cookie'', ''api_key'', ''apikey'', ''x-api-key'', ''token'',
     ''access_token'', ''refresh_token'', ''password'', ''secret'', ''client_secret'', ''payment_signature'']"

definition is_sensitive_key :: "string \<Rightarrow> bool" where
  "is_sensitive_key key =
     (let lower = to_ascii_lowercase key in
      list_ex (\<lambda>sensitive. lower = sensitive \<or> contains lower sensitive) SENSITIVE_KEYS)"

definition REDACTED :: string where "REDACTED = ''[redacted]''"

fun redact_metadata :: "json \<Rightarrow> json" where
  "redact_metadata (JObject m) =
     JObject (map (\<lambda>(k, v). (k, if is_sensitive_key k then JString REDACTED else redact_metadata v)) m)"
| "redact_metadata (JArray xs) = JArray (map redact_metadata xs)"
| "redact_metadata v = v"

section \<open>Lemmas on keys and fingerprints\<close>

lemma encode_component_concat:
  "encode_component v b = concat (map (\<lambda>ch. if should_percent_encode ch b
     then [CHR ''%'', hex_digit (byte ch div 16), hex_digit (byte ch mod 16)] else [ch]) v)"
proof (cases "\<exists>ch \<in> set v. should_percent_encode ch b")
  case False
  then show ?thesis by (induction v) (simp_all add: encode_component_def)
qed (simp add: encode_component_def)

lemma percent_decode_component: "percent_decode (encode_component v b) = v"
  unfolding encode_component_concat
proof (induction v)
  case (Cons c v)
  show ?case
  proof (cases "should_percent_encode c b")
    case True
    then show ?thesis using Cons.IH by (simp add: percent_decode_escape byte_div_16 del: percent_decode.simps)
  next
    case False
    then have "c \<noteq> CHR ''%''" by (simp add: should_percent_encode_def)
    then show ?thesis using False Cons.IH by (simp add: percent_decode_plain)
  qed
qed simp

lemma encode_component_inj: "encode_component v b = encode_component w b \<longleftrightarrow> v = w"
  using percent_decode_component by metis

lemma hex_digit_plain: "n < 16 \<Longrightarrow> hex_digit n \<notin> {CHR ''|'', CHR ''='', CHR '':''}"
  by (drule hex_value_digit) (auto simp: hex_value_def byte_def is_ascii_digit_def)

lemma encode_component_without:
  assumes "should_percent_encode c b" "c \<in> {CHR ''|'', CHR ''='', CHR '':''}"
  shows "c \<notin> set (encode_component v b)"
  unfolding encode_component_concat
proof (induction v)
  case (Cons ch v)
  have "hex_digit n \<noteq> c" if "n < 16" for n using hex_digit_plain [OF that] assms(2) by blast
  then have "c \<noteq> hex_digit (byte ch div 16)" "c \<noteq> hex_digit (byte ch mod 16)" "c \<noteq> CHR ''%''"
    using byte_div_16 assms(2) by (metis, metis mod_less_divisor zero_less_numeral, auto)
  moreover have "c \<noteq> ch" if "\<not> should_percent_encode ch b" using that assms(1) by blast
  ultimately show ?case using Cons.IH by simp
qed simp

lemma encode_component_plain:
  "CHR ''|'' \<notin> set (encode_component v b)" "CHR '':'' \<notin> set (encode_component v True)"
  by (rule encode_component_without; simp add: should_percent_encode_def)+

lemma separated_eq:
  "\<lbrakk>(d :: char) \<notin> set a; d \<notin> set a'\<rbrakk> \<Longrightarrow> a @ d # x = a' @ d # y \<longleftrightarrow> a = a' \<and> x = y"
  by (metis option.inject prod.inject split_once_append)

text \<open>A key belongs to one step: no choice of identifiers by a client reaches the key of another step.\<close>

lemma step_state_key_inj:
  assumes "w < 2 ^ 128" "w' < 2 ^ 128"
  shows "step_state_key w a r s = step_state_key w' a' r' s' \<longleftrightarrow> w = w' \<and> a = a' \<and> r = r' \<and> s = s'"
proof -
  let ?tail = "\<lambda>a r s. encode_component a True @ CHR '':'' # encode_component r True @ CHR '':'' # encode_component s True"
  have key: "step_state_key w a r s = ''agent:step:'' @ uuid_string w @ CHR '':'' # ?tail a r s" for w a r s
    by (simp add: step_state_key_def)
  have "uuid_string w @ CHR '':'' # ?tail a r s = uuid_string w' @ CHR '':'' # ?tail a' r' s'
      \<longleftrightarrow> uuid_string w = uuid_string w' \<and> CHR '':'' # ?tail a r s = CHR '':'' # ?tail a' r' s'"
    by (rule append_eq_append_conv) (simp add: uuid_string_length)
  then have "step_state_key w a r s = step_state_key w' a' r' s'
      \<longleftrightarrow> uuid_string w = uuid_string w' \<and> ?tail a r s = ?tail a' r' s'"
    unfolding key same_append_eq by blast
  also have "\<dots> \<longleftrightarrow> uuid_string w = uuid_string w' \<and> a = a' \<and> r = r' \<and> s = s'"
    by (simp only: separated_eq encode_component_plain encode_component_inj not_False_eq_True)
  finally show ?thesis using uuid_string_inj [OF assms] by blast
qed

lemma show_nat_digits: "c \<in> set (show_nat n) \<Longrightarrow> is_ascii_digit c"
proof (induction n rule: show_nat.induct)
  case (1 n)
  then show ?case
    by (subst (asm) (2) show_nat.simps) (auto simp: is_ascii_digit_def byte_def split: if_splits)
qed

definition kind_text :: "step_kind option \<Rightarrow> string" where
  "kind_text k = (case k of Some k \<Rightarrow> step_kind_str k | None \<Rightarrow> ''unknown'')"

definition attempt_text :: "nat option \<Rightarrow> string" where
  "attempt_text n = (case n of Some n \<Rightarrow> show_nat n | None \<Rightarrow> [])"

lemma kind_text_plain: "CHR ''|'' \<notin> set (kind_text k)"
  by (cases k; (cases "the k")?) (auto simp: kind_text_def)

lemma attempt_text_plain: "CHR ''|'' \<notin> set (attempt_text n)"
  using show_nat_digits [of "CHR ''|''"] by (auto simp: attempt_text_def is_ascii_digit_def byte_def split: option.split)

lemma attempt_text_inj: "attempt_text m = attempt_text n \<longleftrightarrow> m = n"
  using show_nat_not_empty [symmetric] show_nat_not_empty
  by (cases m; cases n) (simp_all add: attempt_text_def show_nat_inj)

lemma step_fingerprint_eq:
  "step_fingerprint i = step_fingerprint j \<longleftrightarrow>
     text_or_empty (sf_parent_step_id i) = text_or_empty (sf_parent_step_id j)
     \<and> kind_text (sf_step_kind i) = kind_text (sf_step_kind j)
     \<and> text_or_empty (sf_graph_node i) = text_or_empty (sf_graph_node j)
     \<and> text_or_empty (sf_tool_call_id i) = text_or_empty (sf_tool_call_id j)
     \<and> sf_attempt i = sf_attempt j
     \<and> text_or_empty (sf_input_hash i) = text_or_empty (sf_input_hash j)"
  by (simp add: step_fingerprint_def flip: kind_text_def attempt_text_def)
    (simp add: separated_eq encode_component_plain kind_text_plain attempt_text_plain encode_component_inj attempt_text_inj)

section \<open>Lemmas on conflicts\<close>

text \<open>Two reports of one step say the same: absent and empty texts, and an absent and the unknown kind, are one.\<close>

definition same_work :: "step_fingerprint_input \<Rightarrow> step_fingerprint_input \<Rightarrow> bool" where
  "same_work i j \<longleftrightarrow>
     text_or_empty (sf_parent_step_id i) = text_or_empty (sf_parent_step_id j)
     \<and> kind_text (sf_step_kind i) = kind_text (sf_step_kind j)
     \<and> text_or_empty (sf_graph_node i) = text_or_empty (sf_graph_node j)
     \<and> text_or_empty (sf_tool_call_id i) = text_or_empty (sf_tool_call_id j)
     \<and> sf_attempt i = sf_attempt j
     \<and> text_or_empty (sf_input_hash i) = text_or_empty (sf_input_hash j)"

text \<open>Redis answers both commands, and the commands of other clients between them do not touch the key.\<close>

definition undisturbed :: "string \<Rightarrow> step_redis \<Rightarrow> bool" where
  "undisturbed key r \<longleftrightarrow> sr_set_ok r \<and> sr_get_ok r \<and> (\<forall>db. sr_between r db key = db key)"

fun conflict_decision :: "conflict_action \<Rightarrow> step_conflict_decision" where
  "conflict_decision ConflictDisabled = StepCheckDisabled"
| "conflict_decision ConflictWarn = StepConflictWarn"
| "conflict_decision ConflictStrict = StepConflictStrict"

lemma detect_first:
  assumes "undisturbed key r" "action \<noteq> ConflictDisabled" "lock_at (sr_set_at r) db key = None"
  shows "detect_step_conflict (Some r) db key fp ttl action
           = (Ok StepNoConflict, db(key \<mapsto> (fp, sr_set_at r + ttl * 1000)))"
  using assms by (simp add: detect_step_conflict_def undisturbed_def set_nx_ex_def)

lemma detect_again:
  assumes "undisturbed key r" "action \<noteq> ConflictDisabled" "db key = Some (fp, e)" "sr_set_at r < e" "sr_get_at r < e"
  shows "fst (detect_step_conflict (Some r) db key fp' ttl action)
           = Ok (if fp' = fp then StepNoConflict else conflict_decision action)"
  using assms by (cases action) (auto simp: detect_step_conflict_def undisturbed_def set_nx_ex_def lock_at_def Let_def)

lemma detect_local:
  assumes "undisturbed key r" "db key = db' key"
  shows "fst (detect_step_conflict (Some r) db key fp ttl action) = fst (detect_step_conflict (Some r) db' key fp ttl action)"
  using assms by (auto simp: detect_step_conflict_def undisturbed_def set_nx_ex_def lock_at_def Let_def)

section \<open>Lemmas on redaction\<close>

fun redacted :: "json \<Rightarrow> bool" where
  "redacted (JObject m) \<longleftrightarrow> (\<forall>(k, v) \<in> set m. if is_sensitive_key k then v = JString REDACTED else redacted v)"
| "redacted (JArray xs) \<longleftrightarrow> (\<forall>x \<in> set xs. redacted x)"
| "redacted _ \<longleftrightarrow> True"

lemma redact_redacted: "redacted (redact_metadata v)"
  by (induction v rule: redact_metadata.induct) auto

lemma redact_id: "redacted v \<Longrightarrow> redact_metadata v = v"
proof (induction v rule: redact_metadata.induct)
  case (1 m)
  have "(\<lambda>(k, v). (k, if is_sensitive_key k then JString REDACTED else redact_metadata v)) e = e" if "e \<in> set m" for e
    using 1 that by (cases e) (fastforce split: if_splits)
  then show ?case by (simp add: map_idI)
next
  case (2 xs)
  then show ?case by (simp add: map_idI)
qed simp_all

lemma redact_wf: "json_wf v \<Longrightarrow> json_wf (redact_metadata v)"
  by (induction v rule: redact_metadata.induct) (auto simp: comp_def case_prod_beta)

lemma redact_get:
  "get k (redact_metadata v)
     = (if is_sensitive_key k then map_option (\<lambda>_. JString REDACTED) (get k v) else map_option redact_metadata (get k v))"
proof (cases v)
  case (JObject m)
  then show ?thesis by (induction m arbitrary: v) auto
qed simp_all

lemma redact_pointer:
  "list_all (\<lambda>k. \<not> is_sensitive_key k) ks \<Longrightarrow> pointer ks (redact_metadata v) = map_option redact_metadata (pointer ks v)"
  by (induction ks v rule: pointer.induct) (auto simp: redact_get split: option.split)

text \<open>Paths through fields and array positions, and what a value shows without the values inside it.\<close>

datatype json_step = AtKey string | AtIndex nat

fun plain_step :: "json_step \<Rightarrow> bool" where
  "plain_step (AtKey k) \<longleftrightarrow> \<not> is_sensitive_key k"
| "plain_step (AtIndex i) \<longleftrightarrow> True"

fun json_step_at :: "json_step \<Rightarrow> json \<Rightarrow> json option" where
  "json_step_at (AtKey k) v = get k v"
| "json_step_at (AtIndex i) (JArray xs) = (if i < length xs then Some (xs ! i) else None)"
| "json_step_at (AtIndex i) _ = None"

fun json_at :: "json_step list \<Rightarrow> json \<Rightarrow> json option" where
  "json_at [] v = Some v"
| "json_at (s # path) v = Option.bind (json_step_at s v) (json_at path)"

datatype json_outline = OutlineLeaf json | OutlineKeys "string list" | OutlineLength nat

fun outline :: "json \<Rightarrow> json_outline" where
  "outline (JObject m) = OutlineKeys (map fst m)"
| "outline (JArray xs) = OutlineLength (length xs)"
| "outline v = OutlineLeaf v"

lemma json_at_append: "json_at (p @ q) v = Option.bind (json_at p v) (json_at q)"
  by (induction p arbitrary: v) (simp_all add: fun_eq_iff bind_eq_Some_conv split: bind_split)

lemma outline_redact: "outline (redact_metadata v) = outline v"
  by (cases v) (simp_all add: comp_def case_prod_beta)

lemma redact_step_at: "plain_step s \<Longrightarrow> json_step_at s (redact_metadata v) = map_option redact_metadata (json_step_at s v)"
proof (cases s)
  case (AtIndex i)
  then show ?thesis by (cases v) simp_all
qed (simp add: redact_get)

lemma redact_at: "list_all plain_step path \<Longrightarrow> json_at path (redact_metadata v) = map_option redact_metadata (json_at path v)"
proof (induction path arbitrary: v)
  case (Cons s path)
  then show ?case by (cases "json_step_at s v") (simp_all add: redact_step_at)
qed simp

lemma sensitive_key_iff:
  "is_sensitive_key key \<longleftrightarrow> (\<exists>a word b. key = a @ word @ b \<and> to_ascii_lowercase word \<in> set SENSITIVE_KEYS)"
proof -
  have "contains (to_ascii_lowercase key) w \<longleftrightarrow> (\<exists>a word b. key = a @ word @ b \<and> to_ascii_lowercase word = w)" for w
  proof
    assume "contains (to_ascii_lowercase key) w"
    then obtain x y where "map ascii_lower_char key = x @ w @ y" by (auto simp: contains_iff to_ascii_lowercase_def)
    then obtain a rest where "key = a @ rest" "map ascii_lower_char rest = w @ y" by (metis map_eq_append_conv)
    moreover from this(2) obtain word b where "rest = word @ b" "map ascii_lower_char word = w" by (metis map_eq_append_conv)
    ultimately show "\<exists>a word b. key = a @ word @ b \<and> to_ascii_lowercase word = w"
      by (auto simp: to_ascii_lowercase_def)
  next
    assume "\<exists>a word b. key = a @ word @ b \<and> to_ascii_lowercase word = w"
    then show "contains (to_ascii_lowercase key) w" unfolding contains_iff by (metis to_ascii_lowercase_append)
  qed
  moreover have "contains w w" for w by (metis append_Nil append_Nil2 contains_iff)
  ultimately show ?thesis unfolding is_sensitive_key_def Let_def list_ex_iff by metis
qed

section \<open>Properties\<close>

text \<open>
  Property C18. The first report of a step claims it. While the claim lives, a second report of the same step is no
  conflict exactly when it says the same, and otherwise gets the configured reaction; a report of another step, that
  is of another workspace, agent, run or identifier, is judged as if the first had not been made. The texts of the
  identifiers are arbitrary, so no choice of them makes two steps collide.
\<close>

theorem step_conflict_detected:
  assumes ids: "w < 2 ^ 128" "w' < 2 ^ 128"
    and redis: "undisturbed (step_state_key w a r s) r1" "undisturbed (step_state_key w' a' r' s') r2"
    and free: "lock_at (sr_set_at r1) db (step_state_key w a r s) = None"
    and alive: "sr_set_at r2 < sr_set_at r1 + ttl * 1000" "sr_get_at r2 < sr_set_at r1 + ttl * 1000"
    and on: "action \<noteq> ConflictDisabled"
    and first: "detect_step_conflict (Some r1) db (step_state_key w a r s) (step_fingerprint i) ttl action = (res1, db1)"
    and second: "detect_step_conflict (Some r2) db1 (step_state_key w' a' r' s') (step_fingerprint j) ttl action = (res2, db2)"
  shows "res1 = Ok StepNoConflict
    \<and> res2 = (if (w', a', r', s') = (w, a, r, s)
              then Ok (if same_work j i then StepNoConflict else conflict_decision action)
              else fst (detect_step_conflict (Some r2) db (step_state_key w' a' r' s') (step_fingerprint j) ttl action))"
proof -
  note key = step_state_key_inj [OF ids(2,1), of a' r' s' a r s]
  have db1: "db1 = db(step_state_key w a r s \<mapsto> (step_fingerprint i, sr_set_at r1 + ttl * 1000))"
    and res1: "res1 = Ok StepNoConflict"
    using detect_first [OF redis(1) on free] first by auto
  have res2: "res2 = fst (detect_step_conflict (Some r2) db1 (step_state_key w' a' r' s') (step_fingerprint j) ttl action)"
    using second by simp
  show ?thesis
  proof (cases "(w', a', r', s') = (w, a, r, s)")
    case True
    then have "res2 = Ok (if step_fingerprint j = step_fingerprint i then StepNoConflict else conflict_decision action)"
      unfolding res2 using redis(2) by (intro detect_again [OF _ on _ alive]) (simp_all add: db1)
    then show ?thesis using True res1 by (simp add: step_fingerprint_eq same_work_def)
  next
    case False
    then have "db1 (step_state_key w' a' r' s') = db (step_state_key w' a' r' s')" using key by (auto simp: db1)
    then show ?thesis using False res1 res2 detect_local [OF redis(2)] by metis
  qed
qed

theorem step_conflict_detected_witness:
  "detect_step_conflict (Some \<lparr>sr_set_at = 5, sr_get_at = 6, sr_set_ok = True, sr_get_ok = True, sr_between = id\<rparr>)
     (fst (set_nx_ex (\<lambda>_. None) 1 (step_state_key 7 ''a:b'' ''r'' ''s'')
        (step_fingerprint \<lparr>sf_parent_step_id = None, sf_step_kind = None, sf_graph_node = None, sf_tool_call_id = None,
           sf_attempt = Some 1, sf_input_hash = None\<rparr>) 60))
     (step_state_key 7 ''a:b'' ''r'' ''s'')
     (step_fingerprint \<lparr>sf_parent_step_id = None, sf_step_kind = None, sf_graph_node = None, sf_tool_call_id = None,
        sf_attempt = Some 2, sf_input_hash = None\<rparr>) 60 ConflictStrict
   = (Ok StepConflictStrict, fst (set_nx_ex (\<lambda>_. None) 1 (step_state_key 7 ''a:b'' ''r'' ''s'')
        (step_fingerprint \<lparr>sf_parent_step_id = None, sf_step_kind = None, sf_graph_node = None, sf_tool_call_id = None,
           sf_attempt = Some 1, sf_input_hash = None\<rparr>) 60))"
proof -
  let ?k = "step_state_key 7 ''a:b'' ''r'' ''s''"
  let ?r = "\<lambda>t. \<lparr>sr_set_at = t, sr_get_at = t + 1, sr_set_ok = True, sr_get_ok = True, sr_between = id\<rparr>"
  let ?i = "\<lambda>n. \<lparr>sf_parent_step_id = None, sf_step_kind = None, sf_graph_node = None, sf_tool_call_id = None,
        sf_attempt = Some n, sf_input_hash = None\<rparr>"
  let ?db = "fst (set_nx_ex (\<lambda>_. None) 1 ?k (step_fingerprint (?i 1)) 60)"
  have u: "undisturbed ?k (?r t)" for t by (simp add: undisturbed_def)
  have first: "detect_step_conflict (Some (?r 1)) (\<lambda>_. None) ?k (step_fingerprint (?i 1)) 60 ConflictStrict
      = (Ok StepNoConflict, ?db)"
    by (simp add: detect_step_conflict_def set_nx_ex_def lock_at_def)
  obtain res2 db2 where second: "detect_step_conflict (Some (?r 5)) ?db ?k (step_fingerprint (?i 2)) 60 ConflictStrict
      = (res2, db2)"
    by fastforce
  have "res2 = Ok StepConflictStrict"
    using step_conflict_detected [OF _ _ u u _ _ _ _ first second] by (simp add: lock_at_def same_work_def)
  moreover have "db2 = ?db"
    using second by (auto simp: detect_step_conflict_def set_nx_ex_def lock_at_def Let_def split: if_splits)
  ultimately show ?thesis using second by (simp add: numeral_eq_Suc)
qed

text \<open>
  Property C34. Redaction is exact. A value on a path of fields and array positions that meets no sensitive key is
  kept: a leaf is the same leaf, an array has the same length and an object the same keys in the same order. What
  lies under the first sensitive key of a path is replaced as a whole. So no value is left under a sensitive key at any
  depth and nothing else changes, and redacting again changes nothing. A key is sensitive exactly when one of the
  listed words occurs in it, in any letter case.
\<close>

theorem redaction_exact:
  assumes "list_all plain_step path"
  shows "map_option outline (json_at path (redact_metadata v)) = map_option outline (json_at path v)
    \<and> (is_sensitive_key key \<longrightarrow>
         json_at (path @ [AtKey key]) (redact_metadata v) = map_option (\<lambda>_. JString REDACTED) (json_at (path @ [AtKey key]) v))
    \<and> redacted (redact_metadata v) \<and> redact_metadata (redact_metadata v) = redact_metadata v
    \<and> (is_sensitive_key key \<longleftrightarrow> (\<exists>a word b. key = a @ word @ b \<and> to_ascii_lowercase word \<in> set SENSITIVE_KEYS))"
proof -
  have "json_at (path @ [AtKey key]) (redact_metadata v) = map_option (\<lambda>_. JString REDACTED) (json_at (path @ [AtKey key]) v)"
    if "is_sensitive_key key"
    using that redact_at [OF assms, of v]
    by (cases "json_at path v") (auto simp: json_at_append redact_get split: bind_split)
  moreover have "map_option outline (json_at path (redact_metadata v)) = map_option outline (json_at path v)"
    using redact_at [OF assms, of v] by (cases "json_at path v") (simp_all add: outline_redact)
  ultimately show ?thesis using redact_redacted redact_id sensitive_key_iff by metis
qed

theorem redaction_exact_witness:
  "json_at [AtKey ''a'', AtIndex 1, AtKey ''api_Key''] (redact_metadata
      (JObject [(''a'', JArray [JNull, JObject [(''n'', JBool True), (''api_Key'', JString ''s'')]])])) = Some (JString REDACTED)
   \<and> json_at [AtKey ''a'', AtIndex 1, AtKey ''n''] (redact_metadata
      (JObject [(''a'', JArray [JNull, JObject [(''n'', JBool True), (''api_Key'', JString ''s'')]])])) \<noteq> None"
proof -
  let ?v = "JObject [(''a'', JArray [JNull, JObject [(''n'', JBool True), (''api_Key'', JString ''s'')]])]"
  have plain: "list_all plain_step [AtKey ''a'', AtIndex 1]" "list_all plain_step [AtKey ''a'', AtIndex 1, AtKey ''n'']"
      "is_sensitive_key ''api_Key''"
      "json_at ([AtKey ''a'', AtIndex 1] @ [AtKey ''api_Key'']) ?v = Some (JString ''s'')"
      "json_at [AtKey ''a'', AtIndex 1, AtKey ''n''] ?v = Some (JBool True)"
    by code_simp+
  have "json_at ([AtKey ''a'', AtIndex 1] @ [AtKey ''api_Key'']) (redact_metadata ?v) = Some (JString REDACTED)"
    using redaction_exact [OF plain(1), of ?v "''api_Key''", THEN conjunct2, THEN conjunct1, rule_format, OF plain(3)]
    unfolding plain(4) option.map .
  moreover have "map_option outline (json_at [AtKey ''a'', AtIndex 1, AtKey ''n''] (redact_metadata ?v)) = Some (outline (JBool True))"
    using redaction_exact [OF plain(2), of ?v "[]", THEN conjunct1] unfolding plain(5) option.map .
  ultimately show ?thesis by (simp only: append_Cons append_Nil) (metis option.map_disc_iff option.distinct(1))
qed

end
