(* ===== verification/Event_Adapter.thy ===== *)
theory Event_Adapter
  imports Agent_Policy
begin

text \<open>
  The events that clients report (\<open>AgentEventInput\<close> and \<open>AgentEventsRequest\<close> in \<open>agent/event.rs\<close>) and their
  translation from the vocabulary of a framework to that of the gateway (\<open>agent/adapter.rs\<close>).
\<close>

section \<open>Reported events\<close>

record agent_event_input =
  ei_source :: "agent_event_source option"
  ei_framework :: "agent_event_source option"
  ei_version :: string
  ei_event_id :: "string option"
  ei_event_type :: string
  ei_event_phase :: event_phase
  ei_policy_stage :: policy_stage
  ei_event_source_trust :: event_source_trust
  ei_sequence :: "nat option"
  ei_name :: "string option"
  ei_agent_name :: "string option"
  ei_agent_id_external :: "string option"
  ei_run_id :: "string option"
  ei_step_id :: "string option"
  ei_parent_step_id :: "string option"
  ei_tool_call_id :: "string option"
  ei_handoff_id :: "string option"
  ei_graph_node :: "string option"
  ei_step_kind :: "step_kind option"
  ei_step_source :: step_source
  ei_step_confidence :: confidence
  ei_attempt :: "nat option"
  ei_input_hash :: "string option"
  ei_timestamp :: "int option"
  ei_metadata :: json
  ei_raw_fields :: json_object

datatype agent_events_request =
    EventBatch "agent_event_source option" "agent_event_source option" "agent_event_input list"
  | EventSingle agent_event_input

definition first_source :: "agent_event_source option \<Rightarrow> agent_event_source option \<Rightarrow> agent_event_source \<Rightarrow> agent_event_source" where
  "first_source source framework other =
     (case source of Some x \<Rightarrow> x | None \<Rightarrow> (case framework of Some x \<Rightarrow> x | None \<Rightarrow> other))"

fun into_sourced_events :: "agent_events_request \<Rightarrow> (agent_event_source \<times> agent_event_input) list" where
  "into_sourced_events (EventBatch source framework es) =
     (let batch_source = first_source source framework EsUnknown in
      map (\<lambda>event. (first_source (ei_source event) (ei_framework event) batch_source, event)) es)"
| "into_sourced_events (EventSingle event) = [(first_source (ei_source event) (ei_framework event) EsUnknown, event)]"

section \<open>Words of an event type\<close>

definition is_type_separator :: "char \<Rightarrow> bool" where
  "is_type_separator c \<longleftrightarrow> c \<in> set ''._-:/''"

text \<open>\<open>str::split\<close> at the separators and at white space, on UTF-8.\<close>

function split_event_type :: "string \<Rightarrow> string \<Rightarrow> string list" where
  "split_event_type acc [] = [rev acc]"
| "split_event_type acc (c # s) =
     (if is_type_separator c then rev acc # split_event_type [] s
      else case strip_any white_space_encodings (c # s) of
        Some rest \<Rightarrow> rev acc # split_event_type [] rest
      | None \<Rightarrow> split_event_type (c # acc) s)"
  by pat_completeness auto

termination
  by (relation "measure (\<lambda>(acc, s). length s)")
    (auto dest!: strip_any_length [OF _ white_space_nonempty])

definition event_tokens :: "string \<Rightarrow> string list" where
  "event_tokens event_type = filter (\<lambda>token. token \<noteq> []) (split_event_type [] event_type)"

definition strip_suffix :: "string \<Rightarrow> string \<Rightarrow> string option" where
  "strip_suffix suffix s = map_option rev (strip_prefix (rev suffix) (rev s))"

text \<open>\<open>rsplit(['.', '_', '-', ':', '/']).next()\<close>, which is never \<open>None\<close>.\<close>

definition last_word :: "string \<Rightarrow> string" where
  "last_word s = rev (takeWhile (\<lambda>c. \<not> is_type_separator c) (rev s))"

definition has_completion_suffix :: "string \<Rightarrow> string \<Rightarrow> bool" where
  "has_completion_suffix event_type suffix =
     (case strip_suffix suffix event_type of None \<Rightarrow> False | Some prefix \<Rightarrow> last_word prefix \<noteq> ''not'')"

definition is_generic_completion_event :: "string \<Rightarrow> bool" where
  "is_generic_completion_event event_type \<longleftrightarrow>
     event_type \<in> set [''completed'', ''complete'', ''end'']
     \<or> list_ex (has_completion_suffix event_type)
         [''.completed'', ''_completed'', ''-completed'', '':completed'', ''/completed'',
          ''.complete'', ''_complete'', ''-complete'', '':complete'', ''/complete'',
          ''.end'', ''_end'', ''-end'', '':end'', ''/end'']"

fun not_completion_from :: "string option \<Rightarrow> string list \<Rightarrow> bool" where
  "not_completion_from previous [] = False"
| "not_completion_from previous (token # tokens) =
     (if previous = Some ''not'' \<and> token \<in> set [''completed'', ''complete'', ''end''] then True
      else not_completion_from (Some token) tokens)"

definition has_not_completion_tokens :: "string \<Rightarrow> bool" where
  "has_not_completion_tokens event_type = not_completion_from None (event_tokens event_type)"

definition is_ambiguous_incomplete_event :: "string \<Rightarrow> bool" where
  "is_ambiguous_incomplete_event event_type \<longleftrightarrow>
     ''incomplete'' \<in> set (event_tokens event_type)
     \<or> has_not_completion_tokens event_type
     \<or> list_ex (\<lambda>suffix. case strip_suffix suffix event_type of
                          None \<Rightarrow> False | Some prefix \<Rightarrow> last_word prefix = ''not'')
         [''.complete'', ''_complete'', ''-complete'', '':complete'', ''/complete'']"

definition has_tool_token :: "string \<Rightarrow> bool" where
  "has_tool_token event_type = list_ex (\<lambda>token. token \<in> set [''tool'', ''tools'']) (event_tokens event_type)"

fun llm_token_in :: "string list \<Rightarrow> bool" where
  "llm_token_in [] = False"
| "llm_token_in (token # tokens) =
     (if token = ''llm'' then True
      else if token = ''chat'' \<and> (case tokens of next # _ \<Rightarrow> next = ''model'' | [] \<Rightarrow> False) then True
      else llm_token_in tokens)"

definition has_llm_token :: "string \<Rightarrow> bool" where
  "has_llm_token event_type = llm_token_in (event_tokens event_type)"

definition has_approval_token :: "string \<Rightarrow> bool" where
  "has_approval_token event_type = list_ex (\<lambda>token. token = ''approval'') (event_tokens event_type)"

definition has_false_positive_tool_or_llm_token :: "string \<Rightarrow> bool" where
  "has_false_positive_tool_or_llm_token event_type =
     list_ex (\<lambda>token. token \<notin> set [''tool'', ''tools'', ''llm'', ''chat'', ''model'']
                      \<and> (contains token ''tool'' \<or> contains token ''llm'')) (event_tokens event_type)"

section \<open>Tables\<close>

type_synonym event_mapping = "string \<times> step_kind \<times> event_phase \<times> policy_stage"

definition map_unknown_event_type :: "string \<Rightarrow> (string \<times> step_kind) option" where
  "map_unknown_event_type event_type =
     (let compact = to_ascii_lowercase event_type in
      if is_ambiguous_incomplete_event compact then None
      else if has_tool_token compact then
        (if is_generic_completion_event compact then Some (''tool.call.completed'', SkToolCall)
         else Some (''tool.call.requested'', SkToolCall))
      else if has_llm_token compact then
        (if is_generic_completion_event compact then Some (''llm.call.completed'', SkLlmCall)
         else Some (''llm.call.started'', SkLlmCall))
      else if has_approval_token compact then Some (''approval.requested'', SkApproval)
      else if contains compact ''checkpoint'' then Some (''checkpoint.created'', SkCheckpoint)
      else if \<not> has_false_positive_tool_or_llm_token compact \<and> is_generic_completion_event compact
      then Some (''step.completed'', SkUnknown)
      else None)"

definition map_langgraph_event_type :: "string \<Rightarrow> event_mapping option" where
  "map_langgraph_event_type = map_of
     [(''on_tool_start'', (''tool.call.requested'', SkToolCall, PhBefore, PsPreAction)),
      (''on_tool_end'', (''tool.call.completed'', SkToolCall, PhAfter, PsAuditOnly)),
      (''on_chat_model_start'', (''llm.call.started'', SkLlmCall, PhBefore, PsPreAction)),
      (''on_llm_start'', (''llm.call.started'', SkLlmCall, PhBefore, PsPreAction)),
      (''on_chat_model_end'', (''llm.call.completed'', SkLlmCall, PhAfter, PsAuditOnly)),
      (''on_llm_end'', (''llm.call.completed'', SkLlmCall, PhAfter, PsAuditOnly)),
      (''on_chain_start'', (''step.started'', SkUnknown, PhState, PsAuditOnly)),
      (''on_chain_end'', (''step.completed'', SkUnknown, PhAfter, PsAuditOnly)),
      (''on_chain_error'', (''step.failed'', SkErrorRecovery, PhAfter, PsAuditOnly)),
      (''on_tool_error'', (''step.failed'', SkErrorRecovery, PhAfter, PsAuditOnly)),
      (''on_llm_error'', (''step.failed'', SkErrorRecovery, PhAfter, PsAuditOnly))]"

definition map_openai_agents_event_type :: "string \<Rightarrow> event_mapping option" where
  "map_openai_agents_event_type = map_of
     [(''tool_called'', (''tool.call.requested'', SkToolCall, PhBefore, PsPreAction)),
      (''tool_output'', (''tool.result.received'', SkToolResult, PhAfter, PsAuditOnly)),
      (''handoff_requested'', (''handoff.requested'', SkHandoff, PhBefore, PsPreAction)),
      (''handoff_occurred'', (''handoff.completed'', SkHandoff, PhAfter, PsAuditOnly)),
      (''tool_approval_requested'', (''approval.requested'', SkApproval, PhBefore, PsPreAction)),
      (''reasoning_item_created'', (''step.started'', SkReasoning, PhState, PsAuditOnly))]"

definition is_openai_agents_tool_metadata_event :: "string \<Rightarrow> bool" where
  "is_openai_agents_tool_metadata_event event_type \<longleftrightarrow>
     event_type \<in> set [''tool_called'', ''tool_output'', ''tool_approval_requested'']"

definition is_tool_node_type :: "string \<Rightarrow> bool" where
  "is_tool_node_type node_type = has_tool_token (to_ascii_lowercase node_type)"

definition map_n8n_event_type :: "string \<Rightarrow> string option \<Rightarrow> event_mapping option" where
  "map_n8n_event_type event_type node_type =
     (let is_tool_node = (case node_type of Some t \<Rightarrow> is_tool_node_type t | None \<Rightarrow> False) in
      if event_type = ''execution.started'' then Some (''run.started'', SkPlanning, PhState, PsAuditOnly)
      else if event_type = ''execution.success'' then Some (''run.completed'', SkUnknown, PhState, PsAuditOnly)
      else if event_type = ''execution.error'' then Some (''run.failed'', SkErrorRecovery, PhState, PsAuditOnly)
      else if event_type = ''node.started'' \<and> is_tool_node
      then Some (''tool.call.requested'', SkToolCall, PhBefore, PsPreAction)
      else if event_type = ''node.finished'' \<and> is_tool_node
      then Some (''tool.result.received'', SkToolResult, PhAfter, PsAuditOnly)
      else if event_type = ''node.started'' then Some (''step.started'', SkUnknown, PhState, PsAuditOnly)
      else if event_type = ''node.finished'' then Some (''step.completed'', SkUnknown, PhAfter, PsAuditOnly)
      else if event_type = ''node.error'' \<and> is_tool_node
      then Some (''tool.call.failed'', SkToolCall, PhAfter, PsAuditOnly)
      else if event_type = ''node.error'' then Some (''step.failed'', SkErrorRecovery, PhAfter, PsAuditOnly)
      else if event_type = ''waiting'' then Some (''approval.requested'', SkApproval, PhBefore, PsPreAction)
      else None)"

definition map_crewai_event_type :: "string \<Rightarrow> event_mapping option" where
  "map_crewai_event_type = map_of
     [(''CrewKickoffStartedEvent'', (''run.started'', SkUnknown, PhState, PsAuditOnly)),
      (''CrewKickoffCompletedEvent'', (''run.completed'', SkUnknown, PhState, PsAuditOnly)),
      (''CrewKickoffFailedEvent'', (''run.failed'', SkErrorRecovery, PhState, PsAuditOnly)),
      (''TaskStartedEvent'', (''step.started'', SkUnknown, PhState, PsAuditOnly)),
      (''TaskCompletedEvent'', (''step.completed'', SkUnknown, PhAfter, PsAuditOnly)),
      (''ToolUsageStartedEvent'', (''tool.call.requested'', SkToolCall, PhBefore, PsPreAction)),
      (''ToolUsageFinishedEvent'', (''tool.result.received'', SkToolResult, PhAfter, PsAuditOnly)),
      (''ToolUsageErrorEvent'', (''tool.call.failed'', SkToolCall, PhAfter, PsAuditOnly))]"

definition map_mastra_event_type :: "string \<Rightarrow> event_mapping option" where
  "map_mastra_event_type = map_of
     [(''workflow.run.started'', (''run.started'', SkUnknown, PhState, PsAuditOnly)),
      (''workflow.run.completed'', (''run.completed'', SkUnknown, PhState, PsAuditOnly)),
      (''workflow.run.failed'', (''run.failed'', SkErrorRecovery, PhState, PsAuditOnly)),
      (''workflow.step.started'', (''step.started'', SkUnknown, PhState, PsAuditOnly)),
      (''workflow.step.completed'', (''step.completed'', SkUnknown, PhAfter, PsAuditOnly)),
      (''tool.call.started'', (''tool.call.requested'', SkToolCall, PhBefore, PsPreAction)),
      (''tool.call.completed'', (''tool.result.received'', SkToolResult, PhAfter, PsAuditOnly)),
      (''llm.call.started'', (''llm.call.started'', SkLlmCall, PhBefore, PsPreAction)),
      (''llm.call.completed'', (''llm.call.completed'', SkLlmCall, PhAfter, PsAuditOnly)),
      (''checkpoint.created'', (''checkpoint.created'', SkCheckpoint, PhState, PsAuditOnly))]"

section \<open>Metadata\<close>

text \<open>\<open>entry(key).or_insert(v)\<close>.\<close>

definition or_insert :: "string \<Rightarrow> json \<Rightarrow> json_object \<Rightarrow> json_object" where
  "or_insert k v m = (if map_of m k = None then map_insert k v m else m)"

definition raw_string :: "agent_event_input \<Rightarrow> string \<Rightarrow> string option" where
  "raw_string event key = Option.bind (map_of (ei_raw_fields event) key) as_str"

definition fill_option :: "string option \<Rightarrow> string option \<Rightarrow> string option" where
  "fill_option target v = (if target = None then v else target)"

definition metadata_insert_string :: "string \<Rightarrow> string option \<Rightarrow> agent_event_input \<Rightarrow> agent_event_input" where
  "metadata_insert_string key v event =
     (case v of
        None \<Rightarrow> event
      | Some s \<Rightarrow> event\<lparr>ei_metadata := JObject (or_insert key (JString s) (forced_object (ei_metadata event)))\<rparr>)"

definition enrich_adapter_metadata :: "agent_event_source \<Rightarrow> string \<Rightarrow> agent_event_input \<Rightarrow> agent_event_input" where
  "enrich_adapter_metadata source raw_event_type event =
     (let m = or_insert ''rawEventType'' (JString raw_event_type)
                (or_insert ''framework'' (JString (event_source_str source)) (forced_object (ei_metadata event))) in
      event\<lparr>ei_metadata := JObject (case ei_name event of
         Some name \<Rightarrow> or_insert ''rawName'' (JString name) m | None \<Rightarrow> m)\<rparr>)"

definition ALLOWLIST :: "string list" where
  "ALLOWLIST = [''frameworkVersion'', ''rawEventType'', ''rawEventName'', ''traceId'', ''trace_id'', ''spanId'', ''span_id'',
     ''executionId'', ''execution_id'', ''workflowId'', ''workflow_id'', ''nodeId'', ''node_id'', ''taskId'', ''task_id'',
     ''toolName'', ''tool_name'', ''sequence'']"

definition copy_allowlisted_raw_fields_to_metadata :: "agent_event_input \<Rightarrow> agent_event_input" where
  "copy_allowlisted_raw_fields_to_metadata event =
     event\<lparr>ei_metadata := JObject (fold
       (\<lambda>key m. case map_of (ei_raw_fields event) key of Some v \<Rightarrow> or_insert key v m | None \<Rightarrow> m)
       ALLOWLIST (forced_object (ei_metadata event)))\<rparr>"

section \<open>Adapters\<close>

definition set_mapping :: "event_mapping \<Rightarrow> step_source \<Rightarrow> confidence \<Rightarrow> agent_event_input \<Rightarrow> agent_event_input" where
  "set_mapping mapping source confidence event =
     (case mapping of (event_type, kind, phase, stage) \<Rightarrow>
        event\<lparr>ei_event_type := event_type, ei_step_kind := Some kind, ei_event_phase := phase,
              ei_policy_stage := stage, ei_step_source := source, ei_step_confidence := confidence\<rparr>)"

definition apply_unknown_heuristic_phase_and_stage :: "agent_event_input \<Rightarrow> agent_event_input" where
  "apply_unknown_heuristic_phase_and_stage event =
     (let event_type = ei_event_type event in
      if event_type \<in> set [''tool.call.requested'', ''llm.call.started'', ''approval.requested'']
      then event\<lparr>ei_event_phase := PhBefore, ei_policy_stage := PsPreAction\<rparr>
      else if event_type = ''checkpoint.created''
      then event\<lparr>ei_event_phase := PhState, ei_policy_stage := PsAuditOnly\<rparr>
      else if ends_with ''.completed'' event_type
      then event\<lparr>ei_event_phase := PhAfter, ei_policy_stage := PsAuditOnly\<rparr>
      else event)"

definition finish_framework_event :: "agent_event_source \<Rightarrow> string \<Rightarrow> agent_event_input \<Rightarrow> agent_event_input" where
  "finish_framework_event source raw_event_type event =
     copy_allowlisted_raw_fields_to_metadata (enrich_adapter_metadata source raw_event_type event)"

definition adapt_unknown_event :: "agent_event_source \<Rightarrow> agent_event_input \<Rightarrow> agent_event_input" where
  "adapt_unknown_event source event =
     (let event = (if source = EsUnknown then event\<lparr>ei_event_source_trust := EtSelfReported\<rparr> else event);
          raw_event_type = ei_event_type event;
          event = (case map_unknown_event_type raw_event_type of
             Some (event_type, kind) \<Rightarrow>
               apply_unknown_heuristic_phase_and_stage
                 (event\<lparr>ei_event_type := event_type, ei_step_kind := Some kind, ei_step_source := SsHeuristic,
                        ei_step_confidence := CfMedium\<rparr>)
           | None \<Rightarrow>
               event\<lparr>ei_event_type := ''unknown'', ei_step_kind := Some SkUnknown, ei_step_source := SsHeuristic,
                     ei_step_confidence := CfLow, ei_event_phase := PhUnknown, ei_policy_stage := PsAuditOnly\<rparr>) in
      copy_allowlisted_raw_fields_to_metadata (enrich_adapter_metadata source raw_event_type event))"

definition adapt_langgraph_event :: "agent_event_input \<Rightarrow> agent_event_input" where
  "adapt_langgraph_event event =
     (let raw_event_type = ei_event_type event;
          event = (case map_langgraph_event_type raw_event_type of
             Some mapping \<Rightarrow> set_mapping mapping SsRuntime CfHigh event | None \<Rightarrow> event);
          event = (if ei_graph_node event = None
             then event\<lparr>ei_graph_node :=
                (case Option.bind (get ''langgraph_node'' (ei_metadata event)) as_str of
                   Some node \<Rightarrow> Some node | None \<Rightarrow> ei_name event)\<rparr>
             else event) in
      copy_allowlisted_raw_fields_to_metadata (enrich_adapter_metadata EsLangGraph raw_event_type event))"

definition adapt_openai_agents_event :: "agent_event_input \<Rightarrow> agent_event_input" where
  "adapt_openai_agents_event event =
     (let run = raw_string event ''trace_id'';
          step = (case raw_string event ''span_id'' of Some s \<Rightarrow> Some s | None \<Rightarrow> raw_string event ''item_id'');
          parent = raw_string event ''parent_id'';
          event = event\<lparr>ei_run_id := fill_option (ei_run_id event) run, ei_step_id := fill_option (ei_step_id event) step,
                        ei_parent_step_id := fill_option (ei_parent_step_id event) parent\<rparr>;
          raw_event_type = ei_event_type event in
      case map_openai_agents_event_type raw_event_type of
        None \<Rightarrow> adapt_unknown_event EsOpenAiAgents event
      | Some mapping \<Rightarrow>
          (let event = set_mapping mapping SsRuntime CfHigh event;
               event = (if is_openai_agents_tool_metadata_event raw_event_type
                        then metadata_insert_string ''tool_name'' (ei_name event) event else event) in
           finish_framework_event EsOpenAiAgents raw_event_type event))"

definition adapt_n8n_event :: "agent_event_input \<Rightarrow> agent_event_input" where
  "adapt_n8n_event event =
     (let event = event\<lparr>ei_agent_id_external := fill_option (ei_agent_id_external event) (raw_string event ''workflowId''),
                        ei_run_id := fill_option (ei_run_id event) (raw_string event ''executionId''),
                        ei_step_id := fill_option (ei_step_id event) (raw_string event ''nodeId''),
                        ei_graph_node := fill_option (ei_graph_node event) (raw_string event ''nodeName'')\<rparr>;
          event = metadata_insert_string ''node_type'' (raw_string event ''nodeType'') event;
          raw_event_type = ei_event_type event in
      case map_n8n_event_type raw_event_type (raw_string event ''nodeType'') of
        None \<Rightarrow> adapt_unknown_event EsN8n event
      | Some mapping \<Rightarrow> finish_framework_event EsN8n raw_event_type (set_mapping mapping SsRuntime CfHigh event))"

definition adapt_crewai_event :: "agent_event_input \<Rightarrow> agent_event_input" where
  "adapt_crewai_event event =
     (let event = event\<lparr>ei_run_id := fill_option (ei_run_id event) (raw_string event ''crew_id''),
                        ei_step_id := fill_option (ei_step_id event) (raw_string event ''task_id'')\<rparr>;
          event = metadata_insert_string ''tool_name'' (raw_string event ''tool_name'') event;
          raw_event_type = ei_event_type event in
      case map_crewai_event_type raw_event_type of
        None \<Rightarrow> adapt_unknown_event EsCrewAi event
      | Some mapping \<Rightarrow> finish_framework_event EsCrewAi raw_event_type (set_mapping mapping SsRuntime CfHigh event))"

definition adapt_mastra_event :: "agent_event_input \<Rightarrow> agent_event_input" where
  "adapt_mastra_event event =
     (let event = event\<lparr>ei_run_id := fill_option (ei_run_id event) (raw_string event ''traceId''),
                        ei_step_id := fill_option (ei_step_id event) (raw_string event ''spanId'')\<rparr>;
          event = metadata_insert_string ''tool_name'' (raw_string event ''toolName'') event;
          raw_event_type = ei_event_type event in
      case map_mastra_event_type raw_event_type of
        None \<Rightarrow> adapt_unknown_event EsMastra event
      | Some mapping \<Rightarrow> finish_framework_event EsMastra raw_event_type (set_mapping mapping SsRuntime CfHigh event))"

fun adapt_agent_event :: "agent_event_source \<Rightarrow> agent_event_input \<Rightarrow> agent_event_input" where
  "adapt_agent_event EsAlephant event = copy_allowlisted_raw_fields_to_metadata (event\<lparr>ei_source := Some EsAlephant\<rparr>)"
| "adapt_agent_event EsLangGraph event = adapt_langgraph_event (event\<lparr>ei_source := Some EsLangGraph\<rparr>)"
| "adapt_agent_event EsOpenAiAgents event = adapt_openai_agents_event (event\<lparr>ei_source := Some EsOpenAiAgents\<rparr>)"
| "adapt_agent_event EsN8n event = adapt_n8n_event (event\<lparr>ei_source := Some EsN8n\<rparr>)"
| "adapt_agent_event EsCrewAi event = adapt_crewai_event (event\<lparr>ei_source := Some EsCrewAi\<rparr>)"
| "adapt_agent_event EsMastra event = adapt_mastra_event (event\<lparr>ei_source := Some EsMastra\<rparr>)"
| "adapt_agent_event EsUnknown event = adapt_unknown_event EsUnknown (event\<lparr>ei_source := Some EsUnknown\<rparr>)"

section \<open>Lemmas\<close>

lemma map_of_or_insert:
  "map_of (or_insert k v m) x = (if x = k \<and> map_of m k = None then Some v else map_of m x)"
  by (simp add: or_insert_def)

lemma forced_object_JObject [simp]: "forced_object (JObject m) = m"
  by (simp add: forced_object_def)

text \<open>No entry of the reported metadata is lost or replaced.\<close>

definition metadata_kept :: "agent_event_input \<Rightarrow> agent_event_input \<Rightarrow> bool" where
  "metadata_kept ev ev' \<longleftrightarrow> map_of (forced_object (ei_metadata ev)) \<subseteq>\<^sub>m map_of (forced_object (ei_metadata ev'))"

lemma or_insert_le: "map_of m \<subseteq>\<^sub>m map_of m' \<Longrightarrow> map_of m \<subseteq>\<^sub>m map_of (or_insert k v m')"
  by (auto simp: map_le_def map_of_or_insert dom_def)

lemma copy_fold_le:
  "map_of m \<subseteq>\<^sub>m map_of m' \<Longrightarrow>
     map_of m \<subseteq>\<^sub>m map_of (fold (\<lambda>key m. case map_of raw key of Some v \<Rightarrow> or_insert key v m | None \<Rightarrow> m) keys m')"
  by (induction keys arbitrary: m') (auto split: option.split intro: or_insert_le)

lemma metadata_kept_same: "ei_metadata ev' = ei_metadata ev \<Longrightarrow> metadata_kept ev ev'"
  by (simp add: metadata_kept_def)

lemma metadata_kept_steps:
  assumes "metadata_kept ev e"
  shows "metadata_kept ev (copy_allowlisted_raw_fields_to_metadata e)"
    and "metadata_kept ev (enrich_adapter_metadata source t e)"
    and "metadata_kept ev (metadata_insert_string k v e)"
    and "metadata_kept ev (finish_framework_event source t e)"
    and "metadata_kept ev (adapt_unknown_event source e)"
proof -
  have copy: "metadata_kept ev (copy_allowlisted_raw_fields_to_metadata e)" if "metadata_kept ev e" for e
    using that by (simp add: metadata_kept_def copy_allowlisted_raw_fields_to_metadata_def copy_fold_le)
  have enrich: "metadata_kept ev (enrich_adapter_metadata source t e)" if "metadata_kept ev e" for e source t
    using that by (simp add: metadata_kept_def enrich_adapter_metadata_def Let_def or_insert_le split: option.split)
  have up: "metadata_kept ev e'" if "metadata_kept ev e" "ei_metadata e' = ei_metadata e" for e e'
    using that by (simp add: metadata_kept_def)
  show "metadata_kept ev (copy_allowlisted_raw_fields_to_metadata e)" "metadata_kept ev (enrich_adapter_metadata source t e)"
    by (intro copy enrich assms)+
  show "metadata_kept ev (metadata_insert_string k v e)"
    using assms by (simp add: metadata_kept_def metadata_insert_string_def or_insert_le split: option.split)
  show "metadata_kept ev (finish_framework_event source t e)"
    unfolding finish_framework_event_def by (intro copy enrich assms)
  show "metadata_kept ev (adapt_unknown_event source e)"
    unfolding adapt_unknown_event_def Let_def
    by (intro copy enrich up [OF assms])
      (simp add: apply_unknown_heuristic_phase_and_stage_def Let_def split: option.split)
qed

lemma ei_metadata_set_mapping [simp]: "ei_metadata (set_mapping mapping source c ev) = ei_metadata ev"
  by (simp add: set_mapping_def split: prod.split)

lemma adapt_keeps_metadata: "metadata_kept ev (adapt_agent_event source ev)"
proof -
  note peel = metadata_kept_steps metadata_kept_same
  note adapters = adapt_langgraph_event_def adapt_openai_agents_event_def adapt_n8n_event_def adapt_crewai_event_def
    adapt_mastra_event_def Let_def
  have up: "metadata_kept ev (set_mapping mapping q c e)" if "metadata_kept ev e" for mapping q c e
    using that by (simp add: metadata_kept_def)
  show ?thesis
    by (cases source) (simp_all add: adapters peel up split: option.split)
qed

text \<open>What a client claims about an event: when it happens, how sure it is of the step, and the kind of the step.\<close>

definition with_claims ::
    "event_phase \<Rightarrow> policy_stage \<Rightarrow> confidence \<Rightarrow> step_source \<Rightarrow> step_kind option \<Rightarrow> agent_event_input \<Rightarrow> agent_event_input" where
  "with_claims phase stage c q kind ev =
     ev\<lparr>ei_event_phase := phase, ei_policy_stage := stage, ei_step_confidence := c, ei_step_source := q, ei_step_kind := kind\<rparr>"

definition needs_gate :: "agent_event_input \<Rightarrow> bool" where
  "needs_gate ev \<longleftrightarrow> ei_event_phase ev = PhBefore \<and> ei_policy_stage ev = PsPreAction
     \<and> ei_step_confidence ev \<in> {CfMedium, CfHigh}"

definition announces_action :: "string \<Rightarrow> bool" where
  "announces_action event_type \<longleftrightarrow>
     event_type \<in> set [''tool.call.requested'', ''llm.call.started'', ''approval.requested'', ''handoff.requested'']"

lemma with_claims_simps [simp]:
  "ei_event_type (with_claims p s c q k ev) = ei_event_type ev"
  "ei_metadata (with_claims p s c q k ev) = ei_metadata ev"
  "ei_raw_fields (with_claims p s c q k ev) = ei_raw_fields ev"
  "ei_name (with_claims p s c q k ev) = ei_name ev"
  by (simp_all add: with_claims_def)

lemma set_mapping_with_claims:
  "set_mapping mapping source c' (with_claims p s c q k ev) = set_mapping mapping source c' ev"
  by (simp add: set_mapping_def with_claims_def split: prod.split)

lemma unknown_types:
  "map_unknown_event_type t = Some (e, k) \<Longrightarrow>
     e = ''tool.call.completed'' \<or> e = ''tool.call.requested'' \<or> e = ''llm.call.completed'' \<or> e = ''llm.call.started''
     \<or> e = ''approval.requested'' \<or> e = ''checkpoint.created'' \<or> e = ''step.completed''"
  by (auto simp: map_unknown_event_type_def Let_def split: if_splits)

text \<open>The phase and stage that the heuristics give to a type.\<close>

definition heuristic_stage :: "string \<Rightarrow> event_phase \<times> policy_stage" where
  "heuristic_stage t = (if announces_action t then (PhBefore, PsPreAction)
     else if t = ''checkpoint.created'' then (PhState, PsAuditOnly) else (PhAfter, PsAuditOnly))"

lemma heuristic_stage_cases:
  assumes "map_unknown_event_type t = Some (e, k)"
  shows "heuristic_stage e = (PhBefore, PsPreAction) \<and> e \<in> set [''tool.call.requested'', ''llm.call.started'', ''approval.requested'']
    \<or> heuristic_stage e = (PhState, PsAuditOnly) \<and> e = ''checkpoint.created''
        \<and> e \<notin> set [''tool.call.requested'', ''llm.call.started'', ''approval.requested'']
    \<or> heuristic_stage e = (PhAfter, PsAuditOnly) \<and> ends_with ''.completed'' e \<and> e \<noteq> ''checkpoint.created''
        \<and> e \<notin> set [''tool.call.requested'', ''llm.call.started'', ''approval.requested'']"
  using unknown_types [OF assms] by (elim disjE; hypsubst; code_simp)

lemma heuristic_stage_applied:
  assumes "map_unknown_event_type t = Some (ei_event_type ev, k)"
  shows "apply_unknown_heuristic_phase_and_stage ev
    = ev\<lparr>ei_event_phase := fst (heuristic_stage (ei_event_type ev)), ei_policy_stage := snd (heuristic_stage (ei_event_type ev))\<rparr>"
  unfolding apply_unknown_heuristic_phase_and_stage_def Let_def
  using heuristic_stage_cases [OF assms] by (elim disjE conjE) (simp_all only: if_True if_False fst_conv snd_conv simp_thms)

lemma adapt_unknown_with_claims:
  "adapt_unknown_event source (with_claims p s c q k ev) = adapt_unknown_event source ev"
proof (cases "map_unknown_event_type (ei_event_type ev)")
  case None
  then show ?thesis by (simp add: adapt_unknown_event_def with_claims_def)
next
  case (Some mapping)
  then obtain e kind where m: "map_unknown_event_type (ei_event_type ev) = Some (e, kind)" by (cases mapping) simp
  show ?thesis
    by (simp add: adapt_unknown_event_def with_claims_def m heuristic_stage_applied [where t = "ei_event_type ev" and k = kind])
qed

lemma with_claims_commutes:
  "with_claims p s c q k ev\<lparr>ei_source := src\<rparr> = with_claims p s c q k (ev\<lparr>ei_source := src\<rparr>)"
  by (simp add: with_claims_def)

text \<open>
  The adapters set phase, stage, confidence, origin and kind themselves, except for the source \<open>alephant\<close> and for
  the types that the table of LangGraph does not list.
\<close>

definition adapter_decides :: "agent_event_source \<Rightarrow> agent_event_input \<Rightarrow> bool" where
  "adapter_decides source ev \<longleftrightarrow>
     source \<noteq> EsAlephant \<and> (source = EsLangGraph \<longrightarrow> map_langgraph_event_type (ei_event_type ev) \<noteq> None)"

lemma adapt_with_claims:
  assumes "adapter_decides source ev"
  shows "adapt_agent_event source (with_claims p s c q k ev) = adapt_agent_event source ev"
proof -
  have fill: "with_claims p s c q k ev\<lparr>ei_run_id := a\<rparr> = with_claims p s c q k (ev\<lparr>ei_run_id := a\<rparr>)"
    "with_claims p s c q k ev\<lparr>ei_step_id := a\<rparr> = with_claims p s c q k (ev\<lparr>ei_step_id := a\<rparr>)"
    "with_claims p s c q k ev\<lparr>ei_parent_step_id := a\<rparr> = with_claims p s c q k (ev\<lparr>ei_parent_step_id := a\<rparr>)"
    "with_claims p s c q k ev\<lparr>ei_agent_id_external := a\<rparr> = with_claims p s c q k (ev\<lparr>ei_agent_id_external := a\<rparr>)"
    "with_claims p s c q k ev\<lparr>ei_graph_node := a\<rparr> = with_claims p s c q k (ev\<lparr>ei_graph_node := a\<rparr>)"
    "metadata_insert_string key v (with_claims p s c q k ev) = with_claims p s c q k (metadata_insert_string key v ev)"
    for a key v ev
    by (simp_all add: with_claims_def metadata_insert_string_def split: option.split)
  have sel: "raw_string (with_claims p s c q k ev) = raw_string ev" "ei_run_id (with_claims p s c q k ev) = ei_run_id ev"
    "ei_step_id (with_claims p s c q k ev) = ei_step_id ev" "ei_graph_node (with_claims p s c q k ev) = ei_graph_node ev"
    "ei_parent_step_id (with_claims p s c q k ev) = ei_parent_step_id ev"
    "ei_agent_id_external (with_claims p s c q k ev) = ei_agent_id_external ev" for ev
    by (simp_all add: with_claims_def raw_string_def fun_eq_iff)
  show ?thesis
  proof (cases "source = EsLangGraph")
    case True
    then obtain mapping where "map_langgraph_event_type (ei_event_type ev) = Some mapping"
      using assms by (auto simp: adapter_decides_def)
    moreover have "ei_event_type (with_claims p s c q k ev) = ei_event_type ev" by (simp add: with_claims_def)
    ultimately show ?thesis using True
      by (simp add: adapt_langgraph_event_def Let_def with_claims_commutes set_mapping_with_claims cong: option.case_cong)
  next
    case False
    then show ?thesis
      using assms unfolding adapter_decides_def
      by (cases source) (simp_all only: adapt_agent_event.simps with_claims_commutes adapt_openai_agents_event_def
          adapt_n8n_event_def adapt_crewai_event_def adapt_mastra_event_def Let_def sel fill with_claims_simps
          set_mapping_with_claims adapt_unknown_with_claims simp_thms)
  qed
qed

text \<open>The claims that the adapters take over.\<close>

definition claims_of :: "agent_event_input \<Rightarrow> event_phase \<times> policy_stage \<times> confidence \<times> step_source \<times> step_kind option" where
  "claims_of ev = (ei_event_phase ev, ei_policy_stage ev, ei_step_confidence ev, ei_step_source ev, ei_step_kind ev)"

lemma claims_kept: "\<not> adapter_decides source ev \<Longrightarrow> claims_of (adapt_agent_event source ev) = claims_of ev"
  unfolding adapter_decides_def de_Morgan_conj not_imp not_not
  by (elim disjE conjE) (simp_all add: adapt_langgraph_event_def copy_allowlisted_raw_fields_to_metadata_def
      enrich_adapter_metadata_def claims_of_def Let_def)

text \<open>The last steps of an adapter change the metadata only.\<close>

lemma gate_of_final:
  "needs_gate (finish_framework_event source t ev) = needs_gate ev"
  "ei_event_type (finish_framework_event source t ev) = ei_event_type ev"
  "needs_gate (copy_allowlisted_raw_fields_to_metadata (enrich_adapter_metadata source t ev)) = needs_gate ev"
  "ei_event_type (copy_allowlisted_raw_fields_to_metadata (enrich_adapter_metadata source t ev)) = ei_event_type ev"
  by (simp_all add: needs_gate_def finish_framework_event_def copy_allowlisted_raw_fields_to_metadata_def
      enrich_adapter_metadata_def Let_def)

text \<open>An entry of a table asks for the gate exactly when it announces an action.\<close>

definition mapping_gated :: "event_mapping \<Rightarrow> bool" where
  "mapping_gated mapping \<longleftrightarrow> (case mapping of (e, k, phase, stage) \<Rightarrow>
     (phase = PhBefore \<and> stage = PsPreAction \<longleftrightarrow> announces_action e))"

lemma set_mapping_gated:
  "mapping_gated mapping \<Longrightarrow> needs_gate (set_mapping mapping q CfHigh ev)
     \<longleftrightarrow> announces_action (ei_event_type (set_mapping mapping q CfHigh ev))"
  by (cases mapping) (simp add: needs_gate_def mapping_gated_def set_mapping_def)

lemma map_of_gated: "\<lbrakk>map_of table t = Some mapping; list_all (mapping_gated \<circ> snd) table\<rbrakk> \<Longrightarrow> mapping_gated mapping"
  by (auto dest!: map_of_SomeD simp: list_all_iff)

lemma tables_gated:
  "map_langgraph_event_type t = Some mapping \<Longrightarrow> mapping_gated mapping"
  "map_openai_agents_event_type t = Some mapping \<Longrightarrow> mapping_gated mapping"
  "map_crewai_event_type t = Some mapping \<Longrightarrow> mapping_gated mapping"
  "map_mastra_event_type t = Some mapping \<Longrightarrow> mapping_gated mapping"
  unfolding map_langgraph_event_type_def map_openai_agents_event_type_def map_crewai_event_type_def
    map_mastra_event_type_def
  by (erule map_of_gated, code_simp)+

lemma if_gated:
  "\<lbrakk>(if b then Some row else other) = Some mapping; mapping_gated row; other = Some mapping \<Longrightarrow> mapping_gated mapping\<rbrakk>
     \<Longrightarrow> mapping_gated mapping"
  by (cases b) simp_all

lemma n8n_gated: "map_n8n_event_type t n = Some mapping \<Longrightarrow> mapping_gated mapping"
  unfolding map_n8n_event_type_def Let_def by (erule if_gated, code_simp)+ simp

lemma unknown_gated:
  "needs_gate (adapt_unknown_event source ev) \<longleftrightarrow> announces_action (ei_event_type (adapt_unknown_event source ev))"
proof (cases "map_unknown_event_type (ei_event_type ev)")
  case None
  moreover have "\<not> announces_action ''unknown''" by code_simp
  ultimately show ?thesis by (simp add: adapt_unknown_event_def gate_of_final) (simp add: needs_gate_def)
next
  case (Some mapping)
  then obtain e k where m: "map_unknown_event_type (ei_event_type ev) = Some (e, k)" by (cases mapping) simp
  have "heuristic_stage e = (PhBefore, PsPreAction) \<longleftrightarrow> announces_action e" by (simp add: heuristic_stage_def)
  then show ?thesis
    by (simp add: adapt_unknown_event_def gate_of_final m heuristic_stage_applied [where t = "ei_event_type ev" and k = k])
      (simp add: needs_gate_def prod_eq_iff)
qed

lemma adapt_gated:
  assumes "adapter_decides source ev"
  shows "needs_gate (adapt_agent_event source ev) \<longleftrightarrow> announces_action (ei_event_type (adapt_agent_event source ev))"
proof -
  have keep: "needs_gate (metadata_insert_string key v e) = needs_gate e" "needs_gate (e\<lparr>ei_graph_node := g\<rparr>) = needs_gate e"
    "ei_event_type (metadata_insert_string key v e) = ei_event_type e" for key v g e
    by (simp_all add: metadata_insert_string_def needs_gate_def split: option.split)
  note adapters = adapt_langgraph_event_def adapt_openai_agents_event_def adapt_n8n_event_def adapt_crewai_event_def
    adapt_mastra_event_def Let_def
  note gates = gate_of_final set_mapping_gated tables_gated n8n_gated unknown_gated keep
  show ?thesis
    using assms unfolding adapter_decides_def by (cases source) (auto simp: adapters gates split: option.split)
qed

text \<open>Every adapter ends with an object, and identifiers that the client gives are never replaced.\<close>

lemma adapt_object: "\<exists>m. ei_metadata (adapt_agent_event source ev) = JObject m"
proof -
  have "\<exists>m. ei_metadata (copy_allowlisted_raw_fields_to_metadata e) = JObject m"
    "\<exists>m. ei_metadata (finish_framework_event q t e) = JObject m"
    "\<exists>m. ei_metadata (adapt_unknown_event q e) = JObject m" for e q t
    by (simp_all add: copy_allowlisted_raw_fields_to_metadata_def finish_framework_event_def adapt_unknown_event_def Let_def)
  then show ?thesis
    by (cases source) (auto simp: adapt_langgraph_event_def adapt_openai_agents_event_def adapt_n8n_event_def
        adapt_crewai_event_def adapt_mastra_event_def Let_def split: option.split)
qed

definition filled :: "'a option \<Rightarrow> 'a option \<Rightarrow> bool" where
  "filled given final \<longleftrightarrow> given = None \<or> final = given"

definition identifiers_kept :: "agent_event_input \<Rightarrow> agent_event_input \<Rightarrow> bool" where
  "identifiers_kept ev ev' \<longleftrightarrow>
     ei_event_id ev' = ei_event_id ev \<and> ei_tool_call_id ev' = ei_tool_call_id ev \<and> ei_handoff_id ev' = ei_handoff_id ev
     \<and> ei_attempt ev' = ei_attempt ev \<and> ei_sequence ev' = ei_sequence ev \<and> ei_timestamp ev' = ei_timestamp ev
     \<and> ei_input_hash ev' = ei_input_hash ev \<and> ei_agent_name ev' = ei_agent_name ev
     \<and> filled (ei_run_id ev) (ei_run_id ev')
     \<and> filled (ei_step_id ev) (ei_step_id ev')
     \<and> filled (ei_parent_step_id ev) (ei_parent_step_id ev')
     \<and> filled (ei_agent_id_external ev) (ei_agent_id_external ev')
     \<and> filled (ei_graph_node ev) (ei_graph_node ev')"

lemma identifiers_kept_steps:
  "identifiers_kept ev e \<Longrightarrow> identifiers_kept ev (copy_allowlisted_raw_fields_to_metadata e)"
  "identifiers_kept ev e \<Longrightarrow> identifiers_kept ev (enrich_adapter_metadata q t e)"
  "identifiers_kept ev e \<Longrightarrow> identifiers_kept ev (metadata_insert_string key v e)"
  "identifiers_kept ev e \<Longrightarrow> identifiers_kept ev (set_mapping mapping st c e)"
  "identifiers_kept ev e \<Longrightarrow> identifiers_kept ev (finish_framework_event q t e)"
  "identifiers_kept ev e \<Longrightarrow> identifiers_kept ev (adapt_unknown_event q e)"
  by (simp_all add: identifiers_kept_def copy_allowlisted_raw_fields_to_metadata_def enrich_adapter_metadata_def
      metadata_insert_string_def set_mapping_def finish_framework_event_def adapt_unknown_event_def
      apply_unknown_heuristic_phase_and_stage_def Let_def split: option.split prod.split)

lemma adapt_keeps_identifiers: "identifiers_kept ev (adapt_agent_event source ev)"
proof -
  have start: "identifiers_kept ev (ev\<lparr>ei_source := x\<rparr>)" for x by (simp add: identifiers_kept_def filled_def)
  have fill: "identifiers_kept ev (e\<lparr>ei_run_id := fill_option (ei_run_id ev) a, ei_step_id := fill_option (ei_step_id ev) b\<rparr>)"
    "identifiers_kept ev (e\<lparr>ei_run_id := fill_option (ei_run_id ev) a, ei_step_id := fill_option (ei_step_id ev) b,
       ei_parent_step_id := fill_option (ei_parent_step_id ev) c\<rparr>)"
    "identifiers_kept ev (e\<lparr>ei_agent_id_external := fill_option (ei_agent_id_external ev) c,
       ei_run_id := fill_option (ei_run_id ev) a, ei_step_id := fill_option (ei_step_id ev) b,
       ei_graph_node := fill_option (ei_graph_node ev) d\<rparr>)"
    if "identifiers_kept ev e" for e a b c d
    using that by (simp_all add: identifiers_kept_def filled_def fill_option_def)
  have node: "identifiers_kept ev (e\<lparr>ei_graph_node := x\<rparr>)" if "identifiers_kept ev e" "ei_graph_node e = None" for e x
    using that by (auto simp: identifiers_kept_def filled_def)
  show ?thesis
    by (cases source)
      (auto simp: adapt_langgraph_event_def adapt_openai_agents_event_def adapt_n8n_event_def adapt_crewai_event_def
        adapt_mastra_event_def Let_def start fill node identifiers_kept_steps split: option.split)
qed

section \<open>Properties\<close>

text \<open>
  Property C15. For an event of OpenAI Agents, n8n, CrewAI, Mastra or an unknown source, and for the types that the
  table of LangGraph lists, the phase, the policy stage, the confidence, the origin and the kind of the step that the
  client claims have no effect on the adapted event, and the adapted event is one for the policy gate exactly when its
  type announces an action. For all other events, those of the source \<open>alephant\<close> and the unlisted types of LangGraph,
  these claims are taken over as they are. For every source no entry of the reported metadata is lost or replaced, and
  no identifier that the client gave is replaced.
\<close>

theorem event_claims_overridden:
  shows "(if adapter_decides source ev
     then adapt_agent_event source (with_claims p s c q k ev) = adapt_agent_event source ev
       \<and> (needs_gate (adapt_agent_event source ev) \<longleftrightarrow> announces_action (ei_event_type (adapt_agent_event source ev)))
     else claims_of (adapt_agent_event source ev) = claims_of ev)
    \<and> map_of (forced_object (ei_metadata ev)) \<subseteq>\<^sub>m (\<lambda>key. get key (ei_metadata (adapt_agent_event source ev)))
    \<and> identifiers_kept ev (adapt_agent_event source ev)"
proof -
  obtain m where m: "ei_metadata (adapt_agent_event source ev) = JObject m" using adapt_object by blast
  have "(\<lambda>key. get key (JObject m)) = map_of m" by (simp add: fun_eq_iff)
  then show ?thesis
    using adapt_with_claims adapt_gated claims_kept adapt_keeps_identifiers adapt_keeps_metadata [of ev source]
    by (simp add: metadata_kept_def m)
qed

definition ex_reported :: agent_event_input where
  "ex_reported = \<lparr>ei_source = None, ei_framework = None, ei_version = ''1'', ei_event_id = None,
     ei_event_type = ''node.started'', ei_event_phase = PhAfter, ei_policy_stage = PsAuditOnly,
     ei_event_source_trust = EtSelfReported, ei_sequence = None, ei_name = None, ei_agent_name = None,
     ei_agent_id_external = None, ei_run_id = Some ''r1'', ei_step_id = None, ei_parent_step_id = None,
     ei_tool_call_id = None, ei_handoff_id = None, ei_graph_node = None, ei_step_kind = None,
     ei_step_source = SsUnknown, ei_step_confidence = CfUnknown, ei_attempt = None, ei_input_hash = None,
     ei_timestamp = None, ei_metadata = JObject [(''tool_name'', JString ''search'')],
     ei_raw_fields = [(''nodeType'', JString ''Tool''), (''executionId'', JString ''x''), (''nodeId'', JString ''n1'')]\<rparr>"

theorem event_claims_overridden_witness:
  "needs_gate (adapt_agent_event EsN8n (with_claims PhAfter PsAuditOnly CfLow SsUnknown None ex_reported))
   \<and> ei_event_type (adapt_agent_event EsN8n ex_reported) = ''tool.call.requested''
   \<and> get ''tool_name'' (ei_metadata (adapt_agent_event EsN8n ex_reported)) = Some (JString ''search'')
   \<and> ei_run_id (adapt_agent_event EsN8n ex_reported) = Some ''r1''
   \<and> ei_step_id (adapt_agent_event EsN8n ex_reported) = Some ''n1''"
proof -
  have "adapter_decides EsN8n ex_reported" by (simp add: adapter_decides_def)
  note T = event_claims_overridden [of EsN8n ex_reported PhAfter PsAuditOnly CfLow SsUnknown None] this
  have "announces_action (ei_event_type (adapt_agent_event EsN8n ex_reported))"
    "ei_event_type (adapt_agent_event EsN8n ex_reported) = ''tool.call.requested''"
    "ei_step_id (adapt_agent_event EsN8n ex_reported) = Some ''n1''"
    "map_of (forced_object (ei_metadata ex_reported)) ''tool_name'' = Some (JString ''search'')"
    "ei_run_id ex_reported = Some ''r1''"
    by code_simp+
  moreover from this(4) T(1) have "get ''tool_name'' (ei_metadata (adapt_agent_event EsN8n ex_reported)) = Some (JString ''search'')"
    unfolding map_le_def by (metis domI)
  ultimately show ?thesis
    using T by (simp add: identifiers_kept_def filled_def)
qed

end
