(* ===== verification/Agent_Events.thy ===== *)
theory Agent_Events
  imports Step_State Event_Adapter
begin

text \<open>
  The service that takes the events of agents (\<open>agent/service.rs\<close>): a batch is read, every event is adapted,
  normalized, checked for conflicts, put before the policy gate when it announces an action, and given to the sink.
  The first failure ends the batch. The JSON library, the policy service, Redis, the sink, the clock and the source of
  identifiers are parameters.
\<close>

section \<open>Errors and limits\<close>

datatype agent_service_error =
    EvDisabled | EvMethodNotAllowed | EvBatchTooLarge | EvPayloadTooLarge | EvMetadataTooLarge | EvInvalidJson
  | EvMissingAuth | EvSinkFailed | EvStepConflict | EvContextConflict | EvPolicyUnavailable

fun event_error_code :: "agent_service_error \<Rightarrow> string" where
  "event_error_code EvDisabled = ''disabled''"
| "event_error_code EvMethodNotAllowed = ''method_not_allowed''"
| "event_error_code EvBatchTooLarge = ''batch_too_large''"
| "event_error_code EvPayloadTooLarge = ''payload_too_large''"
| "event_error_code EvMetadataTooLarge = ''metadata_too_large''"
| "event_error_code EvInvalidJson = ''invalid_json''"
| "event_error_code EvMissingAuth = ''missing_auth''"
| "event_error_code EvSinkFailed = ''sink_failed''"
| "event_error_code EvStepConflict = ''step_conflict''"
| "event_error_code EvContextConflict = ''context_conflict''"
| "event_error_code EvPolicyUnavailable = ''policy_unavailable''"

fun event_error_message :: "agent_service_error \<Rightarrow> string" where
  "event_error_message EvDisabled = ''agent gateway is disabled''"
| "event_error_message EvMethodNotAllowed = ''agent event route only supports POST''"
| "event_error_message EvBatchTooLarge = ''agent event batch is too large''"
| "event_error_message EvPayloadTooLarge = ''agent event payload is too large''"
| "event_error_message EvMetadataTooLarge = ''agent event metadata is too large''"
| "event_error_message EvInvalidJson = ''agent event payload is invalid''"
| "event_error_message EvMissingAuth = ''agent event authentication context is missing''"
| "event_error_message EvSinkFailed = ''agent event sink failed''"
| "event_error_message EvStepConflict = ''agent step conflict''"
| "event_error_message EvContextConflict = ''agent context conflict''"
| "event_error_message EvPolicyUnavailable = ''agent policy unavailable''"

definition validate_event_limits :: "nat \<Rightarrow> nat \<Rightarrow> nat \<Rightarrow> nat \<Rightarrow> agent_service_error + unit" where
  "validate_event_limits event_count payload_bytes max_batch max_bytes =
     (if max_batch < event_count then Err EvBatchTooLarge
      else if max_bytes < payload_bytes then Err EvPayloadTooLarge
      else Ok ())"

definition validate_metadata_limit :: "json_printer \<Rightarrow> json \<Rightarrow> nat \<Rightarrow> agent_service_error + unit" where
  "validate_metadata_limit to_vec metadata max_metadata_bytes =
     (if max_metadata_bytes < length (to_vec metadata) then Err EvMetadataTooLarge else Ok ())"

definition should_validate_policy_for_event :: "agent_event \<Rightarrow> bool" where
  "should_validate_policy_for_event ev \<longleftrightarrow>
     ev_event_phase ev = PhBefore \<and> ev_policy_stage ev = PsPreAction \<and> ev_step_confidence ev \<in> {CfMedium, CfHigh}"

section \<open>Metadata of the decision\<close>

definition available_original_key :: "json_object \<Rightarrow> string \<Rightarrow> string" where
  "available_original_key m base = (if map_of m base = None then base else numbered_original_key base 1 m)"

definition preserve_original_field :: "string \<Rightarrow> string \<Rightarrow> json_object \<Rightarrow> json_object" where
  "preserve_original_field source_key base m =
     (case map_of m source_key of
        None \<Rightarrow> m
      | Some existing \<Rightarrow> (let rest = swap_remove source_key m in map_insert (available_original_key rest base) existing rest))"

definition policy_unavailable_value :: json where
  "policy_unavailable_value =
     JObject [(''allowed'', JNull), (''policyDecision'', JString ''unavailable''),
       (''reason'', JString ''policy_unavailable''), (''blocked_by'', JString ''agent.policy.unavailable''),
       (''policy_id'', JString []), (''policy_scope'', JString ''AGENT_POLICY_SCOPE_NONE''),
       (''snapshot_revision'', JNumber (PosInt 0))]"

definition attach_policy_unavailable_audit :: "agent_event \<Rightarrow> agent_event" where
  "attach_policy_unavailable_audit ev =
     (let m = forced_object (ev_metadata ev);
          m = preserve_original_field ''policy'' ''policy_original'' m;
          m = preserve_original_field ''status'' ''status_original'' m;
          m = preserve_original_field ''severity'' ''severity_original'' m;
          m = map_insert ''status'' (JString ''failed'') m;
          m = map_insert ''severity'' (JString ''error'') m;
          m = map_insert ''policy'' policy_unavailable_value m in
      ev\<lparr>ev_event_type := ''policy_unavailable'', ev_metadata := JObject m\<rparr>)"

definition compact_policy_unavailable_audit :: json where
  "compact_policy_unavailable_audit =
     JObject [(''status'', JString ''failed''), (''severity'', JString ''error''), (''metadata_truncated'', JBool True),
       (''metadata_truncation_reason'', JString ''agent_policy_unavailable_metadata_limit''),
       (''policy'', policy_unavailable_value)]"

definition attach_sink_status_to_metadata :: "json \<Rightarrow> string \<Rightarrow> json" where
  "attach_sink_status_to_metadata metadata sink_status =
     JObject (map_insert ''sinkStatus'' (JString sink_status) (forced_object metadata))"

definition with_sink_status :: "policy_decision \<Rightarrow> string \<Rightarrow> policy_decision" where
  "with_sink_status d sink_status = d\<lparr>pd_sink_status := sink_status\<rparr>"

section \<open>Normalization\<close>

definition attach_agent_name_conflict_metadata :: "json \<Rightarrow> name_conflict \<Rightarrow> json" where
  "attach_agent_name_conflict_metadata metadata c =
     JObject (map_insert ''agentNameConflict'' (JBool True)
       (map_insert ''selfReportedAgentNameSource'' (JString (cf_source c))
         (map_insert ''selfReportedAgentName'' (JString (cf_self_reported c))
           (map_insert ''registeredAgentName'' (JString (cf_registered c)) (forced_object metadata)))))"

text \<open>\<open>fresh\<close> and \<open>now\<close> are the UUID and the time that the code takes for the event.\<close>

definition normalize_event ::
    "uuid \<Rightarrow> int \<Rightarrow> agent_event_input \<Rightarrow> auth_context \<Rightarrow> metadata_redaction \<Rightarrow> agent_context option \<Rightarrow> policy_mode
       \<Rightarrow> agent_event" where
  "normalize_event fresh now ev auth redaction header mode =
     (let metadata = (if redaction = RedactionBasic then redact_metadata (ei_metadata ev) else ei_metadata ev);
          name = resolve_agent_name (registered_agent_name auth) (ei_agent_name ev) (Option.bind header ctx_agent_name);
          metadata = (case rn_conflict name of
             Some c \<Rightarrow> attach_agent_name_conflict_metadata metadata c | None \<Rightarrow> metadata) in
      \<lparr>ev_version = ei_version ev,
       ev_event_id = (case ei_event_id ev of Some i \<Rightarrow> i | None \<Rightarrow> ''evt_'' @ uuid_string fresh),
       ev_event_type = ei_event_type ev,
       ev_event_source = (case ei_source ev of Some s \<Rightarrow> s | None \<Rightarrow> EsUnknown),
       ev_event_phase = ei_event_phase ev,
       ev_policy_stage = ei_policy_stage ev,
       ev_policy_mode = mode,
       ev_event_source_trust = ei_event_source_trust ev,
       ev_sequence = ei_sequence ev,
       ev_observed_at = now,
       ev_timestamp = ei_timestamp ev,
       ev_name = ei_name ev,
       ev_alephant_agent_name = rn_name name,
       ev_alephant_agent_name_source = rn_source name,
       ev_alephant_agent_trust_level = map_option trust_level_str (rn_trust_level name),
       ev_workspace_id = uuid_string (org_id auth),
       ev_virtual_key_id = auth_virtual_key_id auth,
       ev_agent_id_external = ei_agent_id_external ev,
       ev_agent_uid = None,
       ev_run_id = ei_run_id ev,
       ev_step_id = ei_step_id ev,
       ev_parent_step_id = ei_parent_step_id ev,
       ev_tool_call_id = ei_tool_call_id ev,
       ev_handoff_id = ei_handoff_id ev,
       ev_graph_node = ei_graph_node ev,
       ev_step_kind = ei_step_kind ev,
       ev_step_source = (if ei_step_source ev = SsUnknown then SsHeuristic else ei_step_source ev),
       ev_step_confidence = (if ei_step_confidence ev = CfUnknown then CfLow else ei_step_confidence ev),
       ev_trust_level = (case rn_trust_level name of Some t \<Rightarrow> t | None \<Rightarrow> TlSelfReported),
       ev_context_conflict = False,
       ev_step_id_conflict = False,
       ev_attempt = ei_attempt ev,
       ev_input_hash = ei_input_hash ev,
       ev_metadata = metadata,
       ev_billing_mirror_trusted = False\<rparr>)"

section \<open>Conflicts\<close>

text \<open>\<open>optional_str_conflicts\<close> and \<open>optional_value_conflicts\<close>.\<close>

definition optional_value_conflicts :: "'a option \<Rightarrow> 'a option \<Rightarrow> bool" where
  "optional_value_conflicts left right =
     (case (left, right) of (Some a, Some b) \<Rightarrow> a \<noteq> b | _ \<Rightarrow> False)"

definition context_fields_conflict :: "agent_context \<Rightarrow> agent_event_input \<Rightarrow> bool" where
  "context_fields_conflict header ev \<longleftrightarrow>
     optional_value_conflicts (agent_id_external header) (ei_agent_id_external ev)
     \<or> optional_value_conflicts (ctx_run_id header) (ei_run_id ev)
     \<or> optional_value_conflicts (ctx_step_id header) (ei_step_id ev)
     \<or> optional_value_conflicts (ctx_parent_step_id header) (ei_parent_step_id ev)
     \<or> optional_value_conflicts (ctx_tool_call_id header) (ei_tool_call_id ev)
     \<or> optional_value_conflicts (handoff_id header) (ei_handoff_id ev)
     \<or> optional_value_conflicts (graph_node header) (ei_graph_node ev)
     \<or> optional_value_conflicts (ctx_step_kind header) (ei_step_kind ev)
     \<or> ctx_step_source header \<noteq> SsUnknown \<and> ei_step_source ev \<noteq> SsUnknown \<and> ctx_step_source header \<noteq> ei_step_source ev"

definition check_context_conflict ::
    "agent_context option \<Rightarrow> agent_event_input \<Rightarrow> conflict_action \<Rightarrow> agent_service_error + bool" where
  "check_context_conflict header ev action =
     (if action = ConflictDisabled then Ok False
      else case header of
        None \<Rightarrow> Ok False
      | Some c \<Rightarrow>
          (let conflict = context_fields_conflict c ev in
           if conflict \<and> action = ConflictStrict then Err EvContextConflict else Ok conflict))"

definition event_agent_identity :: "auth_context \<Rightarrow> agent_event \<Rightarrow> string" where
  "event_agent_identity auth ev =
     (case ev_agent_uid ev of
        Some uid \<Rightarrow> uuid_string uid
      | None \<Rightarrow>
          (case ev_agent_id_external ev of
             Some external \<Rightarrow> external
           | None \<Rightarrow> (case auth_virtual_key_id auth of Some i \<Rightarrow> ''vk:'' @ uuid_string i | None \<Rightarrow> ''unknown'')))"

definition check_step_conflict ::
    "agent_config \<Rightarrow> step_redis option \<Rightarrow> lock_store \<Rightarrow> auth_context \<Rightarrow> agent_event
       \<Rightarrow> (agent_service_error + step_conflict_decision) \<times> lock_store" where
  "check_step_conflict cfg redis db auth ev =
     (case (ev_run_id ev, ev_step_id ev) of
        (Some run, Some step) \<Rightarrow>
          (let fingerprint = step_fingerprint
                 \<lparr>sf_parent_step_id = ev_parent_step_id ev, sf_step_kind = ev_step_kind ev,
                  sf_graph_node = ev_graph_node ev, sf_tool_call_id = ev_tool_call_id ev, sf_attempt = ev_attempt ev,
                  sf_input_hash = ev_input_hash ev\<rparr>;
               key = step_state_key (org_id auth) (event_agent_identity auth ev) run step in
           case detect_step_conflict redis db key fingerprint (ac_event_ttl_seconds cfg) (ac_step_conflict_action cfg) of
             (Inl _, db') \<Rightarrow> (Err EvSinkFailed, db')
           | (Inr d, db') \<Rightarrow> (Ok d, db'))
      | _ \<Rightarrow> (Ok StepNoConflict, db))"

section \<open>The handler\<close>

text \<open>
  What the environment answers to the \<open>i\<close>-th event of a batch: the identifier and the time, the two commands of
  Redis, the policy service, and whether the sink takes an event.
\<close>

record events_env =
  ee_parse :: "string \<Rightarrow> agent_events_request option"
  ee_to_vec :: json_printer
  ee_uuid :: "nat \<Rightarrow> uuid"
  ee_now :: "nat \<Rightarrow> int"
  ee_redis :: "(nat \<Rightarrow> step_redis) option"
  ee_policy_enabled :: bool
  ee_policy_client :: "(nat \<Rightarrow> policy_request \<Rightarrow> policy_call) option"
  ee_sink :: "nat \<Rightarrow> agent_event \<Rightarrow> bool"

datatype event_effect = EventPolicyAsked policy_request | EventEmitted agent_event bool

type_synonym 'a event_run = "(agent_service_error + 'a) \<times> lock_store \<times> event_effect list"

definition event_policy_client :: "events_env \<Rightarrow> nat \<Rightarrow> (policy_request \<Rightarrow> policy_call) option" where
  "event_policy_client env i = map_option (\<lambda>client. client i) (ee_policy_client env)"

definition emit_event :: "events_env \<Rightarrow> nat \<Rightarrow> agent_event \<Rightarrow> (agent_service_error + unit) \<times> event_effect list" where
  "emit_event env i ev =
     (if ee_sink env i ev then (Ok (), [EventEmitted ev True]) else (Err EvSinkFailed, [EventEmitted ev False]))"

definition metadata_fits :: "events_env \<Rightarrow> agent_config \<Rightarrow> json \<Rightarrow> bool" where
  "metadata_fits env cfg metadata = is_ok (validate_metadata_limit (ee_to_vec env) metadata (ac_max_metadata_bytes cfg))"

text \<open>The arm of \<open>AgentPolicyError::Unavailable\<close>.\<close>

definition audit_policy_unavailable ::
    "events_env \<Rightarrow> agent_config \<Rightarrow> nat \<Rightarrow> agent_event \<Rightarrow> (agent_service_error + policy_decision) \<times> event_effect list" where
  "audit_policy_unavailable env cfg i ev =
     (let ev = attach_policy_unavailable_audit ev;
          ev = ev\<lparr>ev_metadata := attach_sink_status_to_metadata (ev_metadata ev) ''sent''\<rparr>;
          compact = ev\<lparr>ev_metadata := attach_sink_status_to_metadata compact_policy_unavailable_audit ''sent''\<rparr>;
          audit = (if metadata_fits env cfg (ev_metadata ev) then ev else compact) in
      if \<not> metadata_fits env cfg (ev_metadata audit) then (Err EvMetadataTooLarge, [])
      else case emit_event env i audit of
        (Inl e, fx) \<Rightarrow> (Err e, fx)
      | (Inr _, fx) \<Rightarrow> (Err EvPolicyUnavailable, fx))"

definition record_decision :: "events_env \<Rightarrow> agent_config \<Rightarrow> agent_event \<Rightarrow> policy_decision \<Rightarrow> agent_service_error + agent_event" where
  "record_decision env cfg ev d =
     (let ev = ev\<lparr>ev_metadata := attach_sink_status_to_metadata (attach_policy_decision_to_metadata (ev_metadata ev) d)
                                  (pd_sink_status d)\<rparr> in
      if metadata_fits env cfg (ev_metadata ev) then Ok ev
      else if pd_allowed d then Err EvMetadataTooLarge
      else
        let ev = ev\<lparr>ev_metadata := attach_sink_status_to_metadata (compact_policy_decision_metadata d) (pd_sink_status d)\<rparr> in
        if metadata_fits env cfg (ev_metadata ev) then Ok ev else Err EvMetadataTooLarge)"

definition emit_decided ::
    "events_env \<Rightarrow> agent_config \<Rightarrow> nat \<Rightarrow> agent_event \<Rightarrow> policy_decision
       \<Rightarrow> (agent_service_error + policy_decision) \<times> event_effect list" where
  "emit_decided env cfg i ev verdict =
     (let d = with_sink_status verdict ''sent'' in
      case record_decision env cfg ev d of
        Inl e \<Rightarrow> (Err e, [])
      | Inr ev \<Rightarrow>
          (case emit_event env i ev of
             (Inl e, fx) \<Rightarrow> (Err e, fx)
           | (Inr _, fx) \<Rightarrow> (Ok d, fx)))"

definition decide_event ::
    "events_env \<Rightarrow> agent_config \<Rightarrow> auth_context \<Rightarrow> nat \<Rightarrow> agent_event
       \<Rightarrow> (agent_service_error + policy_decision) \<times> event_effect list" where
  "decide_event env cfg auth i ev =
     (if should_validate_policy_for_event ev then
        let client = event_policy_client env i;
            asked = (if ee_policy_enabled env \<and> client \<noteq> None
                     then [EventPolicyAsked (build_validate_agent_policy_request (ee_to_vec env) auth ev)] else []);
            (r, fx) = (case validate_agent_policy (ee_policy_enabled env) client (ee_to_vec env) auth ev of
                Inr d \<Rightarrow> emit_decided env cfg i ev d
              | Inl _ \<Rightarrow> audit_policy_unavailable env cfg i ev) in
        (r, asked @ fx)
      else emit_decided env cfg i ev (skipped_audit_decision ev))"

definition normalized_event ::
    "events_env \<Rightarrow> agent_config \<Rightarrow> auth_context \<Rightarrow> agent_context option \<Rightarrow> nat \<Rightarrow> agent_event_source \<times> agent_event_input
       \<Rightarrow> agent_event" where
  "normalized_event env cfg auth header i sourced =
     normalize_event (ee_uuid env i) (ee_now env i) (adapt_agent_event (fst sourced) (snd sourced)) auth
       (ac_metadata_redaction cfg) header (ac_policy_mode cfg)"

text \<open>The body of the loop.\<close>

definition handle_event ::
    "events_env \<Rightarrow> agent_config \<Rightarrow> auth_context \<Rightarrow> agent_context option \<Rightarrow> nat \<Rightarrow> lock_store
       \<Rightarrow> agent_event_source \<times> agent_event_input \<Rightarrow> policy_decision event_run" where
  "handle_event env cfg auth header i db sourced =
     (let event = adapt_agent_event (fst sourced) (snd sourced) in
      if \<not> metadata_fits env cfg (ei_metadata event) then (Err EvMetadataTooLarge, db, [])
      else case check_context_conflict header event (ac_context_conflict_action cfg) of
        Inl e \<Rightarrow> (Err e, db, [])
      | Inr context_conflict \<Rightarrow>
          (let ev = (normalized_event env cfg auth header i sourced)\<lparr>ev_context_conflict := context_conflict\<rparr> in
           case check_step_conflict cfg (map_option (\<lambda>r. r i) (ee_redis env)) db auth ev of
             (Inl e, db') \<Rightarrow> (Err e, db', [])
           | (Inr conflict, db') \<Rightarrow>
               if conflict = StepConflictStrict then (Err EvStepConflict, db', [])
               else
                 let (r, fx) = decide_event env cfg auth i (ev\<lparr>ev_step_id_conflict := conflict = StepConflictWarn\<rparr>) in
                 (r, db', fx)))"

fun handle_events_from ::
    "events_env \<Rightarrow> agent_config \<Rightarrow> auth_context \<Rightarrow> agent_context option \<Rightarrow> nat \<Rightarrow> lock_store
       \<Rightarrow> (agent_event_source \<times> agent_event_input) list \<Rightarrow> policy_decision list event_run" where
  "handle_events_from env cfg auth header i db [] = (Ok [], db, [])"
| "handle_events_from env cfg auth header i db (sourced # rest) =
     (case handle_event env cfg auth header i db sourced of
        (Inl e, db', fx) \<Rightarrow> (Err e, db', fx)
      | (Inr d, db', fx) \<Rightarrow>
          (case handle_events_from env cfg auth header (Suc i) db' rest of
             (Inl e, db'', fx') \<Rightarrow> (Err e, db'', fx @ fx')
           | (Inr ds, db'', fx') \<Rightarrow> (Ok (d # ds), db'', fx @ fx')))"

text \<open>
  A request: its method, headers, the two places of the authentication, and the body, \<open>None\<close> when it cannot be read.
  A body above the limit of \<open>Limited\<close> is an error as well.
\<close>

record events_http_request =
  eh_method :: string
  eh_headers :: header_map
  eh_auth :: "auth_context option"
  eh_ctx_auth :: "auth_context option"
  eh_body :: "string option"

record agent_events_response =
  es_accepted :: nat
  es_rejected :: nat
  es_allowed :: bool
  es_decisions :: "policy_decision list"

definition handle_agent_events ::
    "events_env \<Rightarrow> agent_config \<Rightarrow> lock_store \<Rightarrow> events_http_request \<Rightarrow> agent_events_response event_run" where
  "handle_agent_events env cfg db req =
     (if \<not> ac_enabled cfg then (Err EvDisabled, db, [])
      else if eh_method req \<noteq> ''POST'' then (Err EvMethodNotAllowed, db, [])
      else
        let header = (if ac_allow_header_context cfg
              then parse_agent_context_from_headers (eh_headers req) (ac_max_header_value_bytes cfg) else None) in
        case (case eh_auth req of Some a \<Rightarrow> Some a | None \<Rightarrow> eh_ctx_auth req) of
          None \<Rightarrow> (Err EvMissingAuth, db, [])
        | Some auth \<Rightarrow>
        (case eh_body req of
          None \<Rightarrow> (Err EvPayloadTooLarge, db, [])
        | Some body \<Rightarrow>
        (if ac_max_event_bytes cfg < length body then (Err EvPayloadTooLarge, db, [])
         else case ee_parse env body of
          None \<Rightarrow> (Err EvInvalidJson, db, [])
        | Some request \<Rightarrow>
        (let sourced = into_sourced_events request in
         case validate_event_limits (length sourced) (length body) (ac_max_batch_events cfg) (ac_max_event_bytes cfg) of
          Inl e \<Rightarrow> (Err e, db, [])
        | Inr _ \<Rightarrow>
        (case handle_events_from env cfg auth header 0 db sourced of
          (Inl e, db', fx) \<Rightarrow> (Err e, db', fx)
        | (Inr ds, db', fx) \<Rightarrow>
            (Ok \<lparr>es_accepted = length ds, es_rejected = 0, es_allowed = list_all pd_allowed ds, es_decisions = ds\<rparr>,
             db', fx))))))"

fun event_error_status :: "agent_service_error \<Rightarrow> nat" where
  "event_error_status EvDisabled = 404"
| "event_error_status EvMethodNotAllowed = 405"
| "event_error_status EvBatchTooLarge = 413"
| "event_error_status EvPayloadTooLarge = 413"
| "event_error_status EvMetadataTooLarge = 413"
| "event_error_status EvInvalidJson = 400"
| "event_error_status EvMissingAuth = 401"
| "event_error_status EvSinkFailed = 502"
| "event_error_status EvPolicyUnavailable = 502"
| "event_error_status EvStepConflict = 409"
| "event_error_status EvContextConflict = 409"

definition event_error_response :: "agent_service_error \<Rightarrow> nat \<times> json" where
  "event_error_response e =
     (event_error_status e,
      JObject [(''error'', JObject [(''type'', JString ''agent_gateway_error''), (''code'', JString (event_error_code e)),
         (''message'', JString (event_error_message e))])])"

datatype events_reply = EventsAccepted nat agent_events_response | EventsRefused nat json

definition agent_events_call ::
    "events_env \<Rightarrow> agent_config \<Rightarrow> lock_store \<Rightarrow> events_http_request \<Rightarrow> events_reply \<times> lock_store \<times> event_effect list" where
  "agent_events_call env cfg db req =
     (case handle_agent_events env cfg db req of
        (Inl e, db', fx) \<Rightarrow> ((case event_error_response e of (c, b) \<Rightarrow> EventsRefused c b), db', fx)
      | (Inr r, db', fx) \<Rightarrow> (EventsAccepted 202 r, db', fx))"

section \<open>Redaction is kept\<close>

definition redacted_object :: "json_object \<Rightarrow> bool" where
  "redacted_object m \<longleftrightarrow> redacted (JObject m)"

lemma redacted_object_iff:
  "redacted_object m \<longleftrightarrow> (\<forall>(k, v) \<in> set m. if is_sensitive_key k then v = JString REDACTED else redacted v)"
  by (simp add: redacted_object_def)

lemma redacted_subset: "\<lbrakk>redacted_object m; set m' \<subseteq> set m\<rbrakk> \<Longrightarrow> redacted_object m'"
  unfolding redacted_object_iff by blast

lemma set_update_subset: "set (AList.update k v m) \<subseteq> insert (k, v) (set m)"
  by (induction m) auto

lemma redacted_insert:
  "\<lbrakk>redacted_object m; \<not> is_sensitive_key k; redacted v\<rbrakk> \<Longrightarrow> redacted_object (map_insert k v m)"
  using set_update_subset [of k v m] unfolding redacted_object_iff map_insert_def by fastforce

lemma set_swap_remove: "set (swap_remove k m) \<subseteq> set m"
proof (cases "index_of k m")
  case (Some i)
  then have "m \<noteq> []" "i < length m" using index_of_Some by fastforce+
  then have "set (m[i := last m]) \<subseteq> set m" by (simp add: set_update_subsetI)
  then show ?thesis using Some by (auto simp: swap_remove_def dest: in_set_butlastD)
qed (simp add: swap_remove_def)

lemma redacted_lookup: "\<lbrakk>redacted_object m; map_of m k = Some v\<rbrakk> \<Longrightarrow> redacted v"
  using map_of_SomeD [of m k v] unfolding redacted_object_iff by (fastforce split: if_splits)

lemma contains_snoc: "\<lbrakk>contains (s @ [c]) w; c \<notin> set w; w \<noteq> []\<rbrakk> \<Longrightarrow> contains s w"
proof -
  assume c: "c \<notin> set w" "w \<noteq> []" and "contains (s @ [c]) w"
  then obtain a b where ab: "s @ [c] = a @ w @ b" by (auto simp: contains_iff)
  show "contains s w"
  proof (cases b rule: rev_cases)
    case Nil
    then have "last w = c" using ab c(2) by (metis append.right_neutral last_appendR last_snoc)
    then show ?thesis using c by auto
  next
    case (snoc b' z)
    then have "s = a @ w @ b'" using ab by simp
    then show ?thesis by (auto simp: contains_iff)
  qed
qed

lemma contains_without_suffix:
  "\<lbrakk>contains (x @ d) w; set w \<inter> set d = {}; w \<noteq> []\<rbrakk> \<Longrightarrow> contains x w"
proof (induction d rule: rev_induct)
  case (snoc c d)
  then show ?case using contains_snoc [of "x @ d" c w] by auto
qed simp

lemma lowercase_digits: "to_ascii_lowercase (show_nat n) = show_nat n"
proof -
  have "ascii_lower_char c = c" if "c \<in> set (show_nat n)" for c
    using show_nat_digits [OF that] by (auto simp: ascii_lower_char_def is_ascii_digit_def is_ascii_uppercase_def)
  then show ?thesis unfolding to_ascii_lowercase_def by (rule map_idI)
qed

lemma sensitive_words_plain: "w \<in> set SENSITIVE_KEYS \<Longrightarrow> w \<noteq> [] \<and> (\<forall>c \<in> set w. \<not> is_ascii_digit c)"
  by (auto simp: SENSITIVE_KEYS_def is_ascii_digit_def byte_def)

text \<open>A number at the end does not make a key sensitive.\<close>

lemma numbered_key_plain:
  assumes "\<not> is_sensitive_key (base @ ''_'')"
  shows "\<not> is_sensitive_key (original_key base i)"
proof
  have mem: "is_sensitive_key k \<longleftrightarrow> (\<exists>w \<in> set SENSITIVE_KEYS. contains (to_ascii_lowercase k) w)" for k
  proof -
    have "contains w w" for w by (metis append_Nil append_Nil2 contains_iff)
    then show ?thesis unfolding is_sensitive_key_def Let_def list_ex_iff by metis
  qed
  have eq: "to_ascii_lowercase (original_key base i) = to_ascii_lowercase (base @ ''_'') @ show_nat i"
    unfolding original_key_def append_assoc [symmetric] to_ascii_lowercase_append [of "base @ ''_''"] lowercase_digits ..
  assume "is_sensitive_key (original_key base i)"
  then obtain w where w: "w \<in> set SENSITIVE_KEYS" "contains (to_ascii_lowercase (base @ ''_'') @ show_nat i) w"
    unfolding mem eq by blast
  moreover have "set w \<inter> set (show_nat i) = {}" using sensitive_words_plain [OF w(1)] show_nat_digits by blast
  ultimately have "contains (to_ascii_lowercase (base @ ''_'')) w"
    using contains_without_suffix sensitive_words_plain by blast
  then show False using assms w(1) mem by blast
qed

text \<open>The keys that the gateway itself writes are not sensitive.\<close>

definition plain_word :: "string \<Rightarrow> bool" where
  "plain_word s \<longleftrightarrow> \<not> list_ex (\<lambda>w. s = w \<or> contains s w) SENSITIVE_KEYS"

definition gateway_keys :: "string list" where
  "gateway_keys = [''value'', ''policy'', ''status'', ''severity'', ''sinkStatus'', ''agentNameConflict'',
     ''selfReportedAgentNameSource'', ''selfReportedAgentName'', ''registeredAgentName'', ''policy_original'',
     ''policy_client_original'', ''status_original'', ''severity_original'', ''policy_client_original_'',
     ''policy_original_'', ''status_original_'', ''severity_original_'', ''allowed'', ''decision'', ''policyDecision'',
     ''reason'', ''blocked_by'', ''route_hint'', ''policy_id'', ''policy_scope'', ''snapshot_revision'',
     ''metadata_truncated'', ''metadata_truncation_reason'']"

lemma capital_letters:
  "char_of (115 :: nat) = CHR ''s''" "char_of (114 :: nat) = CHR ''r''" "char_of (97 :: nat) = CHR ''a''"
  "char_of (110 :: nat) = CHR ''n''" "char_of (99 :: nat) = CHR ''c''" "char_of (100 :: nat) = CHR ''d''"
  by code_simp+

lemma gateway_keys_lowercase:
  "map to_ascii_lowercase gateway_keys = [''value'', ''policy'', ''status'', ''severity'', ''sinkstatus'', ''agentnameconflict'',
     ''selfreportedagentnamesource'', ''selfreportedagentname'', ''registeredagentname'', ''policy_original'',
     ''policy_client_original'', ''status_original'', ''severity_original'', ''policy_client_original_'',
     ''policy_original_'', ''status_original_'', ''severity_original_'', ''allowed'', ''decision'', ''policydecision'',
     ''reason'', ''blocked_by'', ''route_hint'', ''policy_id'', ''policy_scope'', ''snapshot_revision'',
     ''metadata_truncated'', ''metadata_truncation_reason'']"
  by (simp add: gateway_keys_def to_ascii_lowercase_def ascii_lower_char_def is_ascii_uppercase_def byte_def capital_letters)

lemma gateway_keys_plain: "list_all (\<lambda>k. \<not> is_sensitive_key k) gateway_keys"
proof -
  have "list_all plain_word (map to_ascii_lowercase gateway_keys)"
    unfolding gateway_keys_lowercase by code_simp
  then show ?thesis by (simp add: list_all_iff plain_word_def is_sensitive_key_def Let_def)
qed

lemmas plain_key [simp] = gateway_keys_plain [unfolded gateway_keys_def, simplified]

lemma redacted_values:
  "redacted policy_unavailable_value" "redacted_object (forced_object compact_policy_unavailable_audit)"
  "redacted (policy_summary_value d)" "redacted_object (forced_object (compact_policy_decision_metadata d))"
  by (simp_all add: policy_unavailable_value_def compact_policy_unavailable_audit_def policy_summary_value_def
      compact_policy_decision_metadata_def redacted_object_def json_int_def)

lemma redacted_forced: "redacted v \<Longrightarrow> redacted_object (forced_object v)"
  by (cases v) (auto simp: forced_object_def redacted_object_def)

lemma redacted_sink_status:
  "redacted_object (forced_object v) \<Longrightarrow> redacted (attach_sink_status_to_metadata v s)"
  unfolding attach_sink_status_to_metadata_def redacted_object_def [symmetric]
  by (rule redacted_insert) simp_all

lemma redacted_preserved:
  assumes "redacted_object m" "\<not> is_sensitive_key base" "\<not> is_sensitive_key (base @ ''_'')"
  shows "redacted_object (preserve_original_field source base m)"
proof (cases "map_of m source")
  case (Some v)
  let ?rest = "swap_remove source m"
  have "\<not> is_sensitive_key (available_original_key ?rest base)"
    using assms(2) numbered_key_plain [OF assms(3)] numbered_original_key_prefix [of base 1 ?rest]
    by (auto simp: available_original_key_def)
  then show ?thesis
    using Some redacted_insert [OF redacted_subset [OF assms(1) set_swap_remove]] redacted_lookup [OF assms(1)]
    by (simp add: preserve_original_field_def Let_def)
qed (use assms in \<open>simp add: preserve_original_field_def\<close>)

lemma redacted_policy_decision:
  assumes "redacted v"
  shows "redacted_object (forced_object (attach_policy_decision_to_metadata v d))"
proof -
  let ?m = "forced_object v"
  have m: "redacted_object ?m" by (rule redacted_forced [OF assms])
  let ?rest = "swap_remove ''policy'' ?m"
  have "\<not> is_sensitive_key (available_policy_original_key ?rest)"
    using numbered_key_plain [of "''policy_client_original''"]
      numbered_original_key_prefix [of "''policy_client_original''" 1 ?rest]
    by (auto simp: available_policy_original_key_def)
  then have "redacted_object (map_insert (available_policy_original_key ?rest) e ?rest)" if "map_of ?m ''policy'' = Some e" for e
    using redacted_insert [OF redacted_subset [OF m set_swap_remove]] redacted_lookup [OF m that] by blast
  then show ?thesis
    using m redacted_insert [of _ "''policy''" "policy_summary_value d"]
    by (simp add: attach_policy_decision_to_metadata_def Let_def redacted_values split: option.split)
qed

lemma redacted_unavailable:
  assumes "redacted (ev_metadata ev)"
  shows "redacted_object (forced_object (ev_metadata (attach_policy_unavailable_audit ev)))"
  using redacted_forced [OF assms]
  by (auto simp: attach_policy_unavailable_audit_def Let_def redacted_values intro!: redacted_insert redacted_preserved)

lemma redacted_normalized:
  assumes "redaction = RedactionBasic"
  shows "redacted (ev_metadata (normalize_event fresh now ev auth redaction header mode))"
proof -
  have "redacted (attach_agent_name_conflict_metadata (redact_metadata (ei_metadata ev)) c)" for c
    unfolding attach_agent_name_conflict_metadata_def redacted_object_def [symmetric]
    by (intro redacted_insert redacted_forced redact_redacted) simp_all
  then show ?thesis
    using assms redact_redacted by (simp add: normalize_event_def Let_def split: option.split)
qed

section \<open>What is emitted\<close>

text \<open>
  An event leaves the service with the fields it was normalized to; only its type and its metadata change. The
  metadata respects the limit and stays redacted.
\<close>

definition derived_event :: "events_env \<Rightarrow> agent_config \<Rightarrow> agent_event \<Rightarrow> agent_event \<Rightarrow> bool" where
  "derived_event env cfg ev e \<longleftrightarrow>
     e = ev\<lparr>ev_event_type := ev_event_type e, ev_metadata := ev_metadata e\<rparr>
     \<and> ev_event_type e \<in> {ev_event_type ev, ''policy_unavailable''}
     \<and> metadata_fits env cfg (ev_metadata e)
     \<and> (redacted (ev_metadata ev) \<longrightarrow> redacted (ev_metadata e))"

definition decision_recorded :: "policy_decision \<Rightarrow> agent_event \<Rightarrow> bool" where
  "decision_recorded d e \<longleftrightarrow>
     pointer [''policy'', ''allowed''] (ev_metadata e) = Some (JBool (pd_allowed d))
     \<and> pointer [''policy'', ''decision''] (ev_metadata e) = Some (JString (pd_policy_decision d))
     \<and> pointer [''policy'', ''policyDecision''] (ev_metadata e) = Some (JString (pd_policy_decision d))
     \<and> get ''sinkStatus'' (ev_metadata e) = Some (JString (pd_sink_status d))"

lemma derived_eventI:
  "\<lbrakk>metadata_fits env cfg m; redacted (ev_metadata ev) \<Longrightarrow> redacted m; t \<in> {ev_event_type ev, ''policy_unavailable''}\<rbrakk>
     \<Longrightarrow> derived_event env cfg ev (ev\<lparr>ev_event_type := t, ev_metadata := m\<rparr>)"
  by (simp add: derived_event_def)

lemma derived_keeps:
  assumes "derived_event env cfg (ev\<lparr>ev_context_conflict := c, ev_step_id_conflict := s\<rparr>) e"
  shows "ev_workspace_id e = ev_workspace_id ev" "ev_virtual_key_id e = ev_virtual_key_id ev"
    "ev_billing_mirror_trusted e = ev_billing_mirror_trusted ev"
proof -
  obtain t m where "e = ev\<lparr>ev_context_conflict := c, ev_step_id_conflict := s, ev_event_type := t, ev_metadata := m\<rparr>"
    using assms unfolding derived_event_def by auto
  then show "ev_workspace_id e = ev_workspace_id ev" "ev_virtual_key_id e = ev_virtual_key_id ev"
    "ev_billing_mirror_trusted e = ev_billing_mirror_trusted ev" by simp_all
qed

lemma decision_recorded_full:
  "decision_recorded d (ev\<lparr>ev_metadata := attach_sink_status_to_metadata (attach_policy_decision_to_metadata v d) (pd_sink_status d)\<rparr>)"
  by (simp add: decision_recorded_def attach_sink_status_to_metadata_def attach_policy_decision_to_metadata_def Let_def
      policy_summary_value_def)

lemma decision_recorded_compact:
  "decision_recorded d (ev\<lparr>ev_metadata := attach_sink_status_to_metadata (compact_policy_decision_metadata d) (pd_sink_status d)\<rparr>)"
  by (simp add: decision_recorded_def attach_sink_status_to_metadata_def compact_policy_decision_metadata_def)

lemma record_decision_derived:
  assumes "record_decision env cfg ev d = Ok e"
  shows "derived_event env cfg ev e \<and> decision_recorded d e \<and> ev_event_type e = ev_event_type ev"
proof -
  let ?full = "attach_sink_status_to_metadata (attach_policy_decision_to_metadata (ev_metadata ev) d) (pd_sink_status d)"
  let ?small = "attach_sink_status_to_metadata (compact_policy_decision_metadata d) (pd_sink_status d)"
  have same: "ev\<lparr>ev_metadata := m\<rparr> = ev\<lparr>ev_event_type := ev_event_type ev, ev_metadata := m\<rparr>" for m by simp
  have "e = ev\<lparr>ev_metadata := ?full\<rparr> \<and> metadata_fits env cfg ?full \<or> e = ev\<lparr>ev_metadata := ?small\<rparr> \<and> metadata_fits env cfg ?small"
    using assms unfolding record_decision_def Let_def by (simp split: if_splits)
  then show ?thesis
  proof (elim disjE conjE)
    assume e: "e = ev\<lparr>ev_metadata := ?full\<rparr>" and fits: "metadata_fits env cfg ?full"
    have "derived_event env cfg ev e"
      unfolding e same by (rule derived_eventI) (use fits redacted_sink_status redacted_policy_decision in blast)+
    then show ?thesis unfolding e using decision_recorded_full by simp
  next
    assume e: "e = ev\<lparr>ev_metadata := ?small\<rparr>" and fits: "metadata_fits env cfg ?small"
    have "derived_event env cfg ev e"
      unfolding e same by (rule derived_eventI) (use fits redacted_sink_status redacted_values in blast)+
    then show ?thesis unfolding e using decision_recorded_compact by simp
  qed
qed

lemma emit_decided_cases:
  assumes "emit_decided env cfg i ev verdict = (r, fx)"
  shows "fx = [] \<and> r = Err EvMetadataTooLarge
    \<or> (\<exists>e. derived_event env cfg ev e \<and> ev_event_type e = ev_event_type ev
         \<and> decision_recorded (with_sink_status verdict ''sent'') e
         \<and> (fx = [EventEmitted e True] \<and> r = Ok (with_sink_status verdict ''sent'')
            \<or> fx = [EventEmitted e False] \<and> r = Err EvSinkFailed))"
proof (cases "record_decision env cfg ev (with_sink_status verdict ''sent'')")
  case (Inl err)
  then have "err = EvMetadataTooLarge" by (auto simp: record_decision_def Let_def split: if_splits)
  then show ?thesis using assms Inl by (simp add: emit_decided_def Let_def)
next
  case (Inr e)
  then show ?thesis
    using assms record_decision_derived [OF Inr]
    by (auto simp: emit_decided_def Let_def emit_event_def split: if_splits)
qed

lemma audit_unavailable_cases:
  assumes "audit_policy_unavailable env cfg i ev = (r, fx)"
  shows "fx = [] \<and> r = Err EvMetadataTooLarge
    \<or> (\<exists>e. derived_event env cfg ev e \<and> ev_event_type e = ''policy_unavailable''
         \<and> get ''policy'' (ev_metadata e) = Some policy_unavailable_value
         \<and> (fx = [EventEmitted e True] \<and> r = Err EvPolicyUnavailable \<or> fx = [EventEmitted e False] \<and> r = Err EvSinkFailed))"
proof -
  let ?a = "attach_policy_unavailable_audit ev"
  let ?full = "attach_sink_status_to_metadata (ev_metadata ?a) ''sent''"
  let ?small = "attach_sink_status_to_metadata compact_policy_unavailable_audit ''sent''"
  define m where "m = (if metadata_fits env cfg ?full then ?full else ?small)"
  define e where "e = ?a\<lparr>ev_metadata := m\<rparr>"
  have a: "?a = ev\<lparr>ev_event_type := ''policy_unavailable'', ev_metadata := ev_metadata ?a\<rparr>"
    by (simp add: attach_policy_unavailable_audit_def Let_def)
  have policy: "get ''policy'' m = Some policy_unavailable_value"
    by (simp add: m_def attach_sink_status_to_metadata_def attach_policy_unavailable_audit_def Let_def
        compact_policy_unavailable_audit_def)
  have red: "redacted (ev_metadata ev) \<Longrightarrow> redacted m"
    by (simp add: m_def redacted_sink_status redacted_unavailable redacted_values)
  have e: "e = ev\<lparr>ev_event_type := ''policy_unavailable'', ev_metadata := m\<rparr>" unfolding e_def by (subst a) simp
  have run: "(r, fx) = (if \<not> metadata_fits env cfg m then (Err EvMetadataTooLarge, [])
      else if ee_sink env i e then (Err EvPolicyUnavailable, [EventEmitted e True]) else (Err EvSinkFailed, [EventEmitted e False]))"
    unfolding e_def m_def using assms
    by (cases "metadata_fits env cfg ?full")
      (simp_all add: audit_policy_unavailable_def Let_def emit_event_def split: if_splits)
  have "derived_event env cfg ev e \<and> get ''policy'' (ev_metadata e) = Some policy_unavailable_value
      \<and> ev_event_type e = ''policy_unavailable''" if "metadata_fits env cfg m"
    using derived_eventI [OF that red] policy unfolding e by simp
  then show ?thesis using run by (cases "metadata_fits env cfg m"; cases "ee_sink env i e") auto
qed

text \<open>
  One event: either it is refused before the sink, or one event derived from it goes to the sink. It is accepted
  exactly when the sink took the event with the recorded decision; a decision that allows an announced action is one
  that the policy gate gave.
\<close>

definition emitted :: "event_effect list \<Rightarrow> (agent_event \<times> bool) list" where
  "emitted fx = concat (map (\<lambda>x. case x of EventEmitted e ok \<Rightarrow> [(e, ok)] | EventPolicyAsked _ \<Rightarrow> []) fx)"

lemma emitted_simps [simp]:
  "emitted [] = []" "emitted (EventEmitted e ok # fx) = (e, ok) # emitted fx"
  "emitted (EventPolicyAsked q # fx) = emitted fx" "emitted (fx @ fx') = emitted fx @ emitted fx'"
  by (simp_all add: emitted_def)

definition gate_passed :: "events_env \<Rightarrow> auth_context \<Rightarrow> nat \<Rightarrow> agent_event \<Rightarrow> bool" where
  "gate_passed env auth i ev \<longleftrightarrow>
     \<not> should_validate_policy_for_event ev
     \<or> policy_allows (ee_policy_enabled env) (event_policy_client env i)
         (build_validate_agent_policy_request (ee_to_vec env) auth ev)"

definition event_outcome ::
    "events_env \<Rightarrow> agent_config \<Rightarrow> auth_context \<Rightarrow> nat \<Rightarrow> agent_event \<Rightarrow> agent_service_error + policy_decision
       \<Rightarrow> (agent_event \<times> bool) list \<Rightarrow> bool" where
  "event_outcome env cfg auth i ev r out \<longleftrightarrow>
     (case r of
        Inr d \<Rightarrow> (\<exists>e. out = [(e, True)] \<and> derived_event env cfg ev e \<and> ev_event_type e = ev_event_type ev
                   \<and> decision_recorded d e \<and> (pd_allowed d \<longrightarrow> gate_passed env auth i ev))
      | Inl err \<Rightarrow>
          out = [] \<and> err \<noteq> EvPolicyUnavailable
          \<or> (\<exists>e. out = [(e, False)] \<and> derived_event env cfg ev e \<and> err = EvSinkFailed)
          \<or> (\<exists>e. out = [(e, True)] \<and> derived_event env cfg ev e \<and> err = EvPolicyUnavailable
               \<and> ev_event_type e = ''policy_unavailable'' \<and> should_validate_policy_for_event ev))"

lemma event_outcome_derived:
  "\<lbrakk>event_outcome env cfg auth i ev r out; (e, ok) \<in> set out\<rbrakk> \<Longrightarrow> derived_event env cfg ev e"
  by (cases r) (auto simp: event_outcome_def)

lemma decide_event_outcome:
  assumes "decide_event env cfg auth i ev = (r, fx)"
  shows "event_outcome env cfg auth i ev r (emitted fx)"
proof (cases "should_validate_policy_for_event ev")
  case False
  then have "emit_decided env cfg i ev (skipped_audit_decision ev) = (r, fx)" using assms by (simp add: decide_event_def)
  from emit_decided_cases [OF this] show ?thesis using False by (auto simp: event_outcome_def gate_passed_def)
next
  case True
  let ?client = "event_policy_client env i"
  note gate = validate_allows [of "ee_policy_enabled env" ?client "ee_to_vec env" auth ev]
  show ?thesis
  proof (cases "validate_agent_policy (ee_policy_enabled env) ?client (ee_to_vec env) auth ev")
    case (Inl err)
    then obtain fx' where "audit_policy_unavailable env cfg i ev = (r, fx')" "emitted fx = emitted fx'"
      using assms True by (auto simp: decide_event_def Let_def split: if_splits prod.splits)
    then show ?thesis using audit_unavailable_cases True by (fastforce simp: event_outcome_def)
  next
    case (Inr d)
    then obtain fx' where run: "emit_decided env cfg i ev d = (r, fx')" "emitted fx = emitted fx'"
      using assms True by (auto simp: decide_event_def Let_def split: if_splits prod.splits)
    have "pd_allowed (with_sink_status d ''sent'') \<longrightarrow> gate_passed env auth i ev"
      using gate Inr by (simp add: gate_passed_def with_sink_status_def)
    then show ?thesis using emit_decided_cases [OF run(1)] run(2) by (auto simp: event_outcome_def)
  qed
qed

text \<open>The flags of conflicts have no influence on the gate.\<close>

lemma flags_ignored:
  "should_validate_policy_for_event (ev\<lparr>ev_context_conflict := c, ev_step_id_conflict := s\<rparr>) = should_validate_policy_for_event ev"
  "build_validate_agent_policy_request to_vec auth (ev\<lparr>ev_context_conflict := c, ev_step_id_conflict := s\<rparr>)
     = build_validate_agent_policy_request to_vec auth ev"
  by (simp_all add: should_validate_policy_for_event_def build_validate_agent_policy_request_def Let_def policy_agent_id_def
      split: option.split)

lemma should_validate_normalized:
  "should_validate_policy_for_event (normalized_event env cfg auth header i sourced)
     \<longleftrightarrow> needs_gate (adapt_agent_event (fst sourced) (snd sourced))"
  by (auto simp: normalized_event_def normalize_event_def should_validate_policy_for_event_def needs_gate_def Let_def)

lemma handle_event_outcome:
  assumes "handle_event env cfg auth header i db sourced = (r, db', fx)"
  shows "\<exists>c s. event_outcome env cfg auth i
    ((normalized_event env cfg auth header i sourced)\<lparr>ev_context_conflict := c, ev_step_id_conflict := s\<rparr>) r (emitted fx)"
proof -
  have early: "event_outcome env cfg auth i ev (Err e) []" if "e \<noteq> EvPolicyUnavailable" for ev e
    using that by (simp add: event_outcome_def)
  let ?event = "adapt_agent_event (fst sourced) (snd sourced)"
  let ?ev = "normalized_event env cfg auth header i sourced"
  show ?thesis
  proof (cases "metadata_fits env cfg (ei_metadata ?event)")
    case False
    then show ?thesis using assms by (auto simp: handle_event_def early)
  next
    case fits: True
    show ?thesis
    proof (cases "check_context_conflict header ?event (ac_context_conflict_action cfg)")
      case (Inl e)
      then have "e \<noteq> EvPolicyUnavailable"
        by (auto simp: check_context_conflict_def Let_def split: if_splits option.splits)
      then show ?thesis using assms fits Inl by (auto simp: handle_event_def early)
    next
      case (Inr c)
      obtain sc db1 where step: "check_step_conflict cfg (map_option (\<lambda>r. r i) (ee_redis env)) db auth
          (?ev\<lparr>ev_context_conflict := c\<rparr>) = (sc, db1)" by fastforce
      show ?thesis
      proof (cases sc)
        case sc: (Inl e)
        then have "e = EvSinkFailed"
          using step by (auto simp: check_step_conflict_def Let_def split: option.splits prod.splits sum.splits)
        then show ?thesis using assms fits Inr step sc by (auto simp: handle_event_def early)
      next
        case sc: (Inr conflict)
        show ?thesis
        proof (cases "conflict = StepConflictStrict")
          case True
          then show ?thesis using assms fits Inr step sc by (auto simp: handle_event_def early)
        next
          case False
          then have "decide_event env cfg auth i
              (?ev\<lparr>ev_context_conflict := c, ev_step_id_conflict := conflict = StepConflictWarn\<rparr>) = (r, fx)"
            using assms fits Inr step sc by (auto simp: handle_event_def Let_def split: prod.splits)
          from decide_event_outcome [OF this] show ?thesis by blast
        qed
      qed
    qed
  qed
qed

text \<open>The loop: a batch succeeds event by event, and the first failure ends it.\<close>

lemma handle_events_ok:
  "handle_events_from env cfg auth header i db xs = (Ok ds, db', fx) \<Longrightarrow>
     length ds = length xs \<and> length (emitted fx) = length xs
     \<and> (\<forall>j < length xs. \<exists>c s. event_outcome env cfg auth (i + j)
          ((normalized_event env cfg auth header (i + j) (xs ! j))\<lparr>ev_context_conflict := c, ev_step_id_conflict := s\<rparr>)
          (Ok (ds ! j)) [emitted fx ! j])"
proof (induction xs arbitrary: i db ds fx)
  case (Cons x xs)
  obtain d db1 fx1 where one: "handle_event env cfg auth header i db x = (Ok d, db1, fx1)"
    using Cons.prems by (auto split: prod.splits sum.splits)
  obtain ds2 fx2 where more: "handle_events_from env cfg auth header (Suc i) db1 xs = (Ok ds2, db', fx2)"
      and ds: "ds = d # ds2" "fx = fx1 @ fx2"
    using Cons.prems one by (auto split: prod.splits sum.splits)
  obtain c s where out: "event_outcome env cfg auth i
      ((normalized_event env cfg auth header i x)\<lparr>ev_context_conflict := c, ev_step_id_conflict := s\<rparr>) (Ok d) (emitted fx1)"
    using handle_event_outcome [OF one] by blast
  then obtain e where e: "emitted fx1 = [e]" by (auto simp: event_outcome_def)
  note IH = Cons.IH [OF more]
  have "\<exists>c s. event_outcome env cfg auth (i + j)
          ((normalized_event env cfg auth header (i + j) ((x # xs) ! j))\<lparr>ev_context_conflict := c, ev_step_id_conflict := s\<rparr>)
          (Ok (ds ! j)) [emitted fx ! j]" if "j < Suc (length xs)" for j
  proof (cases j)
    case 0
    then show ?thesis using out e by (auto simp: ds)
  next
    case (Suc k)
    then show ?thesis using IH that e by (simp add: ds)
  qed
  then show ?case using IH e by (simp add: ds)
qed simp

lemma handle_events_err:
  "handle_events_from env cfg auth header i db xs = (Err err, db', fx) \<Longrightarrow>
     \<exists>k < length xs. \<exists>ds db1 fx1 fx2. handle_events_from env cfg auth header i db (take k xs) = (Ok ds, db1, fx1)
       \<and> handle_event env cfg auth header (i + k) db1 (xs ! k) = (Err err, db', fx2) \<and> fx = fx1 @ fx2"
proof (induction xs arbitrary: i db fx)
  case (Cons x xs)
  obtain r db1 fx1 where one: "handle_event env cfg auth header i db x = (r, db1, fx1)" by (cases "handle_event env cfg auth header i db x")
  show ?case
  proof (cases r)
    case (Inl e)
    then show ?thesis using Cons.prems one by (intro exI [of _ 0]) auto
  next
    case (Inr d)
    then obtain fx2 where more: "handle_events_from env cfg auth header (Suc i) db1 xs = (Err err, db', fx2)" and fx: "fx = fx1 @ fx2"
      using Cons.prems one by (auto split: prod.splits sum.splits)
    from Cons.IH [OF more] obtain k ds db2 fx3 fx4 where
      "k < length xs" "handle_events_from env cfg auth header (Suc i) db1 (take k xs) = (Ok ds, db2, fx3)"
      "handle_event env cfg auth header (Suc i + k) db2 (xs ! k) = (Err err, db', fx4)" "fx2 = fx3 @ fx4" by blast
    then show ?thesis using one Inr by (intro exI [of _ "Suc k"]) (auto simp: fx)
  qed
qed simp

lemma batch_emits_derived:
  assumes "handle_events_from env cfg auth header i db xs = (r, db', fx)" "(e, ok) \<in> set (emitted fx)"
  shows "\<exists>j c s sourced. derived_event env cfg
    ((normalized_event env cfg auth header j sourced)\<lparr>ev_context_conflict := c, ev_step_id_conflict := s\<rparr>) e"
proof -
  have one: "\<exists>c s. derived_event env cfg
      ((normalized_event env cfg auth header j x)\<lparr>ev_context_conflict := c, ev_step_id_conflict := s\<rparr>) e"
    if "handle_event env cfg auth header j db0 x = (r0, db1, fx0)" "(e, ok) \<in> set (emitted fx0)" for j x db0 r0 db1 fx0
    using handle_event_outcome [OF that(1)] event_outcome_derived [OF _ that(2)] by blast
  have all: "\<exists>j c s sourced. derived_event env cfg
      ((normalized_event env cfg auth header j sourced)\<lparr>ev_context_conflict := c, ev_step_id_conflict := s\<rparr>) e"
    if ok: "handle_events_from env cfg auth header i db xs = (Ok ds, db1, fx1)" and mem: "(e, ok) \<in> set (emitted fx1)" for xs ds db1 fx1
  proof -
    obtain j where "j < length xs" "emitted fx1 ! j = (e, ok)" using mem handle_events_ok [OF ok] by (auto simp: in_set_conv_nth)
    then show ?thesis using handle_events_ok [OF ok] event_outcome_derived by (metis list.set_intros(1))
  qed
  show ?thesis
  proof (cases r)
    case (Inl err)
    then show ?thesis using handle_events_err [of env cfg auth header i db xs err db' fx] assms one all by (metis Un_iff emitted_simps(4) set_append)
  next
    case (Inr ds)
    then show ?thesis using assms all by blast
  qed
qed

text \<open>An event is marked as taken exactly when the sink took it, and a decision has a name.\<close>

lemma emit_decided_sink:
  "emit_decided env cfg i ev d = (r, fx) \<Longrightarrow> (e, ok) \<in> set (emitted fx) \<Longrightarrow> ok = ee_sink env i e"
  by (auto simp: emit_decided_def Let_def emit_event_def split: if_splits sum.splits)

lemma audit_unavailable_sink:
  "audit_policy_unavailable env cfg i ev = (r, fx) \<Longrightarrow> (e, ok) \<in> set (emitted fx) \<Longrightarrow> ok = ee_sink env i e"
  by (auto simp: audit_policy_unavailable_def Let_def emit_event_def split: if_splits)

lemma decide_event_sink:
  assumes "decide_event env cfg auth i ev = (r, fx)" "(e, ok) \<in> set (emitted fx)"
  shows "ok = ee_sink env i e"
  using assms emit_decided_sink audit_unavailable_sink
  by (fastforce simp: decide_event_def Let_def split: if_splits prod.splits sum.splits)

lemma handle_event_sink:
  assumes "handle_event env cfg auth header i db sourced = (r, db', fx)" "(e, ok) \<in> set (emitted fx)"
  shows "ok = ee_sink env i e"
proof -
  have "\<exists>ev r'. decide_event env cfg auth i ev = (r', fx)"
    using assms by (auto simp: handle_event_def Let_def split: if_splits prod.splits sum.splits)
  then show ?thesis using decide_event_sink assms(2) by blast
qed

lemma validated_decision_named:
  "validate_agent_policy on client to_vec auth ev = Ok d \<Longrightarrow> pd_policy_decision d \<noteq> []"
  by (auto simp: validate_agent_policy_def disabled_allowed_decision_def local_decision_def decision_from_policy_response_def
      event_decision_from_policy_response_def split_beta Let_def split: if_splits option.splits policy_call.splits decision_kind.splits)

lemma handle_event_named:
  assumes "handle_event env cfg auth header i db sourced = (Ok d, db', fx)"
  shows "pd_policy_decision d \<noteq> []"
proof -
  obtain ev fx' where "decide_event env cfg auth i ev = (Ok d, fx')"
    using assms by (auto simp: handle_event_def Let_def split: if_splits prod.splits sum.splits)
  then obtain v fx'' where "emit_decided env cfg i ev v = (Ok d, fx'')" "pd_policy_decision v \<noteq> []"
    using validated_decision_named audit_unavailable_cases
    by (fastforce simp: decide_event_def Let_def skipped_audit_decision_def local_decision_def split: if_splits prod.splits sum.splits)
  then show ?thesis using emit_decided_cases by (fastforce simp: with_sink_status_def)
qed

lemma handle_events_sink:
  "handle_events_from env cfg auth header i db xs = (Ok ds, db', fx) \<Longrightarrow> j < length xs \<Longrightarrow>
     snd (emitted fx ! j) = ee_sink env (i + j) (fst (emitted fx ! j)) \<and> pd_policy_decision (ds ! j) \<noteq> []"
proof (induction xs arbitrary: i db ds fx j)
  case (Cons x xs)
  obtain d db1 fx1 ds2 fx2 where one: "handle_event env cfg auth header i db x = (Ok d, db1, fx1)"
      and more: "handle_events_from env cfg auth header (Suc i) db1 xs = (Ok ds2, db', fx2)"
      and ds: "ds = d # ds2" "fx = fx1 @ fx2"
    using Cons.prems(1) by (auto split: prod.splits sum.splits)
  obtain e where e: "emitted fx1 = [e]" using handle_event_outcome [OF one] by (auto simp: event_outcome_def)
  show ?case
  proof (cases j)
    case 0
    then show ?thesis
      using handle_event_sink [OF one, of "fst e" "snd e"] handle_event_named [OF one] e by (simp add: ds)
  next
    case (Suc k)
    then show ?thesis using Cons.IH [OF more, of k] Cons.prems(2) e by (simp add: ds)
  qed
qed simp

lemma normalized_trust:
  "ev_trust_level (normalized_event env cfg auth header i sourced)
     = (if nonempty_trimmed (registered_agent_name auth) = None then TlSelfReported else TlAuthBound)"
  by (auto simp: normalized_event_def normalize_event_def Let_def resolve_agent_name_def split: option.split)

lemma normalized_fields:
  "ev_workspace_id (normalized_event env cfg auth header i sourced) = uuid_string (org_id auth)"
  "ev_virtual_key_id (normalized_event env cfg auth header i sourced) = auth_virtual_key_id auth"
  "ev_agent_uid (normalized_event env cfg auth header i sourced) = None"
  "ev_billing_mirror_trusted (normalized_event env cfg auth header i sourced) = False"
  "ev_policy_mode (normalized_event env cfg auth header i sourced) = ac_policy_mode cfg"
  "ac_metadata_redaction cfg = RedactionBasic \<Longrightarrow> redacted (ev_metadata (normalized_event env cfg auth header i sourced))"
  by (simp_all add: normalized_event_def redacted_normalized) (simp_all add: normalize_event_def Let_def)

section \<open>Properties\<close>

text \<open>The authentication that the service uses.\<close>

definition request_auth :: "events_http_request \<Rightarrow> auth_context option" where
  "request_auth req = (case eh_auth req of Some a \<Rightarrow> Some a | None \<Rightarrow> eh_ctx_auth req)"

definition request_header :: "agent_config \<Rightarrow> events_http_request \<Rightarrow> agent_context option" where
  "request_header cfg req = (if ac_allow_header_context cfg
     then parse_agent_context_from_headers (eh_headers req) (ac_max_header_value_bytes cfg) else None)"

lemma handle_agent_events_cases:
  assumes "handle_agent_events env cfg db req = (r, db', fx)"
  shows "(fx = [] \<and> db' = db \<and> \<not> is_ok r) \<or> (\<exists>auth body request r'.
    ac_enabled cfg \<and> eh_method req = ''POST'' \<and> request_auth req = Some auth \<and> eh_body req = Some body
    \<and> length body \<le> ac_max_event_bytes cfg \<and> ee_parse env body = Some request
    \<and> length (into_sourced_events request) \<le> ac_max_batch_events cfg
    \<and> handle_events_from env cfg auth (request_header cfg req) 0 db (into_sourced_events request) = (r', db', fx)
    \<and> r = (case r' of Inl e \<Rightarrow> Err e
           | Inr ds \<Rightarrow> Ok \<lparr>es_accepted = length ds, es_rejected = 0, es_allowed = list_all pd_allowed ds, es_decisions = ds\<rparr>))"
  using assms unfolding handle_agent_events_def request_header_def [symmetric] request_auth_def [symmetric] Let_def
  by (auto simp: validate_event_limits_def split: if_splits option.splits prod.splits sum.splits)

lemma answer_eq:
  "Ok x = (case r of Inl e \<Rightarrow> Err e | Inr y \<Rightarrow> Ok (f y)) \<longleftrightarrow> (\<exists>y. r = Ok y \<and> x = f y)"
  "Err e = (case r of Inl e \<Rightarrow> Err e | Inr y \<Rightarrow> Ok (f y)) \<longleftrightarrow> r = Err e"
  by (cases r; auto)+

text \<open>
  Property C4. Whatever a client reports, every event that reaches the sink belongs to the workspace and the virtual
  key of the authentication, names no registered agent, and cannot start the mirroring of costs; its trust level is
  that of a bound identity only when the key carries a registered name. Its metadata respects the configured limit
  also after the decision has been added, and contains no value under a sensitive key when redaction is on.
\<close>

theorem agent_events_attested:
  assumes "handle_agent_events env cfg db req = (r, db', fx)" "(e, ok) \<in> set (emitted fx)"
  shows "\<exists>auth. request_auth req = Some auth \<and> ev_workspace_id e = uuid_string (org_id auth)
    \<and> ev_virtual_key_id e = auth_virtual_key_id auth \<and> ev_agent_uid e = None \<and> \<not> ev_billing_mirror_trusted e
    \<and> ev_policy_mode e = ac_policy_mode cfg
    \<and> ev_trust_level e = (if nonempty_trimmed (registered_agent_name auth) = None then TlSelfReported else TlAuthBound)
    \<and> length (ee_to_vec env (ev_metadata e)) \<le> ac_max_metadata_bytes cfg
    \<and> (ac_metadata_redaction cfg = RedactionBasic \<longrightarrow> redacted (ev_metadata e))"
proof -
  obtain auth r' xs where auth: "request_auth req = Some auth"
    and run: "handle_events_from env cfg auth (request_header cfg req) 0 db xs = (r', db', fx)"
    using handle_agent_events_cases [OF assms(1)] assms(2) by auto
  obtain j c s x where d: "derived_event env cfg
      ((normalized_event env cfg auth (request_header cfg req) j x)\<lparr>ev_context_conflict := c, ev_step_id_conflict := s\<rparr>) e"
    using batch_emits_derived [OF run assms(2)] by blast
  define n where "n = normalized_event env cfg auth (request_header cfg req) j x"
  obtain t m where e: "e = n\<lparr>ev_context_conflict := c, ev_step_id_conflict := s, ev_event_type := t, ev_metadata := m\<rparr>"
    and m: "metadata_fits env cfg m" "redacted (ev_metadata n) \<longrightarrow> redacted m"
    using d unfolding derived_event_def n_def by auto
  have "length (ee_to_vec env m) \<le> ac_max_metadata_bytes cfg"
    using m(1) by (auto simp: metadata_fits_def validate_metadata_limit_def split: if_splits)
  then show ?thesis
    using auth m(2) by (simp add: e n_def normalized_fields normalized_trust)
qed

text \<open>
  Property C3. A batch is accepted only as a whole: the answer counts every event of the request, each of them was
  taken by the sink together with its decision, and the answer says \<open>allowed\<close> only when the policy gate let pass
  every event that the adapter leaves in the phase before an action. For a source other than \<open>alephant\<close> and
  LangGraph, and for the types that the LangGraph table lists, these are all the events whose type announces an
  action, whatever the client claims about phase or confidence. For \<open>alephant\<close>, and for the types that the LangGraph table does not list, the phase is the one that
  the client claims, so an event of these sources that claims an audit phase is not gated.
\<close>

theorem agent_events_gated:
  assumes "handle_agent_events env cfg db req = (Ok resp, db', fx)"
    and "request_auth req = Some auth" "eh_body req = Some body" "ee_parse env body = Some request"
    and "sourced = into_sourced_events request"
    and "adapted = map (\<lambda>x. adapt_agent_event (fst x) (snd x)) sourced"
  shows "es_accepted resp = length sourced \<and> length (emitted fx) = length sourced \<and> length (es_decisions resp) = length sourced
    \<and> (\<forall>j < length sourced. snd (emitted fx ! j) \<and> decision_recorded (es_decisions resp ! j) (fst (emitted fx ! j)))
    \<and> (es_allowed resp \<longrightarrow> (\<forall>j < length sourced.
         needs_gate (adapted ! j)
           \<or> adapter_decides (fst (sourced ! j)) (snd (sourced ! j)) \<and> announces_action (ei_event_type (adapted ! j)) \<longrightarrow>
         policy_allows (ee_policy_enabled env) (event_policy_client env j)
           (build_validate_agent_policy_request (ee_to_vec env) auth
              (normalized_event env cfg auth (request_header cfg req) j (sourced ! j)))))"
proof -
  have "is_ok (Ok resp :: agent_service_error + agent_events_response)" by simp
  then obtain ds where run: "handle_events_from env cfg auth (request_header cfg req) 0 db sourced = (Ok ds, db', fx)"
    and resp: "resp = \<lparr>es_accepted = length ds, es_rejected = 0, es_allowed = list_all pd_allowed ds, es_decisions = ds\<rparr>"
    using handle_agent_events_cases [OF assms(1)] assms(2-5) by (auto simp: answer_eq)
  note all = handle_events_ok [OF run, simplified]
  have one: "snd (emitted fx ! j) \<and> decision_recorded (ds ! j) (fst (emitted fx ! j))
      \<and> (pd_allowed (ds ! j) \<longrightarrow> gate_passed env auth j (normalized_event env cfg auth (request_header cfg req) j (sourced ! j)))"
    if "j < length sourced" for j
    using all that by (fastforce simp: event_outcome_def gate_passed_def flags_ignored)
  have gate: "needs_gate (adapted ! j)" if "j < length sourced"
      "needs_gate (adapted ! j) \<or> adapter_decides (fst (sourced ! j)) (snd (sourced ! j)) \<and> announces_action (ei_event_type (adapted ! j))" for j
    using that adapt_gated [of "fst (sourced ! j)" "snd (sourced ! j)"] by (auto simp: assms(6))
  have "policy_allows (ee_policy_enabled env) (event_policy_client env j)
      (build_validate_agent_policy_request (ee_to_vec env) auth (normalized_event env cfg auth (request_header cfg req) j (sourced ! j)))"
    if "es_allowed resp" "j < length sourced"
      "needs_gate (adapted ! j) \<or> adapter_decides (fst (sourced ! j)) (snd (sourced ! j)) \<and> announces_action (ei_event_type (adapted ! j))" for j
  proof -
    have "pd_allowed (ds ! j)" using that all by (simp add: resp list_all_length)
    moreover have "should_validate_policy_for_event (normalized_event env cfg auth (request_header cfg req) j (sourced ! j))"
      using gate [OF that(2,3)] that(2) by (simp add: should_validate_normalized assms(6))
    ultimately show ?thesis using one [OF that(2)] by (simp add: gate_passed_def)
  qed
  then show ?thesis using all one by (simp add: resp)
qed

text \<open>What an event of the batch and a failing event leave in the trace.\<close>

definition reported_as ::
    "events_env \<Rightarrow> agent_config \<Rightarrow> auth_context \<Rightarrow> agent_context option \<Rightarrow> nat
       \<Rightarrow> agent_event_source \<times> agent_event_input \<Rightarrow> agent_event \<Rightarrow> bool" where
  "reported_as env cfg auth header i sourced e \<longleftrightarrow> (\<exists>c s. derived_event env cfg
     ((normalized_event env cfg auth header i sourced)\<lparr>ev_context_conflict := c, ev_step_id_conflict := s\<rparr>) e)"

definition failure_emits :: "agent_service_error \<Rightarrow> (agent_event \<Rightarrow> bool) \<Rightarrow> (agent_event \<times> bool) list \<Rightarrow> bool" where
  "failure_emits err own out \<longleftrightarrow>
     out = [] \<and> err \<noteq> EvPolicyUnavailable
     \<or> (\<exists>e. out = [(e, False)] \<and> own e \<and> err = EvSinkFailed)
     \<or> (\<exists>e. out = [(e, True)] \<and> own e \<and> err = EvPolicyUnavailable \<and> ev_event_type e = ''policy_unavailable'')"

text \<open>
  Property C28. A failure ends a batch at the event it hits. The events before it ran to their end: each was taken by
  the sink as a record of that very event with its decision, and these records stay. The failing event itself leaves
  the store and the trace as they are in the end, so no later event sends anything to the policy service, to Redis or
  to the sink. For the failing event nothing is emitted except a record of that event which the sink refused, or, when
  the policy service is unavailable, the audit record that says so; a claim of its step identifier is not taken back.
\<close>

theorem agent_events_first_failure:
  assumes "handle_agent_events env cfg db req = (Err err, db', fx)"
    and "ac_enabled cfg" "eh_method req = ''POST''" "request_auth req = Some auth"
    and "eh_body req = Some body" "length body \<le> ac_max_event_bytes cfg" "ee_parse env body = Some request"
    and "sourced = into_sourced_events request" "length sourced \<le> ac_max_batch_events cfg"
    and "header = request_header cfg req"
  shows "\<exists>k < length sourced. \<exists>ds db1 fx1 fx2.
      handle_events_from env cfg auth header 0 db (take k sourced) = (Ok ds, db1, fx1)
    \<and> handle_event env cfg auth header k db1 (sourced ! k) = (Err err, db', fx2) \<and> fx = fx1 @ fx2
    \<and> length ds = k \<and> length (emitted fx1) = k
    \<and> (\<forall>j < k. snd (emitted fx1 ! j) \<and> decision_recorded (ds ! j) (fst (emitted fx1 ! j))
         \<and> reported_as env cfg auth header j (sourced ! j) (fst (emitted fx1 ! j)))
    \<and> failure_emits err (reported_as env cfg auth header k (sourced ! k)) (emitted fx2)"
proof -
  have "handle_agent_events env cfg db req = (case handle_events_from env cfg auth header 0 db sourced of
      (r, db', fx) \<Rightarrow> (case r of Inl e \<Rightarrow> Err e
        | Inr ds \<Rightarrow> Ok \<lparr>es_accepted = length ds, es_rejected = 0, es_allowed = list_all pd_allowed ds, es_decisions = ds\<rparr>, db', fx))"
    using assms(2-10)
    unfolding handle_agent_events_def request_header_def [symmetric] request_auth_def [symmetric] Let_def
    by (simp add: validate_event_limits_def split: prod.split sum.split)
  then have run: "handle_events_from env cfg auth header 0 db sourced = (Err err, db', fx)"
    using assms(1) by (auto split: prod.splits sum.splits)
  obtain k ds db1 fx1 fx2 where k: "k < length sourced"
    and ok: "handle_events_from env cfg auth header 0 db (take k sourced) = (Ok ds, db1, fx1)"
    and bad: "handle_event env cfg auth header k db1 (sourced ! k) = (Err err, db', fx2)" and fx: "fx = fx1 @ fx2"
    using handle_events_err [OF run] by auto
  have "snd (emitted fx1 ! j) \<and> decision_recorded (ds ! j) (fst (emitted fx1 ! j))
      \<and> reported_as env cfg auth header j (sourced ! j) (fst (emitted fx1 ! j))" if "j < k" for j
    using handle_events_ok [OF ok] that k unfolding reported_as_def by (fastforce simp: event_outcome_def)
  moreover have "failure_emits err (reported_as env cfg auth header k (sourced ! k)) (emitted fx2)"
    using handle_event_outcome [OF bad] unfolding reported_as_def failure_emits_def by (auto simp: event_outcome_def)
  ultimately show ?thesis using k ok bad fx handle_events_ok [OF ok] by (intro exI [of _ k] conjI exI) auto
qed

section \<open>Examples\<close>

text \<open>
  A gateway with a policy service that answers with the given decision, or without one, and a sink that takes every
  event; a request with the n8n event of \<open>ex_reported\<close>, which announces a call of a tool.
\<close>

definition ex_events_env :: "int option \<Rightarrow> events_env" where
  "ex_events_env verdict =
     \<lparr>ee_parse = (\<lambda>_. Some (EventSingle (ex_reported\<lparr>ei_source := Some EsN8n\<rparr>))), ee_to_vec = (\<lambda>_. []), ee_uuid = (\<lambda>i. i),
      ee_now = (\<lambda>i. int i), ee_redis = None, ee_policy_enabled = True,
      ee_policy_client = map_option (\<lambda>v i q. PolicyAnswered
        \<lparr>pr_allowed = False, pr_reason = [], pr_blocked_by = [], pr_route_hint = [], pr_snapshot_revision = 0,
         pr_reason_message = [], pr_policy_id = [], pr_policy_scope = 1, pr_violations = [], pr_warnings = [],
         pr_decision = v\<rparr>) verdict,
      ee_sink = (\<lambda>_ _. True)\<rparr>"

definition ex_events_cfg :: agent_config where
  "ex_events_cfg = default_agent_config\<lparr>ac_enabled := True, ac_allow_header_context := False\<rparr>"

definition ex_events_request :: events_http_request where
  "ex_events_request = \<lparr>eh_method = ''POST'', eh_headers = [], eh_auth = Some ex_auth, eh_ctx_auth = None,
     eh_body = Some ''{}''\<rparr>"

lemma ex_needs_gate: "needs_gate (adapt_agent_event EsN8n (ex_reported\<lparr>ei_source := Some EsN8n\<rparr>))"
  by code_simp

lemma ex_events_run:
  "\<exists>c s. handle_agent_events (ex_events_env v) ex_events_cfg db ex_events_request =
     (case decide_event (ex_events_env v) ex_events_cfg ex_auth 0
        ((normalized_event (ex_events_env v) ex_events_cfg ex_auth None 0
            (EsN8n, ex_reported\<lparr>ei_source := Some EsN8n\<rparr>))\<lparr>ev_context_conflict := c, ev_step_id_conflict := s\<rparr>) of
        (Inl e, fx) \<Rightarrow> (Err e, db, fx)
      | (Inr d, fx) \<Rightarrow> (Ok \<lparr>es_accepted = 1, es_rejected = 0, es_allowed = pd_allowed d, es_decisions = [d]\<rparr>, db, fx))"
proof -
  let ?env = "ex_events_env v" and ?x = "(EsN8n, ex_reported\<lparr>ei_source := Some EsN8n\<rparr>)"
  have fits: "metadata_fits ?env ex_events_cfg m" for m
    by (simp add: metadata_fits_def validate_metadata_limit_def ex_events_env_def)
  have step: "check_step_conflict ex_events_cfg None db ex_auth ev = (Ok StepNoConflict, db)" for ev
    by (simp add: check_step_conflict_def detect_step_conflict_def ex_events_cfg_def default_agent_config_def Let_def
        split: option.split)
  have ctx: "check_context_conflict None ev a = Ok False" for ev a by (simp add: check_context_conflict_def)
  have env: "ee_redis ?env = None" "ee_parse ?env body = Some (EventSingle (ex_reported\<lparr>ei_source := Some EsN8n\<rparr>))" for body
    by (simp_all add: ex_events_env_def)
  have one: "handle_event ?env ex_events_cfg ex_auth None 0 db ?x = (case decide_event ?env ex_events_cfg ex_auth 0
      ((normalized_event ?env ex_events_cfg ex_auth None 0 ?x)\<lparr>ev_context_conflict := False, ev_step_id_conflict := False\<rparr>)
      of (r, fx) \<Rightarrow> (r, db, fx))"
    by (simp add: handle_event_def fits ctx step env)
  have cfg: "ac_enabled ex_events_cfg" "\<not> ac_allow_header_context ex_events_cfg" "ac_max_event_bytes ex_events_cfg = 65536"
    "ac_max_batch_events ex_events_cfg = 100"
    by (simp_all add: ex_events_cfg_def default_agent_config_def)
  have src: "into_sourced_events (EventSingle (ex_reported\<lparr>ei_source := Some EsN8n\<rparr>)) = [?x]"
    by (simp add: first_source_def)
  show ?thesis
    by (intro exI [of _ False])
      (simp add: handle_agent_events_def ex_events_request_def cfg env src validate_event_limits_def one
        del: into_sourced_events.simps split: prod.split sum.split)
qed

lemma ex_decide:
  fixes c s :: bool
  defines "ev \<equiv> \<lambda>v. (normalized_event (ex_events_env v) ex_events_cfg ex_auth None 0
      (EsN8n, ex_reported\<lparr>ei_source := Some EsN8n\<rparr>))\<lparr>ev_context_conflict := c, ev_step_id_conflict := s\<rparr>"
  shows "\<exists>d fx. decide_event (ex_events_env (Some 1)) ex_events_cfg ex_auth 0 (ev (Some 1)) = (Ok d, fx) \<and> pd_allowed d"
    and "\<exists>e. decide_event (ex_events_env None) ex_events_cfg ex_auth 0 (ev None) = (Err EvPolicyUnavailable, [EventEmitted e True])"
proof -
  have fits: "metadata_fits (ex_events_env v) ex_events_cfg m" for v m
    by (simp add: metadata_fits_def validate_metadata_limit_def ex_events_env_def)
  have gate: "should_validate_policy_for_event (ev v)" for v
    using ex_needs_gate by (simp add: ev_def flags_ignored should_validate_normalized)
  have on: "ee_policy_enabled (ex_events_env v)" for v by (simp add: ex_events_env_def)
  have sink: "ee_sink (ex_events_env v) 0 e" for v e by (simp add: ex_events_env_def)
  have "\<exists>d. validate_agent_policy True (event_policy_client (ex_events_env (Some 1)) 0) (ee_to_vec (ex_events_env (Some 1)))
      ex_auth (ev (Some 1)) = Ok d \<and> pd_allowed d"
    by (simp add: validate_allows policy_allows_def event_policy_client_def ex_events_env_def)
  then show "\<exists>d fx. decide_event (ex_events_env (Some 1)) ex_events_cfg ex_auth 0 (ev (Some 1)) = (Ok d, fx) \<and> pd_allowed d"
    using gate [of "Some 1"]
    by (auto simp: decide_event_def emit_decided_def record_decision_def emit_event_def fits sink on with_sink_status_def
        Let_def)
  have "validate_agent_policy True (event_policy_client (ex_events_env None) 0) (ee_to_vec (ex_events_env None)) ex_auth (ev None)
      = Err PolicyUnavailable"
    by (simp add: validate_agent_policy_def event_policy_client_def ex_events_env_def)
  then show "\<exists>e. decide_event (ex_events_env None) ex_events_cfg ex_auth 0 (ev None) = (Err EvPolicyUnavailable, [EventEmitted e True])"
    using gate [of None]
    by (simp add: decide_event_def audit_policy_unavailable_def emit_event_def fits sink on Let_def)
      (simp add: event_policy_client_def ex_events_env_def)
qed

lemma ex_allowed_run:
  "\<exists>d fx. handle_agent_events (ex_events_env (Some 1)) ex_events_cfg Map.empty ex_events_request
     = (Ok \<lparr>es_accepted = 1, es_rejected = 0, es_allowed = True, es_decisions = [d]\<rparr>, Map.empty, fx)"
proof -
  obtain c s where run: "handle_agent_events (ex_events_env (Some 1)) ex_events_cfg Map.empty ex_events_request =
     (case decide_event (ex_events_env (Some 1)) ex_events_cfg ex_auth 0
        ((normalized_event (ex_events_env (Some 1)) ex_events_cfg ex_auth None 0
            (EsN8n, ex_reported\<lparr>ei_source := Some EsN8n\<rparr>))\<lparr>ev_context_conflict := c, ev_step_id_conflict := s\<rparr>) of
        (Inl e, fx) \<Rightarrow> (Err e, Map.empty, fx)
      | (Inr d, fx) \<Rightarrow> (Ok \<lparr>es_accepted = 1, es_rejected = 0, es_allowed = pd_allowed d, es_decisions = [d]\<rparr>, Map.empty, fx))"
    using ex_events_run by blast
  show ?thesis using ex_decide(1) [of s c] by (auto simp: run)
qed

lemma ex_request_facts:
  "request_auth ex_events_request = Some ex_auth" "eh_body ex_events_request = Some ''{}''"
  "ee_parse (ex_events_env v) ''{}'' = Some (EventSingle (ex_reported\<lparr>ei_source := Some EsN8n\<rparr>))"
  "request_header ex_events_cfg ex_events_request = None" "ac_metadata_redaction ex_events_cfg = RedactionBasic"
  "into_sourced_events (EventSingle (ex_reported\<lparr>ei_source := Some EsN8n\<rparr>)) = [(EsN8n, ex_reported\<lparr>ei_source := Some EsN8n\<rparr>)]"
  by (simp_all add: request_auth_def ex_events_request_def ex_events_env_def request_header_def ex_events_cfg_def
      default_agent_config_def first_source_def)

theorem agent_events_gated_witness:
  "\<exists>resp db' fx. handle_agent_events (ex_events_env (Some 1)) ex_events_cfg Map.empty ex_events_request = (Ok resp, db', fx)
     \<and> es_accepted resp = 1 \<and> es_allowed resp \<and> snd (emitted fx ! 0)
     \<and> policy_allows (ee_policy_enabled (ex_events_env (Some 1))) (event_policy_client (ex_events_env (Some 1)) 0)
         (build_validate_agent_policy_request (ee_to_vec (ex_events_env (Some 1))) ex_auth
            (normalized_event (ex_events_env (Some 1)) ex_events_cfg ex_auth None 0 (EsN8n, ex_reported\<lparr>ei_source := Some EsN8n\<rparr>)))"
proof -
  obtain d fx where run: "handle_agent_events (ex_events_env (Some 1)) ex_events_cfg Map.empty ex_events_request
     = (Ok \<lparr>es_accepted = 1, es_rejected = 0, es_allowed = True, es_decisions = [d]\<rparr>, Map.empty, fx)"
    using ex_allowed_run by blast
  show ?thesis
    using agent_events_gated [OF run ex_request_facts(1,2,3) refl refl] run ex_needs_gate
    by (simp add: ex_request_facts first_source_def)
qed

theorem agent_events_attested_witness:
  "\<exists>r db' fx e ok. handle_agent_events (ex_events_env (Some 1)) ex_events_cfg Map.empty ex_events_request = (r, db', fx)
     \<and> emitted fx = [(e, ok)] \<and> ev_workspace_id e = uuid_string (org_id ex_auth) \<and> \<not> ev_billing_mirror_trusted e
     \<and> redacted (ev_metadata e)"
proof -
  obtain d fx where run: "handle_agent_events (ex_events_env (Some 1)) ex_events_cfg Map.empty ex_events_request
     = (Ok \<lparr>es_accepted = 1, es_rejected = 0, es_allowed = True, es_decisions = [d]\<rparr>, Map.empty, fx)"
    using ex_allowed_run by blast
  have "handle_events_from (ex_events_env (Some 1)) ex_events_cfg ex_auth None 0 Map.empty
      [(EsN8n, ex_reported\<lparr>ei_source := Some EsN8n\<rparr>)] = (Ok [d], Map.empty, fx)"
    using handle_agent_events_cases [OF run] by (auto simp: ex_request_facts answer_eq first_source_def)
  from handle_events_ok [OF this] have "length (emitted fx) = 1" by simp
  then obtain e ok where e: "emitted fx = [(e, ok)]" by (cases "emitted fx") auto
  show ?thesis
    using agent_events_attested [OF run, of e ok] run e by (auto simp: ex_request_facts)
qed

theorem agent_events_first_failure_witness:
  "\<exists>db' fx e. handle_agent_events (ex_events_env None) ex_events_cfg Map.empty ex_events_request = (Err EvPolicyUnavailable, db', fx)
     \<and> emitted fx = [(e, True)] \<and> ev_event_type e = ''policy_unavailable''
     \<and> reported_as (ex_events_env None) ex_events_cfg ex_auth None 0 (EsN8n, ex_reported\<lparr>ei_source := Some EsN8n\<rparr>) e"
proof -
  obtain c s where run: "handle_agent_events (ex_events_env None) ex_events_cfg Map.empty ex_events_request =
     (case decide_event (ex_events_env None) ex_events_cfg ex_auth 0
        ((normalized_event (ex_events_env None) ex_events_cfg ex_auth None 0
            (EsN8n, ex_reported\<lparr>ei_source := Some EsN8n\<rparr>))\<lparr>ev_context_conflict := c, ev_step_id_conflict := s\<rparr>) of
        (Inl e, fx) \<Rightarrow> (Err e, Map.empty, fx)
      | (Inr d, fx) \<Rightarrow> (Ok \<lparr>es_accepted = 1, es_rejected = 0, es_allowed = pd_allowed d, es_decisions = [d]\<rparr>, Map.empty, fx))"
    using ex_events_run by blast
  obtain e where run': "handle_agent_events (ex_events_env None) ex_events_cfg Map.empty ex_events_request
      = (Err EvPolicyUnavailable, Map.empty, [EventEmitted e True])"
    using ex_decide(2) [of s c] by (auto simp: run)
  have admitted: "ac_enabled ex_events_cfg" "eh_method ex_events_request = ''POST''"
      "length ''{}'' \<le> ac_max_event_bytes ex_events_cfg"
      "length (into_sourced_events (EventSingle (ex_reported\<lparr>ei_source := Some EsN8n\<rparr>))) \<le> ac_max_batch_events ex_events_cfg"
    by (simp_all add: ex_events_cfg_def default_agent_config_def ex_events_request_def first_source_def)
  let ?xs = "[(EsN8n, ex_reported\<lparr>ei_source := Some EsN8n\<rparr>)]"
  obtain k fx1 fx2 where k: "k < length ?xs" and fx: "[EventEmitted e True] = fx1 @ fx2" "length (emitted fx1) = k"
    and own: "failure_emits EvPolicyUnavailable (reported_as (ex_events_env None) ex_events_cfg ex_auth None k (?xs ! k)) (emitted fx2)"
    using agent_events_first_failure [OF run' admitted(1,2) ex_request_facts(1,2) admitted(3) ex_request_facts(3) refl admitted(4) refl]
    unfolding ex_request_facts by blast
  have k0: "k = 0" using k by simp
  have "emitted [EventEmitted e True] = emitted fx1 @ emitted fx2" unfolding fx(1) by simp
  then have "emitted fx2 = [(e, True)]" using fx(2) k0 by simp
  then show ?thesis using run' own by (auto simp: failure_emits_def k0)
qed

end
