(* ===== verification/Agent_Log.thy ===== *)
theory Agent_Log
  imports Tool_Audit Target_Hash
begin

text \<open>
  The log of agent events: the record that an event becomes (\<open>agent/log_payload.rs\<close>), its way to the log through
  Redis or HTTP (\<open>agent/log_transport.rs\<close>) and the sink that joins both (\<open>agent/sink.rs\<close>). The JSON printer, the
  url crate, Redis and the HTTP client are parameters.
\<close>

section \<open>The record\<close>

record log_payload =
  lp_version :: string
  lp_event_id :: string
  lp_workspace_id :: string
  lp_workspace_type :: string
  lp_user_id :: string
  lp_virtual_key_id :: string
  lp_entity_type :: string
  lp_entity_id :: string
  lp_entity_name :: string
  lp_alephant_agent_id :: string
  lp_alephant_agent_name :: string
  lp_alephant_agent_name_source :: string
  lp_alephant_agent_trust_level :: string
  lp_alephant_run_id :: string
  lp_alephant_step_id :: string
  lp_alephant_parent_step_id :: string
  lp_alephant_graph_node :: string
  lp_tool_call_id :: string
  lp_handoff_id :: string
  lp_tool_name :: string
  lp_tool_execution_id :: string
  lp_tool_cost_micros :: "nat option"
  lp_tool_cost_currency :: string
  lp_tool_cost_source :: string
  lp_billing_cost_type :: string
  lp_billing_cost_subtype :: string
  lp_billing_status :: string
  lp_billing_reason :: string
  lp_billing_amount_micros :: "nat option"
  lp_billing_currency :: string
  lp_billing_billable :: "bool option"
  lp_billing_dedupe_key :: string
  lp_target_kind :: string
  lp_service_slug :: string
  lp_operation_id :: string
  lp_event_type :: string
  lp_event_source :: string
  lp_event_phase :: string
  lp_policy_stage :: string
  lp_policy_mode :: string
  lp_event_source_trust :: string
  lp_observed_at :: int
  lp_event_time :: "int option"
  lp_sequence :: "nat option"
  lp_step_kind :: string
  lp_step_source :: string
  lp_step_confidence :: string
  lp_agent_trust_level :: string
  lp_context_conflict :: bool
  lp_step_id_conflict :: bool
  lp_attempt :: "nat option"
  lp_input_hash :: string
  lp_status :: string
  lp_severity :: string
  lp_message :: string
  lp_duration_ms :: "nat option"
  lp_latency_ms :: "nat option"
  lp_request_id :: string
  lp_model :: string
  lp_provider :: string
  lp_cost :: "64 word option"
  lp_policy_allowed :: "bool option"
  lp_policy_decision :: string
  lp_policy_reason :: string
  lp_policy_blocked_by :: string
  lp_policy_id :: string
  lp_policy_scope :: string
  lp_policy_snapshot_revision :: "int option"
  lp_sink_status :: string
  lp_metadata :: string

section \<open>Reading of metadata\<close>

text \<open>\<open>Value::as_u64\<close> and \<open>Value::as_f64\<close> of serde\_json; a double is given by its bits.\<close>

fun as_u64 :: "json \<Rightarrow> nat option" where
  "as_u64 (JNumber (PosInt n)) = Some n"
| "as_u64 _ = None"

definition nat_as_f64 :: "nat \<Rightarrow> 64 word" where
  "nat_as_f64 n = f64_quotient (f64_round n) 1"

fun as_f64 :: "json \<Rightarrow> 64 word option" where
  "as_f64 (JNumber (PosInt n)) = Some (nat_as_f64 n)"
| "as_f64 (JNumber (NegInt i)) = Some (or (push_bit 63 1) (nat_as_f64 (nat (- i))))"
| "as_f64 (JNumber (Float w)) = Some w"
| "as_f64 _ = None"

definition metadata_u64 :: "json \<Rightarrow> string \<Rightarrow> nat option" where
  "metadata_u64 metadata key = Option.bind (get key metadata) as_u64"

definition metadata_bool :: "json \<Rightarrow> string \<Rightarrow> bool option" where
  "metadata_bool metadata key = Option.bind (get key metadata) as_bool"

definition metadata_f64 :: "json \<Rightarrow> string \<Rightarrow> 64 word option" where
  "metadata_f64 metadata key = Option.bind (get key metadata) as_f64"

definition nested_metadata_string :: "json option \<Rightarrow> string \<Rightarrow> string" where
  "nested_metadata_string metadata key = (case metadata of Some v \<Rightarrow> metadata_string v key | None \<Rightarrow> [])"

text \<open>\<open>or_non_empty().or_else(..).unwrap_or_default()\<close>: the first text that is not empty.\<close>

fun first_text :: "string list \<Rightarrow> string" where
  "first_text [] = []"
| "first_text (s # rest) = (if s = [] then first_text rest else s)"

definition policy_decision_string :: "json \<Rightarrow> json option \<Rightarrow> string" where
  "policy_decision_string metadata pol =
     first_text [nested_metadata_string pol ''decision'', nested_metadata_string pol ''policyDecision'',
       metadata_string metadata ''policyDecision'']"

section \<open>Mirrors of trusted metadata\<close>

definition is_trusted_gateway_tool_event :: "agent_event \<Rightarrow> bool" where
  "is_trusted_gateway_tool_event ev \<longleftrightarrow>
     ev_billing_mirror_trusted ev \<and> ev_step_source ev = SsGateway
     \<and> ev_event_source_trust ev \<in> {EtGatewayObserved, EtGatewayExecuted}"

definition is_gateway_billing_tool_event :: "agent_event \<Rightarrow> bool" where
  "is_gateway_billing_tool_event ev \<longleftrightarrow>
     is_trusted_gateway_tool_event ev
     \<and> ev_event_type ev \<in> set [''tool.result.received'', ''tool.call.failed'', ''tool.call.timeout'', ''tool.policy.denied'',
          ''tool.policy.blocked'', ''tool.approval.rejected'', ''tool.approval.expired'', ''tool.call.replayed'']"

record tool_billing_mirror =
  bm_tool_execution_id :: string
  bm_tool_cost_micros :: "nat option"
  bm_tool_cost_currency :: string
  bm_tool_cost_source :: string
  bm_cost_type :: string
  bm_cost_subtype :: string
  bm_status :: string
  bm_reason :: string
  bm_amount_micros :: "nat option"
  bm_currency :: string
  bm_billable :: "bool option"
  bm_dedupe_key :: string

definition default_billing_mirror :: tool_billing_mirror where
  "default_billing_mirror =
     \<lparr>bm_tool_execution_id = [], bm_tool_cost_micros = None, bm_tool_cost_currency = [], bm_tool_cost_source = [],
      bm_cost_type = [], bm_cost_subtype = [], bm_status = [], bm_reason = [], bm_amount_micros = None, bm_currency = [],
      bm_billable = None, bm_dedupe_key = []\<rparr>"

text \<open>\<open>filter(Value::is_object)\<close>.\<close>

definition object_field :: "string \<Rightarrow> json \<Rightarrow> json option" where
  "object_field key v = (case get key v of Some (JObject m) \<Rightarrow> Some (JObject m) | _ \<Rightarrow> None)"

definition tool_billing_mirror_of :: "agent_event \<Rightarrow> json \<Rightarrow> tool_billing_mirror" where
  "tool_billing_mirror_of ev metadata =
     (if \<not> is_gateway_billing_tool_event ev then default_billing_mirror
      else
        let eid = metadata_string metadata ''toolExecutionId'' in
        if eid = [] then default_billing_mirror
        else case object_field ''billing'' metadata of
          None \<Rightarrow> default_billing_mirror
        | Some b \<Rightarrow>
            \<lparr>bm_tool_execution_id = eid,
             bm_tool_cost_micros = metadata_u64 metadata ''toolCostMicros'',
             bm_tool_cost_currency = metadata_string metadata ''toolCostCurrency'',
             bm_tool_cost_source = metadata_string b ''pricingSource'',
             bm_cost_type = metadata_string b ''costType'',
             bm_cost_subtype = metadata_string b ''costSubtype'',
             bm_status = metadata_string b ''status'',
             bm_reason = metadata_string b ''reason'',
             bm_amount_micros = metadata_u64 b ''amountMicros'',
             bm_currency = metadata_string b ''currency'',
             bm_billable = metadata_bool b ''billable'',
             bm_dedupe_key = metadata_string b ''dedupeKey''\<rparr>)"

text \<open>The kind of the target, the slug of the service and the operation.\<close>

definition operation_metadata_mirror :: "json \<Rightarrow> bool \<Rightarrow> string \<times> string \<times> string" where
  "operation_metadata_mirror metadata trusted =
     (if \<not> trusted then ([], [], [])
      else
        let gateway = object_field ''gateway'' metadata;
            field = (\<lambda>key. first_text [metadata_string metadata key, nested_metadata_string gateway key]) in
        (field ''targetKind'', field ''serviceSlug'', field ''operationId''))"

section \<open>From an event to the record\<close>

definition from_envelope :: "json_printer \<Rightarrow> agent_event \<Rightarrow> log_payload" where
  "from_envelope to_string ev =
     (let metadata = ev_metadata ev;
          pol = get ''policy'' metadata;
          trusted = is_trusted_gateway_tool_event ev;
          bill = tool_billing_mirror_of ev metadata;
          (target, slug, operation) = operation_metadata_mirror metadata trusted in
      \<lparr>lp_version = ev_version ev, lp_event_id = ev_event_id ev, lp_workspace_id = ev_workspace_id ev,
       lp_workspace_type = [], lp_user_id = [],
       lp_virtual_key_id = (case ev_virtual_key_id ev of Some i \<Rightarrow> uuid_string i | None \<Rightarrow> []),
       lp_entity_type = [], lp_entity_id = [], lp_entity_name = [],
       lp_alephant_agent_id = (case ev_agent_uid ev of
          Some i \<Rightarrow> uuid_string i | None \<Rightarrow> text_or_empty (ev_agent_id_external ev)),
       lp_alephant_agent_name = text_or_empty (ev_alephant_agent_name ev),
       lp_alephant_agent_name_source = text_or_empty (ev_alephant_agent_name_source ev),
       lp_alephant_agent_trust_level = text_or_empty (ev_alephant_agent_trust_level ev),
       lp_alephant_run_id = text_or_empty (ev_run_id ev), lp_alephant_step_id = text_or_empty (ev_step_id ev),
       lp_alephant_parent_step_id = text_or_empty (ev_parent_step_id ev),
       lp_alephant_graph_node = text_or_empty (ev_graph_node ev),
       lp_tool_call_id = text_or_empty (ev_tool_call_id ev), lp_handoff_id = text_or_empty (ev_handoff_id ev),
       lp_tool_name = first_text [metadata_string metadata ''tool_name'', text_or_empty (ev_name ev)],
       lp_tool_execution_id = first_text [bm_tool_execution_id bill,
          if trusted then metadata_string metadata ''toolExecutionId'' else []],
       lp_tool_cost_micros = bm_tool_cost_micros bill, lp_tool_cost_currency = bm_tool_cost_currency bill,
       lp_tool_cost_source = bm_tool_cost_source bill, lp_billing_cost_type = bm_cost_type bill,
       lp_billing_cost_subtype = bm_cost_subtype bill, lp_billing_status = bm_status bill,
       lp_billing_reason = bm_reason bill, lp_billing_amount_micros = bm_amount_micros bill,
       lp_billing_currency = bm_currency bill, lp_billing_billable = bm_billable bill,
       lp_billing_dedupe_key = bm_dedupe_key bill,
       lp_target_kind = target, lp_service_slug = slug, lp_operation_id = operation,
       lp_event_type = ev_event_type ev, lp_event_source = event_source_str (ev_event_source ev),
       lp_event_phase = event_phase_str (ev_event_phase ev), lp_policy_stage = policy_stage_str (ev_policy_stage ev),
       lp_policy_mode = policy_mode_str (ev_policy_mode ev),
       lp_event_source_trust = source_trust_str (ev_event_source_trust ev),
       lp_observed_at = ev_observed_at ev,
       lp_event_time = Some (case ev_timestamp ev of Some t \<Rightarrow> t | None \<Rightarrow> ev_observed_at ev),
       lp_sequence = ev_sequence ev,
       lp_step_kind = (case ev_step_kind ev of Some k \<Rightarrow> step_kind_str k | None \<Rightarrow> []),
       lp_step_source = step_source_str (ev_step_source ev),
       lp_step_confidence = confidence_str (ev_step_confidence ev),
       lp_agent_trust_level = trust_level_str (ev_trust_level ev),
       lp_context_conflict = ev_context_conflict ev, lp_step_id_conflict = ev_step_id_conflict ev,
       lp_attempt = ev_attempt ev, lp_input_hash = text_or_empty (ev_input_hash ev),
       lp_status = metadata_string metadata ''status'', lp_severity = metadata_string metadata ''severity'',
       lp_message = metadata_string metadata ''message'', lp_duration_ms = metadata_u64 metadata ''duration_ms'',
       lp_latency_ms = metadata_u64 metadata ''latency_ms'', lp_request_id = metadata_string metadata ''request_id'',
       lp_model = metadata_string metadata ''model'', lp_provider = metadata_string metadata ''provider'',
       lp_cost = metadata_f64 metadata ''cost'',
       lp_policy_allowed = Option.bind pol (\<lambda>p. metadata_bool p ''allowed''),
       lp_policy_decision = policy_decision_string metadata pol,
       lp_policy_reason = nested_metadata_string pol ''reason'',
       lp_policy_blocked_by = nested_metadata_string pol ''blocked_by'',
       lp_policy_id = nested_metadata_string pol ''policy_id'',
       lp_policy_scope = nested_metadata_string pol ''policy_scope'',
       lp_policy_snapshot_revision = Option.bind pol (\<lambda>p. metadata_i64 p ''snapshot_revision''),
       lp_sink_status = metadata_string metadata ''sinkStatus'',
       lp_metadata = to_string metadata\<rparr>)"

definition from_envelope_with_auth :: "json_printer \<Rightarrow> agent_event \<Rightarrow> auth_context \<Rightarrow> log_payload" where
  "from_envelope_with_auth to_string ev auth =
     (let payload = (from_envelope to_string ev)
            \<lparr>lp_workspace_type := text_or_empty (workspace_type auth), lp_user_id := uuid_string (user_id auth),
             lp_entity_type := entity_type auth, lp_entity_id := uuid_or_empty (entity_id auth),
             lp_entity_name := entity_name auth\<rparr> in
      if eq_ignore_ascii_case (entity_type auth) ''agent'' \<and> entity_id auth \<noteq> 0
      then payload\<lparr>lp_alephant_agent_id := uuid_string (entity_id auth), lp_agent_trust_level := trust_level_str TlAuthBound\<rparr>
      else payload)"

section \<open>The way to the log\<close>

datatype log_error =
  LogSerialize | LogRedis | LogRedisTimeout string | LogHttp | LogHttpStatus nat | LogHttpFallbackDisabled

text \<open>How a command of Redis ends under the timeout, and how the HTTP request does.\<close>

datatype redis_end = RedisDone | RedisFailed | RedisElapsed

datatype http_end = HttpAnswered nat | HttpBroken

text \<open>\<open>le_redis\<close> is the end of the ping and of the append, if Redis is configured.\<close>

record log_env =
  le_print :: "log_payload \<Rightarrow> string option"
  le_redis :: "(redis_end \<times> redis_end) option"
  le_http :: http_end

text \<open>
  The effects are attempts: \<open>LogAppended\<close> and \<open>LogPosted\<close> stand for the command and the request as they are made,
  whether or not they arrive. A key that is no header value makes the request fail, which is \<open>HttpBroken\<close>.
\<close>

datatype log_effect = LogPinged | LogAppended string string | LogPosted string string string

record log_transport =
  lt_stream_key :: string
  lt_http_fallback_enabled :: bool
  lt_http_endpoint :: string
  lt_http_authorization :: string

definition send_http ::
    "log_transport \<Rightarrow> log_env \<Rightarrow> string \<Rightarrow> log_error option \<Rightarrow> (log_error + unit) \<times> log_effect list" where
  "send_http t env body redis_error =
     (if \<not> lt_http_fallback_enabled t
      then (Err (case redis_error of Some e \<Rightarrow> e | None \<Rightarrow> LogHttpFallbackDisabled), [])
      else
        let posted = [LogPosted (lt_http_endpoint t) (''Bearer '' @ lt_http_authorization t) body] in
        case le_http env of
          HttpBroken \<Rightarrow> (Err LogHttp, posted)
        | HttpAnswered code \<Rightarrow> if 200 \<le> code \<and> code < 300 then (Ok (), posted) else (Err (LogHttpStatus code), posted))"

definition send_log :: "log_transport \<Rightarrow> log_env \<Rightarrow> log_payload \<Rightarrow> (log_error + unit) \<times> log_effect list" where
  "send_log t env payload =
     (case le_print env payload of
        None \<Rightarrow> (Err LogSerialize, [])
      | Some body \<Rightarrow>
          (let http = (\<lambda>err fx. case send_http t env body err of (r, fx') \<Rightarrow> (r, fx @ fx'));
               appended = [LogPinged, LogAppended (lt_stream_key t) body] in
           case le_redis env of
             None \<Rightarrow> http None []
           | Some (RedisDone, RedisDone) \<Rightarrow> (Ok (), appended)
           | Some (RedisDone, RedisFailed) \<Rightarrow> http (Some LogRedis) appended
           | Some (RedisDone, RedisElapsed) \<Rightarrow> http (Some (LogRedisTimeout ''xadd'')) appended
           | Some (RedisFailed, _) \<Rightarrow> http (Some LogRedis) [LogPinged]
           | Some (RedisElapsed, _) \<Rightarrow> http (Some (LogRedisTimeout ''ping'')) [LogPinged]))"

section \<open>The sink\<close>

datatype sink_error = SinkTransport log_error | SinkUrl

text \<open>\<open>parse\<close> is \<open>str::parse::<Url>\<close> and \<open>join\<close> is \<open>Url::join\<close> on the URL of the collector.\<close>

definition resolve_event_log_endpoint ::
    "(string \<Rightarrow> string option) \<Rightarrow> (string \<Rightarrow> string option) \<Rightarrow> string \<Rightarrow> string option" where
  "resolve_event_log_endpoint parse join_collector endpoint =
     (if starts_with ''http://'' endpoint \<or> starts_with ''https://'' endpoint then parse endpoint else join_collector endpoint)"

definition emit_agent_event ::
    "json_printer \<Rightarrow> (string \<Rightarrow> string option) \<Rightarrow> (string \<Rightarrow> string option) \<Rightarrow> log_env \<Rightarrow> agent_config \<Rightarrow> auth_context
       \<Rightarrow> agent_event \<Rightarrow> (sink_error + unit) \<times> log_effect list" where
  "emit_agent_event to_string parse join_collector env cfg auth ev =
     (case resolve_event_log_endpoint parse join_collector (ac_event_log_http_endpoint cfg) of
        None \<Rightarrow> (Err SinkUrl, [])
      | Some url \<Rightarrow>
          (let t = \<lparr>lt_stream_key = ac_event_stream_key cfg,
                    lt_http_fallback_enabled = ac_event_log_http_fallback_enabled cfg,
                    lt_http_endpoint = url, lt_http_authorization = api_key auth\<rparr> in
           case send_log t env (from_envelope_with_auth to_string ev auth) of
             (Inl e, fx) \<Rightarrow> (Err (SinkTransport e), fx)
           | (Inr _, fx) \<Rightarrow> (Ok (), fx)))"

text \<open>The sink that the event service uses; \<open>logs\<close> gives the answers of the log to the \<open>i\<close>-th event.\<close>

definition log_sink ::
    "json_printer \<Rightarrow> (string \<Rightarrow> string option) \<Rightarrow> (string \<Rightarrow> string option) \<Rightarrow> (nat \<Rightarrow> log_env) \<Rightarrow> agent_config
       \<Rightarrow> auth_context \<Rightarrow> nat \<Rightarrow> agent_event \<Rightarrow> bool" where
  "log_sink to_string parse join_collector logs cfg auth i ev =
     is_ok (fst (emit_agent_event to_string parse join_collector (logs i) cfg auth ev))"

section \<open>Lemmas\<close>

text \<open>
  A record without execution, costs in micros, bill or operation of a tool: all the fields that the mirrors of trusted
  metadata fill. The field \<open>lp_cost\<close> is not one of them; it is read from the metadata of any event.
\<close>

definition unbilled :: "log_payload \<Rightarrow> bool" where
  "unbilled p \<longleftrightarrow>
     lp_tool_execution_id p = [] \<and> lp_tool_cost_micros p = None \<and> lp_tool_cost_currency p = [] \<and> lp_tool_cost_source p = []
     \<and> lp_billing_cost_type p = [] \<and> lp_billing_cost_subtype p = [] \<and> lp_billing_status p = [] \<and> lp_billing_reason p = []
     \<and> lp_billing_amount_micros p = None \<and> lp_billing_currency p = [] \<and> lp_billing_billable p = None
     \<and> lp_billing_dedupe_key p = [] \<and> lp_target_kind p = [] \<and> lp_service_slug p = [] \<and> lp_operation_id p = []"

text \<open>What the authentication adds leaves the mirrored fields and those of the decision alone.\<close>

lemma with_auth_fields:
  fixes to_string ev auth
  defines "p \<equiv> from_envelope to_string ev" and "q \<equiv> from_envelope_with_auth to_string ev auth"
  shows "lp_tool_execution_id q = lp_tool_execution_id p" "lp_tool_cost_micros q = lp_tool_cost_micros p"
    "lp_tool_cost_currency q = lp_tool_cost_currency p" "lp_tool_cost_source q = lp_tool_cost_source p"
    "lp_billing_cost_type q = lp_billing_cost_type p" "lp_billing_cost_subtype q = lp_billing_cost_subtype p"
    "lp_billing_status q = lp_billing_status p" "lp_billing_reason q = lp_billing_reason p"
    "lp_billing_amount_micros q = lp_billing_amount_micros p" "lp_billing_currency q = lp_billing_currency p"
    "lp_billing_billable q = lp_billing_billable p" "lp_billing_dedupe_key q = lp_billing_dedupe_key p"
    "lp_target_kind q = lp_target_kind p" "lp_service_slug q = lp_service_slug p"
    "lp_operation_id q = lp_operation_id p" "lp_workspace_id q = lp_workspace_id p"
    "lp_virtual_key_id q = lp_virtual_key_id p" "lp_cost q = lp_cost p" "lp_policy_allowed q = lp_policy_allowed p"
    "lp_policy_decision q = lp_policy_decision p" "lp_policy_reason q = lp_policy_reason p"
    "lp_sink_status q = lp_sink_status p"
    "lp_user_id q = uuid_string (user_id auth)"
  by (simp_all add: p_def q_def from_envelope_with_auth_def Let_def)

lemma log_fields:
  fixes to_string ev
  defines "p \<equiv> from_envelope to_string ev" and "m \<equiv> ev_metadata ev" and "b \<equiv> tool_billing_mirror_of ev (ev_metadata ev)"
    and "op \<equiv> operation_metadata_mirror (ev_metadata ev) (is_trusted_gateway_tool_event ev)"
  shows "lp_tool_cost_micros p = bm_tool_cost_micros b" "lp_tool_cost_currency p = bm_tool_cost_currency b"
    "lp_tool_cost_source p = bm_tool_cost_source b" "lp_billing_cost_type p = bm_cost_type b"
    "lp_billing_cost_subtype p = bm_cost_subtype b" "lp_billing_status p = bm_status b"
    "lp_billing_reason p = bm_reason b" "lp_billing_amount_micros p = bm_amount_micros b"
    "lp_billing_currency p = bm_currency b" "lp_billing_billable p = bm_billable b"
    "lp_billing_dedupe_key p = bm_dedupe_key b"
    "lp_tool_execution_id p = first_text [bm_tool_execution_id b,
       if is_trusted_gateway_tool_event ev then metadata_string m ''toolExecutionId'' else []]"
    "lp_target_kind p = fst op" "lp_service_slug p = fst (snd op)" "lp_operation_id p = snd (snd op)"
    "lp_workspace_id p = ev_workspace_id ev"
    "lp_virtual_key_id p = (case ev_virtual_key_id ev of Some i \<Rightarrow> uuid_string i | None \<Rightarrow> [])"
    "lp_cost p = metadata_f64 m ''cost''"
    "lp_policy_allowed p = Option.bind (get ''policy'' m) (\<lambda>x. metadata_bool x ''allowed'')"
    "lp_policy_decision p = policy_decision_string m (get ''policy'' m)"
    "lp_policy_reason p = nested_metadata_string (get ''policy'' m) ''reason''"
    "lp_sink_status p = metadata_string m ''sinkStatus''"
  by (simp_all only: p_def m_def b_def op_def from_envelope_def Let_def split_beta log_payload.simps)

lemma untrusted_unbilled:
  assumes "\<not> ev_billing_mirror_trusted ev"
  shows "unbilled (from_envelope_with_auth to_string ev auth)"
proof -
  have "\<not> is_trusted_gateway_tool_event ev" using assms by (simp add: is_trusted_gateway_tool_event_def)
  then show ?thesis
    by (simp add: unbilled_def with_auth_fields log_fields tool_billing_mirror_of_def is_gateway_billing_tool_event_def
        operation_metadata_mirror_def default_billing_mirror_def)
qed

text \<open>The record states the decision that is in the metadata.\<close>

lemma logged_decision:
  assumes "pointer [''policy'', ''allowed''] (ev_metadata ev) = Some (JBool a)"
    and "pointer [''policy'', ''decision''] (ev_metadata ev) = Some (JString s)" "s \<noteq> []"
    and "get ''sinkStatus'' (ev_metadata ev) = Some (JString k)"
  shows "lp_policy_allowed (from_envelope_with_auth to_string ev auth) = Some a"
    "lp_policy_decision (from_envelope_with_auth to_string ev auth) = s"
    "lp_sink_status (from_envelope_with_auth to_string ev auth) = k"
  using assms
  by (auto simp: with_auth_fields log_fields metadata_bool_def policy_decision_string_def nested_metadata_string_def
      metadata_string_def split: option.splits)

text \<open>What the readers find in the metadata of a completed call.\<close>

lemma map_of_insert_optional:
  "map_of (insert_optional k f v m) key =
     (if key = k then (case v of Some x \<Rightarrow> Some (f x) | None \<Rightarrow> map_of m key) else map_of m key)"
  by (simp add: insert_optional_def split: option.split)

lemma gateway_mirror:
  "metadata_string (gateway_tool_metadata response) ''targetKind''
     = (case gateway_metadata response of Some g \<Rightarrow> meta_target_kind g | None \<Rightarrow> [])"
  "metadata_string (gateway_tool_metadata response) ''serviceSlug'' = text_or_empty (metadata_field service_slug response)"
  "metadata_string (gateway_tool_metadata response) ''operationId'' = text_or_empty (metadata_field operation_id response)"
  by (cases "gateway_metadata response"; simp add: gateway_tool_metadata_def metadata_string_def metadata_field_def
      text_or_empty_def map_of_insert_optional split: option.split)+

lemma tool_execution_mirrors:
  fixes request response
  defines "m \<equiv> tool_execution_metadata request response"
  shows "metadata_string m ''toolExecutionId'' = tool_execution_id response"
    "metadata_u64 m ''toolCostMicros'' = Some (amount_micros (cost response))"
    "metadata_string m ''toolCostCurrency'' = cost_currency (cost response)"
    "metadata_f64 m ''cost'' = Some (micros_to_units (cost response))"
    "get ''gateway'' m = Some (gateway_tool_metadata response)"
    "metadata_string m ''targetKind'' = []" "metadata_string m ''serviceSlug'' = []" "metadata_string m ''operationId'' = []"
  by (simp_all add: m_def tool_execution_metadata_def metadata_string_def metadata_u64_def metadata_f64_def json_nat_def)

lemma tool_policy_mirror:
  fixes request response
  defines "m \<equiv> tool_execution_metadata request response"
  shows "Option.bind (get ''policy'' m) (\<lambda>p. metadata_bool p ''allowed'') = Some (allowed (policy response))"
    "policy_decision_string m (get ''policy'' m) = decision (policy response)"
    "nested_metadata_string (get ''policy'' m) ''reason'' = policy_reason (policy response)"
  by (simp_all add: m_def tool_execution_metadata_def metadata_bool_def policy_decision_string_def nested_metadata_string_def
      metadata_string_def)

text \<open>The reason of a bill in the log: that of the target, or else that of the response unless it is settled.\<close>

definition logged_billing_reason :: "tool_call_response \<Rightarrow> string" where
  "logged_billing_reason response =
     (case metadata_field billing_reason response of
        Some r \<Rightarrow> r
      | None \<Rightarrow> if event_billing_status response = ''settled'' then [] else bill_reason (billing response))"

lemma tool_bill_mirror:
  fixes request response
  assumes "m = tool_execution_metadata request response"
  obtains b where "object_field ''billing'' m = Some b" "metadata_string b ''pricingSource'' = cost_source (cost response)"
    "metadata_string b ''costType'' = ''tool''" "metadata_string b ''status'' = event_billing_status response"
    "metadata_u64 b ''amountMicros'' = Some (cost_micros (billing response))"
    "metadata_string b ''currency'' = bill_currency (billing response)"
    "metadata_bool b ''billable'' = Some (billable (billing response))"
    "metadata_string b ''dedupeKey'' = dedupe_key (billing response)" "metadata_string b ''costSubtype'' = ''tool''"
    "metadata_string b ''reason'' = logged_billing_reason response"
  by (rule that [of "the (object_field ''billing'' m)"])
    (simp_all add: assms tool_execution_metadata_def object_field_def metadata_string_def metadata_u64_def
      metadata_bool_def json_nat_def event_billing_reason_def logged_billing_reason_def split: option.split)

lemma object_gateway:
  "object_field ''gateway'' (tool_execution_metadata request response) = Some (gateway_tool_metadata response)"
  by (simp add: tool_execution_metadata_def object_field_def gateway_tool_metadata_def split: option.split)

text \<open>When the log has taken a record: by the append to the stream, or by the collector.\<close>

definition log_delivered :: "log_env \<Rightarrow> agent_config \<Rightarrow> bool" where
  "log_delivered env cfg \<longleftrightarrow>
     le_redis env = Some (RedisDone, RedisDone)
     \<or> ac_event_log_http_fallback_enabled cfg \<and> (\<exists>code. le_http env = HttpAnswered code \<and> 200 \<le> code \<and> code < 300)"

lemma send_log_ok:
  "is_ok (fst (send_log t env p)) \<longleftrightarrow> le_print env p \<noteq> None
     \<and> (le_redis env = Some (RedisDone, RedisDone)
        \<or> lt_http_fallback_enabled t \<and> (\<exists>code. le_http env = HttpAnswered code \<and> 200 \<le> code \<and> code < 300))"
  by (auto simp: send_log_def send_http_def Let_def split: option.splits prod.splits redis_end.splits http_end.splits)

lemma send_log_effects:
  "distinct (snd (send_log t env p))
   \<and> (\<forall>key body. LogAppended key body \<in> set (snd (send_log t env p)) \<longrightarrow>
        key = lt_stream_key t \<and> le_print env p = Some body \<and> (\<exists>a. le_redis env = Some (RedisDone, a)))
   \<and> (\<forall>url authorization body. LogPosted url authorization body \<in> set (snd (send_log t env p)) \<longrightarrow>
        url = lt_http_endpoint t \<and> authorization = ''Bearer '' @ lt_http_authorization t \<and> le_print env p = Some body
        \<and> lt_http_fallback_enabled t \<and> le_redis env \<noteq> Some (RedisDone, RedisDone))"
  by (auto simp: send_log_def send_http_def Let_def split: option.splits prod.splits redis_end.splits http_end.splits)

lemma emit_agent_event_ok:
  "is_ok (fst (emit_agent_event to_string parse join_collector env cfg auth ev)) \<longleftrightarrow>
     resolve_event_log_endpoint parse join_collector (ac_event_log_http_endpoint cfg) \<noteq> None
     \<and> le_print env (from_envelope_with_auth to_string ev auth) \<noteq> None \<and> log_delivered env cfg"
proof -
  have ok: "is_ok (fst (case x of (Inl e, fx) \<Rightarrow> (Err (SinkTransport e), fx) | (Inr _, fx) \<Rightarrow> (Ok (), fx))) = is_ok (fst x)"
    for x :: "(log_error + unit) \<times> log_effect list"
    by (simp split: prod.split sum.split)
  show ?thesis by (simp add: emit_agent_event_def Let_def ok send_log_ok log_delivered_def split: option.split)
qed

section \<open>Properties\<close>

text \<open>
  Property C25. The sink reports success exactly when the endpoint resolves, the record can be printed, and either Redis
  confirmed the append or the HTTP fallback is on and the collector answered with a status of success. Whatever it
  sends is the record of this event, at most once to the stream of the configuration and at most once to the collector
  with the key of the caller; the collector is used only when Redis did not confirm the append.
\<close>

theorem agent_log_delivery:
  assumes "emit_agent_event to_string parse join_collector env cfg auth ev = (r, fx)"
    and "p = from_envelope_with_auth to_string ev auth"
    and "endpoint = resolve_event_log_endpoint parse join_collector (ac_event_log_http_endpoint cfg)"
  shows "(r = Ok () \<longleftrightarrow> endpoint \<noteq> None \<and> le_print env p \<noteq> None \<and> log_delivered env cfg)
    \<and> distinct fx
    \<and> (\<forall>key body. LogAppended key body \<in> set fx \<longrightarrow>
         key = ac_event_stream_key cfg \<and> le_print env p = Some body \<and> (\<exists>a. le_redis env = Some (RedisDone, a)))
    \<and> (\<forall>url authorization body. LogPosted url authorization body \<in> set fx \<longrightarrow>
         endpoint = Some url \<and> authorization = ''Bearer '' @ api_key auth \<and> le_print env p = Some body
         \<and> ac_event_log_http_fallback_enabled cfg \<and> le_redis env \<noteq> Some (RedisDone, RedisDone))
    \<and> (\<not> ac_event_log_http_fallback_enabled cfg \<and> endpoint \<noteq> None \<and> le_print env p \<noteq> None \<and> le_redis env = None \<longrightarrow>
         r = Err (SinkTransport LogHttpFallbackDisabled) \<and> fx = [])"
proof -
  have unit_ok: "r = Ok () \<longleftrightarrow> is_ok r" by (cases r) auto
  have "r = Ok () \<longleftrightarrow> endpoint \<noteq> None \<and> le_print env p \<noteq> None \<and> log_delivered env cfg"
    unfolding unit_ok using emit_agent_event_ok [of to_string parse join_collector env cfg auth ev] assms by simp
  moreover have "distinct fx
    \<and> (\<forall>key body. LogAppended key body \<in> set fx \<longrightarrow>
         key = ac_event_stream_key cfg \<and> le_print env p = Some body \<and> (\<exists>a. le_redis env = Some (RedisDone, a)))
    \<and> (\<forall>url authorization body. LogPosted url authorization body \<in> set fx \<longrightarrow>
         endpoint = Some url \<and> authorization = ''Bearer '' @ api_key auth \<and> le_print env p = Some body
         \<and> ac_event_log_http_fallback_enabled cfg \<and> le_redis env \<noteq> Some (RedisDone, RedisDone))"
  proof (cases endpoint)
    case None
    then show ?thesis using assms by (auto simp: emit_agent_event_def)
  next
    case (Some url)
    define t where "t = \<lparr>lt_stream_key = ac_event_stream_key cfg, lt_http_fallback_enabled = ac_event_log_http_fallback_enabled cfg,
      lt_http_endpoint = url, lt_http_authorization = api_key auth\<rparr>"
    have fx: "fx = snd (send_log t env p)"
      using assms(1) unfolding emit_agent_event_def assms(2,3) [symmetric] Some
      by (auto simp: Let_def t_def split: prod.splits sum.splits)
    have t: "lt_stream_key t = ac_event_stream_key cfg" "lt_http_fallback_enabled t = ac_event_log_http_fallback_enabled cfg"
        "lt_http_endpoint t = url" "lt_http_authorization t = api_key auth"
      by (simp_all add: t_def)
    show ?thesis using send_log_effects [of t env p] unfolding fx t Some option.inject by blast
  qed
  moreover have "r = Err (SinkTransport LogHttpFallbackDisabled) \<and> fx = []"
    if "\<not> ac_event_log_http_fallback_enabled cfg \<and> endpoint \<noteq> None \<and> le_print env p \<noteq> None \<and> le_redis env = None"
    using that assms by (auto simp: emit_agent_event_def send_log_def send_http_def)
  ultimately show ?thesis by blast
qed

text \<open>
  Property C14. The record of a completed tool call states the costs of the response and the amount, the currency, the
  billability and the key of its bill without change, under the identifier of the execution, together with verdict,
  decision and reason of the policy and the target that was called. The status of the bill is the canonical form of
  the one the target gives, or else follows from the response; the reason is that of the target, or else that of the
  response, left out of a settled bill. A response without identifier of an execution leaves no bill in the log, only
  its costs as a number.
\<close>

theorem tool_result_billed_in_log:
  assumes "p = from_envelope_with_auth to_string
      (tool_execution_completed_event_with_sequence stamp auth header_context request response sequence) auth"
    and "b = billing response" "c = cost response"
  shows "lp_workspace_id p = uuid_string (org_id auth) \<and> lp_tool_execution_id p = tool_execution_id response
    \<and> lp_policy_allowed p = Some (allowed (policy response)) \<and> lp_policy_decision p = decision (policy response)
    \<and> lp_policy_reason p = policy_reason (policy response) \<and> lp_cost p = Some (micros_to_units c)
    \<and> lp_target_kind p = (case gateway_metadata response of Some g \<Rightarrow> meta_target_kind g | None \<Rightarrow> [])
    \<and> lp_service_slug p = text_or_empty (metadata_field service_slug response)
    \<and> lp_operation_id p = text_or_empty (metadata_field operation_id response)
    \<and> (if tool_execution_id response = []
       then lp_tool_cost_micros p = None \<and> lp_billing_amount_micros p = None \<and> lp_billing_billable p = None
         \<and> lp_billing_status p = [] \<and> lp_billing_reason p = []
       else lp_tool_cost_micros p = Some (amount_micros c) \<and> lp_tool_cost_currency p = cost_currency c
         \<and> lp_tool_cost_source p = cost_source c \<and> lp_billing_cost_type p = ''tool'' \<and> lp_billing_cost_subtype p = ''tool''
         \<and> lp_billing_status p = event_billing_status response \<and> lp_billing_reason p = logged_billing_reason response
         \<and> lp_billing_amount_micros p = Some (cost_micros b) \<and> lp_billing_currency p = bill_currency b
         \<and> lp_billing_billable p = Some (billable b) \<and> lp_billing_dedupe_key p = dedupe_key b)"
proof -
  let ?e = "tool_execution_completed_event_with_sequence stamp auth header_context request response sequence"
  let ?m = "tool_execution_metadata request response"
  have e: "ev_metadata ?e = ?m" "is_trusted_gateway_tool_event ?e" "is_gateway_billing_tool_event ?e"
    "ev_workspace_id ?e = uuid_string (org_id auth)"
    by (simp_all add: tool_execution_completed_event_with_sequence_def base_tool_event_def Let_def
        is_trusted_gateway_tool_event_def is_gateway_billing_tool_event_def)
  obtain b where "object_field ''billing'' ?m = Some b" "metadata_string b ''pricingSource'' = cost_source (cost response)"
    "metadata_string b ''costType'' = ''tool''" "metadata_string b ''status'' = event_billing_status response"
    "metadata_u64 b ''amountMicros'' = Some (cost_micros (billing response))"
    "metadata_string b ''currency'' = bill_currency (billing response)"
    "metadata_bool b ''billable'' = Some (billable (billing response))"
    "metadata_string b ''dedupeKey'' = dedupe_key (billing response)" "metadata_string b ''costSubtype'' = ''tool''"
    "metadata_string b ''reason'' = logged_billing_reason response"
    using tool_bill_mirror [OF refl] by blast
  then show ?thesis
    unfolding assms
    by (simp add: with_auth_fields log_fields e tool_billing_mirror_of_def default_billing_mirror_def
        operation_metadata_mirror_def tool_execution_mirrors tool_policy_mirror
        tool_policy_mirror(3) [unfolded nested_metadata_string_def] object_gateway nested_metadata_string_def
        gateway_mirror Let_def)
qed

section \<open>Examples\<close>

text \<open>A log whose Redis confirms the ping and ends the append as given, and whose collector takes every record.\<close>

definition ex_log :: "redis_end \<Rightarrow> log_env" where
  "ex_log appended = \<lparr>le_print = (\<lambda>_. Some ''{}''), le_redis = Some (RedisDone, appended), le_http = HttpAnswered 204\<rparr>"

definition ex_tool_response :: tool_call_response where
  "ex_tool_response = success_tool_response (default_target\<lparr>target_rate_card := \<lparr>fixed_micros = 1500000, currency = ''USD''\<rparr>\<rparr>)
     default_request ''x'' JNull"

definition ex_completed :: agent_event where
  "ex_completed = tool_execution_completed_event_with_sequence \<lparr>st_uuid = ''u'', st_now = 0\<rparr> ex_auth None default_request ex_tool_response 2"

theorem agent_log_delivery_witness:
  "fst (emit_agent_event (\<lambda>_. []) Some Some (ex_log RedisElapsed) default_agent_config ex_auth ex_completed) = Ok ()"
proof -
  obtain r fx where "emit_agent_event (\<lambda>_. []) Some Some (ex_log RedisElapsed) default_agent_config ex_auth ex_completed = (r, fx)"
    by fastforce
  from agent_log_delivery [OF this refl refl] this show ?thesis
    by (simp add: ex_log_def log_delivered_def resolve_event_log_endpoint_def default_agent_config_def)
qed

theorem tool_result_billed_in_log_witness:
  "lp_tool_cost_micros (from_envelope_with_auth (\<lambda>_. []) ex_completed ex_auth) = Some 1500000
   \<and> lp_billing_amount_micros (from_envelope_with_auth (\<lambda>_. []) ex_completed ex_auth) = Some 1500000
   \<and> lp_billing_status (from_envelope_with_auth (\<lambda>_. []) ex_completed ex_auth) = ''settled''"
  unfolding ex_completed_def
  using tool_result_billed_in_log [of _ "\<lambda>_. []" "\<lparr>st_uuid = ''u'', st_now = 0\<rparr>" ex_auth None default_request ex_tool_response 2, OF refl refl refl]
  by (simp add: ex_tool_response_def success_tool_response_def Let_def event_billing_status_def metadata_field_def
      tool_billing_status_def)

end
