(* ===== verification/Heartbeat.thy ===== *)
theory Heartbeat
  imports Mcp_Transport Upstream_Outcome "HOL-Library.Sublist" "HOL-Library.Countable"
begin

text \<open>
  Keepalives towards the client (\<open>dispatcher/downstream_heartbeat.rs\<close>): the cutting of an event stream into complete
  frames, the body that sends heartbeats between them, the bounded reader of upstream event streams, and the answer
  that starts before the upstream has answered.

  A byte stream is the list of what it yields. The timers are schedules: a step of a schedule says whether the interval
  elapses before the awaited item arrives; a poll that loses against the timer keeps the state of its stream. A source
  that has ended stays ended. The JSON library and the \<open>mime\<close> crate are parameters.
\<close>

section \<open>Configuration\<close>

record heartbeat_config =
  hc_interval_ms :: nat
  hc_early_sse :: bool
  hc_json_whitespace :: bool
  hc_max_frame_bytes :: nat
  hc_paths :: "string list"

definition default_heartbeat_config :: heartbeat_config where
  "default_heartbeat_config =
     \<lparr>hc_interval_ms = 15000, hc_early_sse = False, hc_json_whitespace = False, hc_max_frame_bytes = 262144,
      hc_paths = [''chat/completions'', ''responses'']\<rparr>"

definition validate_heartbeat :: "heartbeat_config \<Rightarrow> bool" where
  "validate_heartbeat c \<longleftrightarrow>
     \<not> (\<not> (10 \<le> hc_interval_ms c \<and> hc_interval_ms c \<le> 60000)
        \<or> \<not> (1024 \<le> hc_max_frame_bytes c \<and> hc_max_frame_bytes c \<le> 4 * 1024 * 1024)
        \<or> hc_paths c = []
        \<or> list_ex (\<lambda>p. p \<notin> set [''chat/completions'', ''completions'', ''responses'', ''embeddings'', ''images/generations''])
            (hc_paths c))"

datatype heartbeat_mode = ModeSse | ModeJson

record heartbeat_active =
  ha_config :: heartbeat_config
  ha_mode :: heartbeat_mode

definition select_heartbeat :: "json_parser \<Rightarrow> heartbeat_config option \<Rightarrow> string \<Rightarrow> string \<Rightarrow> heartbeat_active option" where
  "select_heartbeat parse config path body =
     (case config of
        None \<Rightarrow> None
      | Some c \<Rightarrow>
          if \<not> list_ex (\<lambda>p. p = path) (hc_paths c) then None
          else case parse body of
            None \<Rightarrow> None
          | Some v \<Rightarrow>
              (let stream = (case Option.bind (get ''stream'' v) as_bool of Some b \<Rightarrow> b | None \<Rightarrow> False) in
               if stream then Some \<lparr>ha_config = c, ha_mode = ModeSse\<rparr>
               else if hc_json_whitespace c then Some \<lparr>ha_config = c, ha_mode = ModeJson\<rparr>
               else None))"

section \<open>Frames\<close>

text \<open>The errors that occur here: a gateway error with its code, and those of the transports.\<close>

datatype hb_error = HbFail string | HbReqwest | HbCollectBody | HbUpstream nat | HbInternal

type_synonym byte_stream = "(hb_error + string) list"

record frame_state =
  fs_source :: byte_stream
  fs_chunk :: string
  fs_pending :: string
  fs_scan :: nat
  fs_line_start :: nat
  fs_limit :: nat

text \<open>The end of the line terminator at position \<open>i\<close>: LF, CR LF or CR.\<close>

definition line_end :: "string \<Rightarrow> nat \<Rightarrow> nat" where
  "line_end p i = (if p ! i = CR \<and> i + 1 < length p \<and> p ! (i + 1) = LF then i + 2 else i + 1)"

function take_frame :: "bool \<Rightarrow> frame_state \<Rightarrow> string option \<times> frame_state" where
  "take_frame eof s =
     (let i = fs_scan s; p = fs_pending s in
      if length p \<le> i then (None, s)
      else if p ! i \<noteq> LF \<and> p ! i \<noteq> CR then take_frame eof (s\<lparr>fs_scan := i + 1\<rparr>)
      else if p ! i = CR \<and> i + 1 = length p \<and> \<not> eof then (None, s)
      else if i = fs_line_start s
      then (Some (take (line_end p i) p), s\<lparr>fs_pending := drop (line_end p i) p, fs_scan := 0, fs_line_start := 0\<rparr>)
      else take_frame eof (s\<lparr>fs_scan := line_end p i, fs_line_start := line_end p i\<rparr>))"
  by pat_completeness auto
termination
  by (relation "measure (\<lambda>(eof, s). length (fs_pending s) - fs_scan s)") (auto simp: line_end_def)

declare take_frame.simps [simp del]

lemma take_frame_end: "length (fs_pending s) \<le> fs_scan s \<Longrightarrow> take_frame eof s = (None, s)"
  by (simp add: take_frame.simps [of eof s])

lemma take_frame_other:
  "\<lbrakk>fs_scan s < length (fs_pending s); fs_pending s ! fs_scan s \<noteq> LF; fs_pending s ! fs_scan s \<noteq> CR\<rbrakk>
     \<Longrightarrow> take_frame eof s = take_frame eof (s\<lparr>fs_scan := fs_scan s + 1\<rparr>)"
  by (simp add: take_frame.simps [of eof s])

lemma take_frame_wait:
  "\<lbrakk>fs_scan s + 1 = length (fs_pending s); fs_pending s ! fs_scan s = CR\<rbrakk> \<Longrightarrow> take_frame False s = (None, s)"
  by (simp add: take_frame.simps [of False s])

lemma take_frame_line:
  assumes "fs_scan s < length (fs_pending s)" "fs_pending s ! fs_scan s \<in> {LF, CR}"
    and "fs_pending s ! fs_scan s = LF \<or> fs_scan s + 1 \<noteq> length (fs_pending s) \<or> eof"
  defines "stop \<equiv> line_end (fs_pending s) (fs_scan s)"
  shows "take_frame eof s =
    (if fs_scan s = fs_line_start s
     then (Some (take stop (fs_pending s)), s\<lparr>fs_pending := drop stop (fs_pending s), fs_scan := 0, fs_line_start := 0\<rparr>)
     else take_frame eof (s\<lparr>fs_scan := stop, fs_line_start := stop\<rparr>))"
  using assms(1-3) unfolding stop_def by (subst take_frame.simps) (auto simp: Let_def)

text \<open>The three ways of a step of the scan.\<close>

lemma take_frame_cases:
  obtains "length (fs_pending s) \<le> fs_scan s"
  | "fs_scan s < length (fs_pending s)" "fs_pending s ! fs_scan s \<noteq> LF" "fs_pending s ! fs_scan s \<noteq> CR"
  | "fs_scan s + 1 = length (fs_pending s)" "fs_pending s ! fs_scan s = CR" "\<not> eof"
  | "fs_scan s < length (fs_pending s)" "fs_pending s ! fs_scan s \<in> {LF, CR}"
      "fs_pending s ! fs_scan s = LF \<or> fs_scan s + 1 \<noteq> length (fs_pending s) \<or> eof"
  by fastforce

lemma line_end_bounds: "i < length p \<Longrightarrow> i < line_end p i \<and> line_end p i \<le> length p"
  by (auto simp: line_end_def)

lemma take_frame_induct [case_names scan]:
  assumes "\<And>s. (\<And>t. fs_pending t = fs_pending s \<Longrightarrow> fs_scan s < fs_scan t \<Longrightarrow> fs_scan s < length (fs_pending s) \<Longrightarrow> P t) \<Longrightarrow> P s"
  shows "P s"
proof (induction "length (fs_pending s) - fs_scan s" arbitrary: s rule: less_induct)
  case less
  show ?case by (rule assms) (rule less, simp add: diff_less_mono2)
qed

definition frames :: "byte_stream \<Rightarrow> nat \<Rightarrow> frame_state" where
  "frames source limit =
     \<lparr>fs_source = source, fs_chunk = [], fs_pending = [], fs_scan = 0, fs_line_start = 0, fs_limit = limit\<rparr>"

lemma take_frame_keeps:
  "take_frame eof s = (r, s') \<Longrightarrow>
     fs_source s' = fs_source s \<and> fs_chunk s' = fs_chunk s \<and> fs_limit s' = fs_limit s
     \<and> (case r of None \<Rightarrow> fs_pending s' = fs_pending s | Some f \<Rightarrow> f \<noteq> [] \<and> fs_pending s = f @ fs_pending s')"
proof (induction s arbitrary: r s' rule: take_frame_induct)
  case (scan s)
  show ?case
  proof (cases rule: take_frame_cases [where s = s and eof = eof])
    case 1
    then show ?thesis using scan.prems by (auto simp: take_frame_end)
  next
    case 2
    then show ?thesis using scan.prems scan.IH [of "s\<lparr>fs_scan := fs_scan s + 1\<rparr>"] by (simp add: take_frame_other split: option.splits)
  next
    case 3
    then show ?thesis using scan.prems by (auto simp: take_frame_wait)
  next
    case 4
    let ?stop = "line_end (fs_pending s) (fs_scan s)"
    note b = line_end_bounds [OF 4(1)]
    show ?thesis
    proof (cases "fs_scan s = fs_line_start s")
      case True
      then show ?thesis using scan.prems b take_frame_line [OF 4] by auto
    next
      case False
      then show ?thesis
        using scan.prems b 4(1) take_frame_line [OF 4] scan.IH [of "s\<lparr>fs_scan := ?stop, fs_line_start := ?stop\<rparr>"]
        by (simp split: option.splits)
    qed
  qed
qed

lemma take_frame_None: "(None, s') = take_frame eof s \<Longrightarrow> fs_source s' = fs_source s \<and> fs_chunk s' = fs_chunk s"
  using take_frame_keeps [of eof s None s'] by simp

text \<open>One poll of the stream of frames: the loop ends because it consumes the chunk or an item of the source.\<close>

datatype next_result = NextFrame string frame_state | NextEnd | NextErr hb_error

function next_frame :: "frame_state \<Rightarrow> next_result" where
  "next_frame s =
     (case take_frame False s of
        (Some f, s') \<Rightarrow> NextFrame f s'
      | (None, s') \<Rightarrow>
          if fs_limit s' \<le> length (fs_pending s') then NextErr (HbFail ''sse_frame_limit'')
          else if fs_chunk s' \<noteq> [] then
            let n = min (fs_limit s' - length (fs_pending s')) (length (fs_chunk s')) in
            next_frame (s'\<lparr>fs_pending := fs_pending s' @ take n (fs_chunk s'), fs_chunk := drop n (fs_chunk s')\<rparr>)
          else case fs_source s' of
            Inr b # rest \<Rightarrow> next_frame (s'\<lparr>fs_chunk := b, fs_source := rest\<rparr>)
          | Inl e # rest \<Rightarrow> NextErr e
          | [] \<Rightarrow>
              if fs_pending s' = [] then NextEnd
              else case take_frame True s' of
                (Some f, s'') \<Rightarrow> NextFrame f s''
              | (None, _) \<Rightarrow> NextErr (HbFail ''incomplete_sse_frame''))"
  by pat_completeness auto
termination
  by (relation "measures [\<lambda>s. length (fs_source s), \<lambda>s. length (fs_chunk s)]") (auto dest!: take_frame_None)

declare next_frame.simps [simp del]

fun item_bytes :: "hb_error + string \<Rightarrow> nat" where
  "item_bytes (Inr b) = length b"
| "item_bytes (Inl _) = 0"

definition bytes_left :: "frame_state \<Rightarrow> nat" where
  "bytes_left s = length (fs_pending s) + length (fs_chunk s) + sum_list (map item_bytes (fs_source s))"

lemma next_frame_step:
  "take_frame False s = (Some f, t) \<Longrightarrow> next_frame s = NextFrame f t"
  "\<lbrakk>take_frame False s = (None, t); fs_limit t \<le> length (fs_pending t)\<rbrakk> \<Longrightarrow> next_frame s = NextErr (HbFail ''sse_frame_limit'')"
  "\<lbrakk>take_frame False s = (None, t); length (fs_pending t) < fs_limit t; fs_chunk t \<noteq> [];
    n = min (fs_limit t - length (fs_pending t)) (length (fs_chunk t))\<rbrakk>
     \<Longrightarrow> next_frame s = next_frame (t\<lparr>fs_pending := fs_pending t @ take n (fs_chunk t), fs_chunk := drop n (fs_chunk t)\<rparr>)"
  "\<lbrakk>take_frame False s = (None, t); length (fs_pending t) < fs_limit t; fs_chunk t = []; fs_source t = Inr b # rest\<rbrakk>
     \<Longrightarrow> next_frame s = next_frame (t\<lparr>fs_chunk := b, fs_source := rest\<rparr>)"
  "\<lbrakk>take_frame False s = (None, t); length (fs_pending t) < fs_limit t; fs_chunk t = []; fs_source t = Inl e # rest\<rbrakk>
     \<Longrightarrow> next_frame s = NextErr e"
  "\<lbrakk>take_frame False s = (None, t); length (fs_pending t) < fs_limit t; fs_chunk t = []; fs_source t = []; fs_pending t = []\<rbrakk>
     \<Longrightarrow> next_frame s = NextEnd"
  "\<lbrakk>take_frame False s = (None, t); length (fs_pending t) < fs_limit t; fs_chunk t = []; fs_source t = []; fs_pending t \<noteq> [];
    take_frame True t = (Some f, u)\<rbrakk> \<Longrightarrow> next_frame s = NextFrame f u"
  "\<lbrakk>take_frame False s = (None, t); length (fs_pending t) < fs_limit t; fs_chunk t = []; fs_source t = []; fs_pending t \<noteq> [];
    take_frame True t = (None, u)\<rbrakk> \<Longrightarrow> next_frame s = NextErr (HbFail ''incomplete_sse_frame'')"
  by (subst next_frame.simps; simp add: Let_def)+

text \<open>The ways of a poll, and induction along its loop.\<close>

lemma next_frame_induct [case_names frame limit chunk item failed ended last incomplete]:
  assumes "\<And>s f t. take_frame False s = (Some f, t) \<Longrightarrow> P s"
    and "\<And>s t. \<lbrakk>take_frame False s = (None, t); fs_limit t \<le> length (fs_pending t)\<rbrakk> \<Longrightarrow> P s"
    and "\<And>s t n. \<lbrakk>take_frame False s = (None, t); length (fs_pending t) < fs_limit t; fs_chunk t \<noteq> [];
       n = min (fs_limit t - length (fs_pending t)) (length (fs_chunk t));
       P (t\<lparr>fs_pending := fs_pending t @ take n (fs_chunk t), fs_chunk := drop n (fs_chunk t)\<rparr>)\<rbrakk> \<Longrightarrow> P s"
    and "\<And>s t b rest. \<lbrakk>take_frame False s = (None, t); length (fs_pending t) < fs_limit t; fs_chunk t = [];
       fs_source t = Inr b # rest; P (t\<lparr>fs_chunk := b, fs_source := rest\<rparr>)\<rbrakk> \<Longrightarrow> P s"
    and "\<And>s t e rest. \<lbrakk>take_frame False s = (None, t); length (fs_pending t) < fs_limit t; fs_chunk t = [];
       fs_source t = Inl e # rest\<rbrakk> \<Longrightarrow> P s"
    and "\<And>s t. \<lbrakk>take_frame False s = (None, t); length (fs_pending t) < fs_limit t; fs_chunk t = []; fs_source t = [];
       fs_pending t = []\<rbrakk> \<Longrightarrow> P s"
    and "\<And>s t f u. \<lbrakk>take_frame False s = (None, t); length (fs_pending t) < fs_limit t; fs_chunk t = []; fs_source t = [];
       fs_pending t \<noteq> []; take_frame True t = (Some f, u)\<rbrakk> \<Longrightarrow> P s"
    and "\<And>s t u. \<lbrakk>take_frame False s = (None, t); length (fs_pending t) < fs_limit t; fs_chunk t = []; fs_source t = [];
       fs_pending t \<noteq> []; take_frame True t = (None, u)\<rbrakk> \<Longrightarrow> P s"
  shows "P s"
proof (induction s rule: next_frame.induct)
  case (1 s)
  obtain r t where t: "take_frame False s = (r, t)" by fastforce
  show ?case
  proof (cases r)
    case (Some f)
    then show ?thesis using assms(1) t by blast
  next
    case None
    note t' = t [unfolded None]
    show ?thesis
    proof (cases "fs_limit t \<le> length (fs_pending t)")
      case True
      then show ?thesis using assms(2) [OF t'] by blast
    next
      case False
      then have room: "length (fs_pending t) < fs_limit t" by simp
      show ?thesis
      proof (cases "fs_chunk t = []")
        case chunk: False
        show ?thesis by (rule assms(3) [OF t' room chunk refl], rule 1(1) [OF t [symmetric] None False chunk refl])
      next
        case chunk: True
        show ?thesis
        proof (cases "fs_source t")
          case Nil
          obtain r2 u where "take_frame True t = (r2, u)" by fastforce
          then show ?thesis using assms(6-8) [OF t' room chunk Nil] by (cases r2; cases "fs_pending t = []") auto
        next
          case (Cons x rest)
          show ?thesis
          proof (cases x)
            case (Inl e)
            then show ?thesis using assms(5) [OF t' room chunk] Cons by blast
          next
            case (Inr b)
            show ?thesis
              by (rule assms(4) [OF t' room chunk], simp only: Cons Inr, rule 1(2) [OF t [symmetric] None False _ Cons Inr])
                (simp add: chunk)
          qed
        qed
      qed
    qed
  qed
qed

lemma next_frame_consumes: "next_frame s = NextFrame f s' \<Longrightarrow> f \<noteq> [] \<and> bytes_left s = length f + bytes_left s'"
proof (induction s rule: next_frame_induct)
  case (frame s g t)
  then show ?case using take_frame_keeps [OF frame(1)] by (auto simp: next_frame_step bytes_left_def)
next
  case (chunk s t n)
  then show ?case using take_frame_keeps [OF chunk(1)] by (simp add: next_frame_step(3) bytes_left_def)
next
  case (item s t b rest)
  then show ?case using take_frame_keeps [OF item(1)] by (simp add: next_frame_step(4) bytes_left_def)
next
  case (last s t g u)
  then show ?case
    using take_frame_keeps [OF last(1)] take_frame_keeps [OF last(6)] by (auto simp: next_frame_step(7) bytes_left_def)
qed (simp_all add: next_frame_step)

text \<open>All frames of a stream, and the error it ends with.\<close>

function run_frames :: "frame_state \<Rightarrow> string list \<times> hb_error option" where
  "run_frames s =
     (case next_frame s of
        NextFrame f s' \<Rightarrow> (let (fs, e) = run_frames s' in (f # fs, e))
      | NextEnd \<Rightarrow> ([], None)
      | NextErr e \<Rightarrow> ([], Some e))"
  by pat_completeness auto
termination
  by (relation "measure bytes_left") (auto dest: next_frame_consumes)

declare run_frames.simps [simp del]

section \<open>Bodies with heartbeats\<close>

fun heartbeat :: "heartbeat_mode \<Rightarrow> string" where
  "heartbeat ModeSse = '': alephant heartbeat'' @ [LF, LF]"
| "heartbeat ModeJson = [LF]"

declare heartbeat.simps(1) [simp del]

definition error_value :: "nat \<Rightarrow> json" where
  "error_value status =
     JObject [(''error'', JObject [(''type'', JString ''server_error''), (''code'', JString ''upstream_request_failed''),
          (''message'', JString ''The upstream request did not complete successfully.'')]),
        (''gateway_status'', JNumber (PosInt status))]"

definition error_json :: "json_printer \<Rightarrow> nat \<Rightarrow> string" where
  "error_json to_vec status = to_vec (error_value status)"

definition terminal_sse :: "json_printer \<Rightarrow> nat \<Rightarrow> string" where
  "terminal_sse to_vec status = ''data: '' @ error_json to_vec status @ [LF, LF] @ ''data: [DONE]'' @ [LF, LF]"

text \<open>The body of a response: as it came, or the stream of \<open>sse_body\<close>, whose state is \<open>None\<close> after an error.\<close>

datatype hb_body = RawBody byte_stream | SseBody "frame_state option"

fun poll_body :: "json_printer \<Rightarrow> bool \<Rightarrow> hb_body \<Rightarrow> ((hb_error + string) \<times> hb_body) option" where
  "poll_body to_vec elapsed (RawBody []) = None"
| "poll_body to_vec elapsed (RawBody (x # xs)) = Some (x, RawBody xs)"
| "poll_body to_vec elapsed (SseBody None) = None"
| "poll_body to_vec elapsed (SseBody (Some s)) =
     (if elapsed then Some (Ok (heartbeat ModeSse), SseBody (Some s))
      else case next_frame s of
        NextFrame f s' \<Rightarrow> Some (Ok f, SseBody (Some s'))
      | NextErr _ \<Rightarrow> Some (Ok (terminal_sse to_vec 502), SseBody None)
      | NextEnd \<Rightarrow> None)"

definition sse_body :: "byte_stream \<Rightarrow> heartbeat_active \<Rightarrow> hb_body" where
  "sse_body source active = SseBody (Some (frames source (hc_max_frame_bytes (ha_config active))))"

section \<open>Responses\<close>

text \<open>\<open>dr_upstream_status\<close> is the extension \<open>OriginalUpstreamStatus\<close>.\<close>

record 'b down_response =
  dr_status :: nat
  dr_headers :: header_map
  dr_upstream_status :: "nat option"
  dr_body :: 'b

definition success_status :: "nat \<Rightarrow> bool" where
  "success_status status \<longleftrightarrow> 200 \<le> status \<and> status < 300"

definition header_remove :: "string \<Rightarrow> header_map \<Rightarrow> header_map" where
  "header_remove name headers = filter (\<lambda>h. fst h \<noteq> name) headers"

definition header_insert :: "string \<Rightarrow> string \<Rightarrow> header_map \<Rightarrow> header_map" where
  "header_insert name v headers = (name, v) # header_remove name headers"

definition established :: "byte_stream down_response \<Rightarrow> heartbeat_active \<Rightarrow> hb_body down_response" where
  "established response active =
     (if ha_mode active = ModeSse \<and> success_status (dr_status response)
         \<and> (case header_str (dr_headers response) ''content-type'' of
              Some v \<Rightarrow> starts_with ''text/event-stream'' v | None \<Rightarrow> False)
      then
        \<lparr>dr_status = dr_status response,
         dr_headers = header_insert ''cache-control'' ''no-store, no-transform''
           (header_insert ''x-accel-buffering'' ''no'' (header_remove ''content-length'' (dr_headers response))),
         dr_upstream_status = dr_upstream_status response, dr_body = sse_body (dr_body response) active\<rparr>
      else
        \<lparr>dr_status = dr_status response, dr_headers = dr_headers response,
         dr_upstream_status = dr_upstream_status response, dr_body = RawBody (dr_body response)\<rparr>)"

text \<open>\<open>http_body_util::Limited\<close> and \<open>collect\<close>: the bytes of a body within a limit.\<close>

fun collect_limited :: "nat \<Rightarrow> byte_stream \<Rightarrow> string option" where
  "collect_limited remaining [] = Some []"
| "collect_limited remaining (Inl _ # xs) = None"
| "collect_limited remaining (Inr b # xs) =
     (if remaining < length b then None
      else map_option (\<lambda>rest. b @ rest) (collect_limited (remaining - length b) xs))"

definition RESPONSE_BODY_LIMIT :: nat where
  "RESPONSE_BODY_LIMIT = 32 * 1024 * 1024"

text \<open>
  The JSON library, and whether a content type is JSON by its essence or suffix. \<open>None\<close> is a panic of \<open>expect\<close> or of
  the assignment to an index.
\<close>

record json_lib =
  jl_parse :: json_parser
  jl_to_vec :: json_printer
  jl_json_mime :: "string \<Rightarrow> bool"

definition with_statuses :: "json_lib \<Rightarrow> nat option \<Rightarrow> nat \<Rightarrow> json \<Rightarrow> string option" where
  "with_statuses lib upstream_status status v =
     map_option (jl_to_vec lib)
       (Option.bind
         (case upstream_status of Some u \<Rightarrow> index_set ''upstream_status'' (JNumber (PosInt u)) v | None \<Rightarrow> Some v)
         (index_set ''gateway_status'' (JNumber (PosInt status))))"

definition final_json :: "json_lib \<Rightarrow> byte_stream down_response \<Rightarrow> string option" where
  "final_json lib response =
     (let status = dr_status response; upstream_status = dr_upstream_status response;
          is_json = (case header_str (dr_headers response) ''content-type'' of
             Some v \<Rightarrow> jl_json_mime lib v | None \<Rightarrow> False) in
      if \<not> success_status status then
        (case Option.bind (collect_limited MAX_PROBE_BYTES (dr_body response)) (classify_business_failure (jl_parse lib)) of
           Some failure \<Rightarrow> with_statuses lib upstream_status status (public_body failure)
         | None \<Rightarrow> Option.bind (jl_parse lib (error_json (jl_to_vec lib) status)) (with_statuses lib upstream_status status))
      else if \<not> is_json then Some (error_json (jl_to_vec lib) 502)
      else case collect_limited RESPONSE_BODY_LIMIT (dr_body response) of
        Some bytes \<Rightarrow> Some (if jl_parse lib bytes \<noteq> None then bytes else error_json (jl_to_vec lib) 502)
      | None \<Rightarrow> Some (error_json (jl_to_vec lib) 502))"

section \<open>The answer\<close>

text \<open>The future that also collects the body, used in JSON mode.\<close>

definition collected_response :: "hb_error + byte_stream down_response \<Rightarrow> hb_error + byte_stream down_response" where
  "collected_response pending =
     and_then pending (\<lambda>response.
       case collect_limited RESPONSE_BODY_LIMIT (dr_body response) of
         None \<Rightarrow> Err (HbFail ''response_body_limit'')
       | Some body \<Rightarrow> Ok (response\<lparr>dr_body := [Inr body]\<rparr>))"

text \<open>
  The body that starts before the response: \<open>EarlyWaiting first\<close> waits for it, \<open>EarlySse\<close> passes on its body. A step
  of the schedule says whether the interval elapses before the response and before the next item of its body.
\<close>

datatype early_state = EarlyWaiting bool | EarlySse hb_body | EarlyDone

datatype early_poll = EarlyItem string early_state | EarlyEnd | EarlyPanic

definition unanswered_response :: "byte_stream down_response" where
  "unanswered_response = \<lparr>dr_status = 502, dr_headers = [], dr_upstream_status = None, dr_body = []\<rparr>"

fun early_body_item :: "json_lib \<Rightarrow> ((hb_error + string) \<times> hb_body) option \<Rightarrow> early_poll" where
  "early_body_item lib (Some (Inr bytes, body)) = EarlyItem bytes (EarlySse body)"
| "early_body_item lib (Some (Inl _, body)) = EarlyItem (terminal_sse (jl_to_vec lib) 502) EarlyDone"
| "early_body_item lib None = EarlyEnd"

fun poll_early ::
    "json_lib \<Rightarrow> heartbeat_active \<Rightarrow> hb_error + byte_stream down_response \<Rightarrow> bool \<times> bool \<Rightarrow> early_state \<Rightarrow> early_poll" where
  "poll_early lib active pending el (EarlyWaiting True) = EarlyItem (heartbeat (ha_mode active)) (EarlyWaiting False)"
| "poll_early lib active pending el (EarlyWaiting False) =
     (if fst el then EarlyItem (heartbeat (ha_mode active)) (EarlyWaiting False)
      else
        let response = (case pending of Inr r \<Rightarrow> r | Inl _ \<Rightarrow> unanswered_response) in
        if ha_mode active = ModeJson then
          (case final_json lib response of Some doc \<Rightarrow> EarlyItem doc EarlyDone | None \<Rightarrow> EarlyPanic)
        else if \<not> success_status (dr_status response)
        then EarlyItem (terminal_sse (jl_to_vec lib) (dr_status response)) EarlyDone
        else early_body_item lib (poll_body (jl_to_vec lib) (snd el) (dr_body (established response active))))"
| "poll_early lib active pending el (EarlySse body) = early_body_item lib (poll_body (jl_to_vec lib) (snd el) body)"
| "poll_early lib active pending el EarlyDone = EarlyEnd"

text \<open>The answer is the response of the future, or one that starts at once with status 200.\<close>

datatype heartbeat_reply =
    ReplyResponse "hb_body down_response"
  | ReplyEarly nat header_map "hb_error + byte_stream down_response"

definition early_headers :: "heartbeat_mode \<Rightarrow> header_map" where
  "early_headers mode =
     [(''content-type'', if mode = ModeSse then ''text/event-stream'' else ''application/json''),
      (''cache-control'', ''no-store, no-transform''), (''x-accel-buffering'', ''no''), (''x-alephant-heartbeat'', ''true'')]"

definition respond_heartbeat ::
    "bool \<Rightarrow> hb_error + byte_stream down_response \<Rightarrow> heartbeat_active \<Rightarrow> hb_error + heartbeat_reply" where
  "respond_heartbeat elapsed future active =
     (let pending = (if ha_mode active = ModeJson then collected_response future else future);
          early = (ha_mode active = ModeJson \<or> hc_early_sse (ha_config active));
          direct = and_then pending (\<lambda>r. Ok (ReplyResponse (established r active))) in
      if \<not> early then direct
      else if \<not> elapsed then direct
      else Ok (ReplyEarly 200 (early_headers (ha_mode active)) pending))"

text \<open>What a client reads from a body under a schedule, and from an answer.\<close>

fun drive_body :: "json_printer \<Rightarrow> bool list \<Rightarrow> hb_body \<Rightarrow> byte_stream" where
  "drive_body to_vec [] body = []"
| "drive_body to_vec (el # sched) body =
     (case poll_body to_vec el body of None \<Rightarrow> [] | Some (x, body') \<Rightarrow> x # drive_body to_vec sched body')"

fun drive_early ::
    "json_lib \<Rightarrow> heartbeat_active \<Rightarrow> hb_error + byte_stream down_response \<Rightarrow> (bool \<times> bool) list \<Rightarrow> early_state \<Rightarrow> string list" where
  "drive_early lib active pending [] state = []"
| "drive_early lib active pending (el # sched) state =
     (case poll_early lib active pending el state of
        EarlyItem bytes state' \<Rightarrow> bytes # drive_early lib active pending sched state'
      | EarlyEnd \<Rightarrow> []
      | EarlyPanic \<Rightarrow> [])"

fun reply_bytes :: "json_lib \<Rightarrow> heartbeat_active \<Rightarrow> (bool \<times> bool) list \<Rightarrow> heartbeat_reply \<Rightarrow> string" where
  "reply_bytes lib active sched (ReplyResponse r) = concat (List.map_filter (\<lambda>x. case x of Inr b \<Rightarrow> Some b | Inl _ \<Rightarrow> None)
     (drive_body (jl_to_vec lib) (map snd sched) (dr_body r)))"
| "reply_bytes lib active sched (ReplyEarly status headers pending) =
     concat (drive_early lib active pending sched (EarlyWaiting True))"

section \<open>The reader of upstream event streams\<close>

definition BOM :: string where
  "BOM = [CHR 0xEF, CHR 0xBB, CHR 0xBF]"

text \<open>\<open>split(['\\r', '\\n'])\<close>.\<close>

fun split_lines :: "string \<Rightarrow> string \<Rightarrow> string list" where
  "split_lines acc [] = [rev acc]"
| "split_lines acc (c # s) = (if c = LF \<or> c = CR then rev acc # split_lines [] s else split_lines (c # acc) s)"

definition frame_data :: "string \<Rightarrow> string" where
  "frame_data frame =
     join [LF] (List.map_filter
       (\<lambda>line. map_option (\<lambda>v. case strip_prefix '' '' v of Some w \<Rightarrow> w | None \<Rightarrow> v) (strip_prefix ''data:'' line))
       (split_lines [] (trim_front [BOM] frame)))"

definition terminal_data :: "json_parser \<Rightarrow> string \<Rightarrow> bool" where
  "terminal_data parse data =
     (case parse data of
        None \<Rightarrow> False
      | Some v \<Rightarrow> get ''error'' v \<noteq> None
          \<or> Option.bind (get ''type'' v) as_str
              \<in> Some ` set [''response.completed'', ''response.failed'', ''response.incomplete'', ''message_stop''])"

datatype upstream_poll = UpItem string "frame_state \<times> bool" | UpEnd | UpErr hb_error

function poll_upstream :: "json_parser \<Rightarrow> frame_state \<times> bool \<Rightarrow> upstream_poll" where
  "poll_upstream parse (s, terminal) =
     (if terminal then UpEnd
      else case next_frame s of
        NextErr e \<Rightarrow> UpErr e
      | NextEnd \<Rightarrow> UpErr (HbFail ''upstream_stream_incomplete'')
      | NextFrame f s' \<Rightarrow>
          if \<not> from_utf8 f then UpErr (HbFail ''invalid_sse_utf8'')
          else if frame_data f = ''[DONE]'' then UpEnd
          else if frame_data f \<noteq> [] then UpItem (frame_data f) (s', terminal_data parse (frame_data f))
          else poll_upstream parse (s', False))"
  by pat_completeness auto
termination
  by (relation "measure (\<lambda>(parse, s, terminal). bytes_left s)") (auto dest: next_frame_consumes)

declare poll_upstream.simps [simp del]

lemma poll_upstream_consumes:
  "poll_upstream parse (s, terminal) = UpItem d (s', terminal') \<Longrightarrow> bytes_left s' < bytes_left s"
proof (induction "(s, terminal)" arbitrary: s terminal rule: poll_upstream.induct)
  case (1 parse s terminal)
  show ?case
  proof (cases "next_frame s")
    case (NextFrame f t)
    note c = next_frame_consumes [OF NextFrame]
    show ?thesis
    proof (cases "frame_data f = []")
      case True
      then show ?thesis
        using 1(2) 1(1) [OF _ NextFrame] NextFrame c
        by (simp add: poll_upstream.simps [of parse s] split: if_splits)
    next
      case False
      then show ?thesis using 1(2) NextFrame c by (auto simp: poll_upstream.simps [of parse s] split: if_splits)
    qed
  qed (use 1(2) in \<open>auto simp: poll_upstream.simps [of parse s] split: if_splits\<close>)
qed

definition upstream_sse :: "hb_error + byte_stream down_response \<Rightarrow> nat \<Rightarrow> hb_error + (frame_state \<times> bool)" where
  "upstream_sse sent limit =
     and_then sent (\<lambda>response.
       if \<not> success_status (dr_status response) then Err (HbUpstream (dr_status response))
       else if \<not> is_sse_response (dr_headers response) then Err (HbFail ''invalid_sse_content_type'')
       else Ok (frames (dr_body response) limit, False))"

function run_upstream :: "json_parser \<Rightarrow> frame_state \<times> bool \<Rightarrow> string list \<times> hb_error option" where
  "run_upstream parse st =
     (case poll_upstream parse st of
        UpItem d st' \<Rightarrow> (let (ds, e) = run_upstream parse st' in (d # ds, e))
      | UpEnd \<Rightarrow> ([], None)
      | UpErr e \<Rightarrow> ([], Some e))"
  by pat_completeness auto
termination
  by (relation "measure (\<lambda>(parse, s, terminal). bytes_left s)") (auto dest: poll_upstream_consumes)

declare run_upstream.simps [simp del]

section \<open>The specification of frames\<close>

text \<open>
  A frame ends with the first empty line; a line ends with LF, CR LF or CR. \<open>split_frame at_line_start\<close> cuts the first
  frame off a text.
\<close>

definition prepend :: "string \<Rightarrow> (string \<times> string) option \<Rightarrow> (string \<times> string) option" where
  "prepend p = map_option (\<lambda>(f, rest). (p @ f, rest))"

fun split_frame :: "bool \<Rightarrow> string \<Rightarrow> (string \<times> string) option" where
  "split_frame b [] = None"
| "split_frame b [c] = (if b \<and> (c = LF \<or> c = CR) then Some ([c], []) else None)"
| "split_frame b (c # d # s) =
     (if c = CR \<and> d = LF then (if b then Some ([c, d], s) else prepend [c, d] (split_frame True s))
      else if c = LF \<or> c = CR then (if b then Some ([c], d # s) else prepend [c] (split_frame True (d # s)))
      else prepend [c] (split_frame False (d # s)))"

lemma prepend_simps [simp]:
  "prepend p None = None" "prepend p (Some (f, r)) = Some (p @ f, r)" "prepend [] x = x"
  "prepend p (prepend q x) = prepend (p @ q) x" "prepend p x = None \<longleftrightarrow> x = None"
  by (cases x; auto simp: prepend_def)+

lemma prepend_eq_Some: "prepend p x = Some (f, r) \<longleftrightarrow> (\<exists>g. x = Some (g, r) \<and> f = p @ g)"
  by (cases x) (auto simp: prepend_def)

lemma split_frame_other: "\<lbrakk>c \<noteq> LF; c \<noteq> CR\<rbrakk> \<Longrightarrow> split_frame b (c # s) = prepend [c] (split_frame False s)"
  by (cases s) auto

lemma split_frame_LF: "split_frame b (LF # s) = (if b then Some ([LF], s) else prepend [LF] (split_frame True s))"
  by (cases s) auto

lemma split_frame_CR:
  "s = [] \<or> hd s \<noteq> LF \<Longrightarrow> split_frame b (CR # s) = (if b then Some ([CR], s) else prepend [CR] (split_frame True s))"
  by (cases s) auto

lemma split_frame_append: "split_frame b w = Some (f, r) \<Longrightarrow> w = f @ r \<and> f \<noteq> []"
  by (induction b w arbitrary: f rule: split_frame.induct) (auto simp: prepend_eq_Some split: if_splits)

text \<open>The line terminator at a position, with the text that may follow later.\<close>

lemma split_frame_line:
  assumes "i < length p" "p ! i \<in> {LF, CR}" "p ! i = LF \<or> i + 1 \<noteq> length p \<or> x = []"
  defines "stop \<equiv> line_end p i"
  shows "split_frame b (drop i p @ x) =
    (if b then Some (drop i (take stop p), drop stop p @ x) else prepend (drop i (take stop p)) (split_frame True (drop stop p @ x)))"
proof (cases "p ! i = CR \<and> i + 1 < length p \<and> p ! (i + 1) = LF")
  case True
  then have "drop i p = CR # LF # drop (i + 2) p" "stop = i + 2"
    using assms(1) by (simp_all add: stop_def line_end_def Cons_nth_drop_Suc [symmetric])
  then show ?thesis using True by (simp add: drop_take take_Suc_conv_app_nth numeral_2_eq_2)
next
  case False
  then have stop: "stop = i + 1" by (auto simp: stop_def line_end_def)
  have d: "drop i p = p ! i # drop (i + 1) p" using assms(1) by (simp add: Cons_nth_drop_Suc)
  have t: "drop i (take stop p) = [p ! i]" using assms(1) stop by (simp add: drop_take d)
  show ?thesis
  proof (cases "p ! i = LF")
    case True
    then show ?thesis unfolding t unfolding stop d by (simp add: split_frame_LF)
  next
    case cr: False
    then have c: "p ! i = CR" using assms(2) by simp
    have "drop (i + 1) p @ x = [] \<or> hd (drop (i + 1) p @ x) \<noteq> LF"
      using False c cr assms(1,3) by (cases "i + 1 < length p") (auto simp: hd_append hd_drop_conv_nth)
    then show ?thesis unfolding t unfolding stop d using c by (simp add: split_frame_CR)
  qed
qed

text \<open>
  What a stream of bytes yields: its frames in order, each within the limit. A frame that ends with a lone CR needs one
  byte more than it has, unless the stream has ended. \<open>tail\<close> is the error that the stream ends with.
\<close>

function frames_spec :: "nat \<Rightarrow> hb_error option \<Rightarrow> string \<Rightarrow> string list \<times> hb_error option" where
  "frames_spec limit tail w =
     (case split_frame True w of
        Some (f, r) \<Rightarrow>
          if tail = None \<or> r \<noteq> [] \<or> last f \<noteq> CR then
            if length f < limit \<or> length f = limit \<and> last f \<noteq> CR
            then (let (fs, e) = frames_spec limit tail r in (f # fs, e))
            else ([], Some (HbFail ''sse_frame_limit''))
          else ([], Some (if limit \<le> length w then HbFail ''sse_frame_limit'' else the tail))
      | None \<Rightarrow>
          if w = [] \<and> tail = None then ([], None)
          else if limit \<le> length w then ([], Some (HbFail ''sse_frame_limit''))
          else ([], Some (case tail of Some e \<Rightarrow> e | None \<Rightarrow> HbFail ''incomplete_sse_frame'')))"
  by pat_completeness auto
termination
  by (relation "measure (\<lambda>(limit, tail, w). length w)") (auto dest: split_frame_append)

declare frames_spec.simps [simp del]

fun source_bytes :: "byte_stream \<Rightarrow> string" where
  "source_bytes [] = []"
| "source_bytes (Inl _ # xs) = []"
| "source_bytes (Inr b # xs) = b @ source_bytes xs"

fun source_tail :: "byte_stream \<Rightarrow> hb_error option" where
  "source_tail [] = None"
| "source_tail (Inl e # xs) = Some e"
| "source_tail (Inr b # xs) = source_tail xs"

section \<open>The scanner implements the specification\<close>

text \<open>
  What the scan knows: the bytes before \<open>fs_scan\<close> complete no frame, whatever follows, and \<open>fs_line_start\<close> tells
  whether the scan is at the start of a line.
\<close>

definition scanned :: "frame_state \<Rightarrow> bool" where
  "scanned s \<longleftrightarrow>
     fs_line_start s \<le> fs_scan s \<and> fs_scan s \<le> length (fs_pending s)
     \<and> (\<forall>x. split_frame True (fs_pending s @ x)
          = prepend (take (fs_scan s) (fs_pending s)) (split_frame (fs_line_start s = fs_scan s) (drop (fs_scan s) (fs_pending s) @ x)))"

lemma scannedD:
  assumes "scanned s"
  shows "fs_line_start s \<le> fs_scan s" "fs_scan s \<le> length (fs_pending s)"
    "split_frame True (fs_pending s @ x)
       = prepend (take (fs_scan s) (fs_pending s)) (split_frame (fs_line_start s = fs_scan s) (drop (fs_scan s) (fs_pending s) @ x))"
  using assms unfolding scanned_def by blast+

lemma scanned_other:
  assumes "scanned s" "fs_scan s < length (fs_pending s)" "fs_pending s ! fs_scan s \<noteq> LF" "fs_pending s ! fs_scan s \<noteq> CR"
  shows "scanned (s\<lparr>fs_scan := fs_scan s + 1\<rparr>)"
proof -
  have "drop (fs_scan s) (fs_pending s) = fs_pending s ! fs_scan s # drop (fs_scan s + 1) (fs_pending s)"
    using assms(2) by (simp add: Cons_nth_drop_Suc)
  then show ?thesis
    using scannedD [OF assms(1)] assms(2-4) by (simp add: scanned_def split_frame_other take_Suc_conv_app_nth)
qed

lemma take_drop_stop: "i < stop \<Longrightarrow> take i p @ drop i (take stop p) = take stop p"
  by (metis append_take_drop_id less_imp_le min.absorb1 take_take)

lemma scanned_line:
  assumes "scanned s" "fs_scan s < length (fs_pending s)" "fs_pending s ! fs_scan s \<in> {LF, CR}"
    and "fs_pending s ! fs_scan s = LF \<or> fs_scan s + 1 \<noteq> length (fs_pending s)"
    and "stop = line_end (fs_pending s) (fs_scan s)"
  shows "fs_scan s = fs_line_start s \<Longrightarrow>
      split_frame True (fs_pending s @ x) = Some (take stop (fs_pending s), drop stop (fs_pending s) @ x)"
    and "fs_scan s \<noteq> fs_line_start s \<Longrightarrow> scanned (s\<lparr>fs_scan := stop, fs_line_start := stop\<rparr>)"
proof -
  note b = line_end_bounds [OF assms(2)]
  note t = take_drop_stop [of "fs_scan s" stop "fs_pending s"]
  have line: "split_frame c (drop (fs_scan s) (fs_pending s) @ x) =
    (if c then Some (drop (fs_scan s) (take stop (fs_pending s)), drop stop (fs_pending s) @ x)
     else prepend (drop (fs_scan s) (take stop (fs_pending s))) (split_frame True (drop stop (fs_pending s) @ x)))" for c x
    unfolding assms(5) using assms(2-4) by (intro split_frame_line) auto
  show "split_frame True (fs_pending s @ x) = Some (take stop (fs_pending s), drop stop (fs_pending s) @ x)"
    if "fs_scan s = fs_line_start s"
    using scannedD(3) [OF assms(1)] that line t b assms(5) by simp
  show "scanned (s\<lparr>fs_scan := stop, fs_line_start := stop\<rparr>)" if "fs_scan s \<noteq> fs_line_start s"
    using scannedD [OF assms(1)] that line t b assms(5) by (simp add: scanned_def)
qed

lemma scanned_init [simp]: "fs_scan s = 0 \<Longrightarrow> fs_line_start s = 0 \<Longrightarrow> scanned s"
  by (simp add: scanned_def)

lemma line_end_last_CR:
  assumes "i < length p" "p ! i = LF \<or> i + 1 \<noteq> length p" "p ! i \<in> {LF, CR}" "last (take (line_end p i) p) = CR"
  shows "drop (line_end p i) p \<noteq> []"
proof -
  have l: "last (take n p) = p ! (n - 1)" if "0 < n" "n \<le> length p" for n
    using that by (subst last_conv_nth) (auto simp: min_def)
  show ?thesis
  proof (cases "p ! i = CR \<and> i + 1 < length p \<and> p ! (i + 1) = LF")
    case True
    then have "last (take (line_end p i) p) = LF" by (simp add: line_end_def l)
    then show ?thesis using assms(4) by simp
  next
    case False
    then have stop: "line_end p i = i + 1" by (auto simp: line_end_def)
    then have "p ! i = CR" using assms(1,4) l [of "i + 1"] by simp
    then have "i + 1 < length p" using assms(1,2) by auto
    then show ?thesis using stop by simp
  qed
qed

lemma take_frame_spec:
  "\<lbrakk>scanned s; take_frame False s = (r, t)\<rbrakk> \<Longrightarrow>
     scanned t
     \<and> (case r of
          None \<Rightarrow> drop (fs_scan t) (fs_pending t) \<in> {[], [CR]}
        | Some f \<Rightarrow> (\<forall>x. split_frame True (fs_pending s @ x) = Some (f, fs_pending t @ x)) \<and> (last f = CR \<longrightarrow> fs_pending t \<noteq> []))"
proof (induction s arbitrary: r t rule: take_frame_induct)
  case (scan s)
  show ?case
  proof (cases rule: take_frame_cases [where s = s and eof = False])
    case 1
    then show ?thesis using scan.prems by (auto simp: take_frame_end)
  next
    case 2
    let ?u = "s\<lparr>fs_scan := fs_scan s + 1\<rparr>"
    have u: "fs_pending ?u = fs_pending s" "fs_scan s < fs_scan ?u" by simp_all
    have "take_frame False ?u = (r, t)" using scan.prems(2) unfolding take_frame_other [OF 2] .
    from scan.IH [OF u 2(1) scanned_other [OF scan.prems(1) 2] this] show ?thesis unfolding u(1) .
  next
    case 3
    then have "drop (fs_scan s) (fs_pending s) = [CR]" by (simp add: Cons_nth_drop_Suc [symmetric])
    then show ?thesis using scan.prems 3 by (auto simp: take_frame_wait)
  next
    case 4
    let ?stop = "line_end (fs_pending s) (fs_scan s)"
    have last: "fs_pending s ! fs_scan s = LF \<or> fs_scan s + 1 \<noteq> length (fs_pending s)" using 4(3) by simp
    note line = scanned_line [OF scan.prems(1) 4(1,2) last refl] and b = line_end_bounds [OF 4(1)]
    show ?thesis
    proof (cases "fs_scan s = fs_line_start s")
      case True
      then have r: "r = Some (take ?stop (fs_pending s))"
          and t: "t = s\<lparr>fs_pending := drop ?stop (fs_pending s), fs_scan := 0, fs_line_start := 0\<rparr>"
        using scan.prems(2) take_frame_line [OF 4] by simp_all
      show ?thesis
        unfolding r t using line(1) [OF True] line_end_last_CR [OF 4(1) last 4(2)] by simp
    next
      case False
      let ?u = "s\<lparr>fs_scan := ?stop, fs_line_start := ?stop\<rparr>"
      have u: "fs_pending ?u = fs_pending s" "fs_scan s < fs_scan ?u" using b by simp_all
      have "take_frame False ?u = (r, t)" using scan.prems(2) False unfolding take_frame_line [OF 4] by simp
      from scan.IH [OF u 4(1) line(2) [OF False] this] show ?thesis unfolding u(1) .
    qed
  qed
qed

text \<open>A scan that found nothing stands at the end, or at a CR whose successor is unknown.\<close>

lemma stuck_split:
  assumes "scanned t" "drop (fs_scan t) (fs_pending t) \<in> {[], [CR]}" "split_frame True (fs_pending t @ y) = Some (f, r)"
  shows "length (fs_pending t) < length f \<or> f = fs_pending t \<and> last f = CR"
proof -
  let ?p = "fs_pending t" and ?i = "fs_scan t"
  obtain g where g: "split_frame (fs_line_start t = ?i) (drop ?i ?p @ y) = Some (g, r)" and f: "f = take ?i ?p @ g"
    using assms(3) unfolding scannedD(3) [OF assms(1)] prepend_eq_Some by blast
  have split: "drop ?i ?p @ y = g @ r" "g \<noteq> []" using split_frame_append [OF g] by simp_all
  show ?thesis
  proof (cases "drop ?i ?p = []")
    case True
    then show ?thesis using split(2) by (simp add: f)
  next
    case False
    then have d: "drop ?i ?p = [CR]" using assms(2) by blast
    then obtain g' where g': "g = CR # g'" using split by (cases g) auto
    have p: "?p = take ?i ?p @ [CR]" using append_take_drop_id [of ?i ?p] d by simp
    define q where "q = take ?i ?p"
    have "?p = q @ [CR]" "f = q @ CR # g'" using p by (simp_all add: q_def f g')
    then show ?thesis by (cases g') auto
  qed
qed

definition bytes_of :: "frame_state \<Rightarrow> string" where
  "bytes_of s = fs_pending s @ fs_chunk s @ source_bytes (fs_source s)"

definition frame_inv :: "frame_state \<Rightarrow> bool" where
  "frame_inv s \<longleftrightarrow> scanned s \<and> length (fs_pending s) \<le> fs_limit s \<and> 0 < fs_limit s"

lemma frames_spec_frame:
  "\<lbrakk>split_frame True w = Some (f, r); tail = None \<or> r \<noteq> [] \<or> last f \<noteq> CR; length f < limit \<or> length f = limit \<and> last f \<noteq> CR\<rbrakk>
     \<Longrightarrow> frames_spec limit tail w = (f # fst (frames_spec limit tail r), snd (frames_spec limit tail r))"
  by (subst frames_spec.simps) (simp add: split_beta)

lemma frames_spec_limit:
  assumes "0 < limit" "limit \<le> length w"
    and "\<And>f r. split_frame True w = Some (f, r) \<Longrightarrow> limit < length f \<or> length f = limit \<and> last f = CR"
  shows "frames_spec limit tail w = ([], Some (HbFail ''sse_frame_limit''))"
proof (cases "split_frame True w")
  case None
  then show ?thesis using assms(1,2) by (subst frames_spec.simps) auto
next
  case (Some a)
  then obtain f r where fr: "split_frame True w = Some (f, r)" by (cases a) simp
  then show ?thesis using assms(2) assms(3) [OF fr] by (subst frames_spec.simps) auto
qed

lemma frames_spec_open:
  assumes "length w < limit" "w \<noteq> [] \<or> tail \<noteq> None"
    and "\<And>f r. split_frame True w = Some (f, r) \<Longrightarrow> tail \<noteq> None \<and> r = [] \<and> last f = CR"
  shows "frames_spec limit tail w = ([], Some (case tail of Some e \<Rightarrow> e | None \<Rightarrow> HbFail ''incomplete_sse_frame''))"
proof (cases "split_frame True w")
  case None
  then show ?thesis using assms(1,2) by (subst frames_spec.simps) auto
next
  case (Some a)
  then obtain f r where fr: "split_frame True w = Some (f, r)" by (cases a) simp
  then show ?thesis using assms(1) assms(3) [OF fr] by (subst frames_spec.simps) auto
qed

text \<open>At the end of the stream a lone CR ends the line.\<close>

lemma take_frame_eof:
  assumes "scanned t" "drop (fs_scan t) (fs_pending t) \<in> {[], [CR]}" "take_frame True t = (r, u)"
  shows "case r of
      None \<Rightarrow> split_frame True (fs_pending t) = None
    | Some f \<Rightarrow> f = fs_pending t \<and> split_frame True (fs_pending t) = Some (f, []) \<and> fs_pending u = [] \<and> scanned u"
proof (cases "drop (fs_scan t) (fs_pending t) = []")
  case True
  then show ?thesis using assms(3) scannedD(3) [OF assms(1), of "[]"] by (auto simp: take_frame_end)
next
  case False
  let ?p = "fs_pending t" and ?i = "fs_scan t"
  have d: "drop ?i ?p = [CR]" using False assms(2) by blast
  then have "length (drop ?i ?p) = 1" by simp
  then have len: "?i + 1 = length ?p" by simp
  have c: "?p ! ?i = CR" using d len by (metis Suc_eq_plus1 lessI nth_via_drop)
  have stop: "line_end ?p ?i = length ?p" using len by (auto simp: line_end_def)
  have i: "?i < length ?p" using len by simp
  note line = take_frame_line [OF i, of True, unfolded stop]
  note split = scannedD(3) [OF assms(1), of "[]", unfolded d]
  have p: "take ?i ?p @ [CR] = ?p" using append_take_drop_id [of ?i ?p] d by simp
  show ?thesis
  proof (cases "?i = fs_line_start t")
    case True
    then have "r = Some ?p \<and> fs_pending u = [] \<and> fs_scan u = 0 \<and> fs_line_start u = 0" using line c assms(3) by auto
    then show ?thesis using split True p by simp
  next
    case False
    then have "r = None" using line c assms(3) by (auto simp: take_frame_end)
    then show ?thesis using split False by simp
  qed
qed

lemma next_frame_spec:
  "frame_inv s \<Longrightarrow>
   (case next_frame s of
      NextFrame f s' \<Rightarrow> frame_inv s' \<and> fs_limit s' = fs_limit s \<and> source_tail (fs_source s') = source_tail (fs_source s)
        \<and> frames_spec (fs_limit s) (source_tail (fs_source s)) (bytes_of s)
            = (f # fst (frames_spec (fs_limit s) (source_tail (fs_source s)) (bytes_of s')),
               snd (frames_spec (fs_limit s) (source_tail (fs_source s)) (bytes_of s')))
    | NextEnd \<Rightarrow> frames_spec (fs_limit s) (source_tail (fs_source s)) (bytes_of s) = ([], None)
    | NextErr e \<Rightarrow> frames_spec (fs_limit s) (source_tail (fs_source s)) (bytes_of s) = ([], Some e))"
proof (induction s rule: next_frame_induct)
  case (frame s f t)
  note k = take_frame_keeps [OF frame(1)]
  have sc: "scanned s" using frame(2) by (simp add: frame_inv_def)
  note spec = take_frame_spec [OF sc frame(1)]
  have w: "split_frame True (bytes_of s) = Some (f, bytes_of t)" using spec k by (simp add: bytes_of_def)
  have "last f = CR \<longrightarrow> fs_pending t \<noteq> []" using spec by simp
  then have decided: "source_tail (fs_source s) = None \<or> bytes_of t \<noteq> [] \<or> last f \<noteq> CR"
      and fits: "length f < fs_limit s \<or> length f = fs_limit s \<and> last f \<noteq> CR"
    using k frame(2) by (auto simp: bytes_of_def frame_inv_def neq_Nil_conv)
  from frames_spec_frame [OF w decided fits] show ?case
    using k spec frame(2) by (simp add: next_frame_step(1) [OF frame(1)] frame_inv_def)
next
  case (limit s t)
  note k = take_frame_keeps [OF limit(1)]
  have sc: "scanned s" using limit(3) by (simp add: frame_inv_def)
  have st: "scanned t" "drop (fs_scan t) (fs_pending t) \<in> {[], [CR]}" using take_frame_spec [OF sc limit(1)] by simp_all
  have p: "fs_pending s = fs_pending t" "length (fs_pending t) = fs_limit s" "0 < fs_limit s"
    using k limit(2,3) by (auto simp: frame_inv_def)
  have "frames_spec (fs_limit s) (source_tail (fs_source s)) (bytes_of s) = ([], Some (HbFail ''sse_frame_limit''))"
    using stuck_split [OF st] p by (intro frames_spec_limit) (auto simp: bytes_of_def)
  then show ?case by (simp add: next_frame_step(2) [OF limit(1,2)])
next
  case (chunk s t n)
  note k = take_frame_keeps [OF chunk(1)]
  have sc: "scanned s" using chunk(6) by (simp add: frame_inv_def)
  have st: "scanned t" using take_frame_spec [OF sc chunk(1)] by simp
  let ?u = "t\<lparr>fs_pending := fs_pending t @ take n (fs_chunk t), fs_chunk := drop n (fs_chunk t)\<rparr>"
  have "frame_inv ?u" using st chunk(2,4) k by (auto simp: frame_inv_def scanned_def)
  moreover have "bytes_of ?u = bytes_of s" using k by (simp add: bytes_of_def)
  ultimately show ?case
    using chunk(5) k unfolding next_frame_step(3) [OF chunk(1-4)] by (simp split: next_result.splits)
next
  case (item s t b rest)
  note k = take_frame_keeps [OF item(1)]
  have sc: "scanned s" using item(6) by (simp add: frame_inv_def)
  have st: "scanned t" using take_frame_spec [OF sc item(1)] by simp
  let ?u = "t\<lparr>fs_chunk := b, fs_source := rest\<rparr>"
  have "frame_inv ?u" using st item(2) k by (auto simp: frame_inv_def scanned_def)
  moreover have src: "fs_source s = Inr b # rest" "fs_chunk s = []" using k item(3,4) by simp_all
  then have "bytes_of ?u = bytes_of s" "source_tail (fs_source ?u) = source_tail (fs_source s)"
    using k by (simp_all add: bytes_of_def)
  ultimately show ?case
    using item(5) k unfolding next_frame_step(4) [OF item(1-4)] by (simp split: next_result.splits)
next
  case (failed s t e rest)
  note k = take_frame_keeps [OF failed(1)]
  have sc: "scanned s" using failed(5) by (simp add: frame_inv_def)
  have st: "scanned t" "drop (fs_scan t) (fs_pending t) \<in> {[], [CR]}" using take_frame_spec [OF sc failed(1)] by simp_all
  have "fs_source s = Inl e # rest" "fs_chunk s = []" using k failed(3,4) by simp_all
  then have w: "bytes_of s = fs_pending t @ []" "source_tail (fs_source s) = Some e" using k by (simp_all add: bytes_of_def)
  have "frames_spec (fs_limit s) (Some e) (bytes_of s) = ([], Some (case Some e of Some e \<Rightarrow> e | None \<Rightarrow> HbFail ''incomplete_sse_frame''))"
  proof (rule frames_spec_open)
    fix f r assume f: "split_frame True (bytes_of s) = Some (f, r)"
    then show "Some e \<noteq> None \<and> r = [] \<and> last f = CR"
      using stuck_split [OF st, of "[]" f r] split_frame_append [OF f] by (auto simp: w)
  qed (use failed(2) k in \<open>simp_all add: w\<close>)
  then show ?case by (simp add: next_frame_step(5) [OF failed(1-4)] w(2))
next
  case (ended s t)
  then show ?case
    using take_frame_keeps [OF ended(1)] by (simp add: next_frame_step(6) [OF ended(1-5)] bytes_of_def frames_spec.simps)
next
  case (last s t f u)
  note k = take_frame_keeps [OF last(1)] and k2 = take_frame_keeps [OF last(6)]
  have sc: "scanned s" using last(7) by (simp add: frame_inv_def)
  have st: "scanned t" "drop (fs_scan t) (fs_pending t) \<in> {[], [CR]}" using take_frame_spec [OF sc last(1)] by simp_all
  have e: "f = fs_pending t" "split_frame True (fs_pending t) = Some (f, [])" "fs_pending u = []" "scanned u"
    using take_frame_eof [OF st last(6)] by simp_all
  have w: "bytes_of s = fs_pending t" "bytes_of u = []" "source_tail (fs_source s) = None"
    using k k2 last(3,4) e(3) by (simp_all add: bytes_of_def)
  have "frames_spec (fs_limit s) None (bytes_of s) = (f # fst (frames_spec (fs_limit s) None []), snd (frames_spec (fs_limit s) None []))"
    by (rule frames_spec_frame) (use e last(2) k in \<open>simp_all add: w\<close>)
  then show ?case
    using k k2 e last(4,7) by (simp add: next_frame_step(7) [OF last(1-6)] w frame_inv_def)
next
  case (incomplete s t u)
  note k = take_frame_keeps [OF incomplete(1)]
  have sc: "scanned s" using incomplete(7) by (simp add: frame_inv_def)
  have st: "scanned t" "drop (fs_scan t) (fs_pending t) \<in> {[], [CR]}" using take_frame_spec [OF sc incomplete(1)] by simp_all
  have e: "split_frame True (fs_pending t) = None" using take_frame_eof [OF st incomplete(6)] by simp
  have w: "bytes_of s = fs_pending t" "source_tail (fs_source s) = None" using k incomplete(3,4) by (simp_all add: bytes_of_def)
  have "frames_spec (fs_limit s) None (bytes_of s) = ([], Some (case None of Some e \<Rightarrow> e | None \<Rightarrow> HbFail ''incomplete_sse_frame''))"
    by (rule frames_spec_open) (use e incomplete(2,5) k in \<open>simp_all add: w\<close>)
  then show ?case by (simp add: next_frame_step(8) [OF incomplete(1-6)] w)
qed

lemma run_frames_spec:
  "frame_inv s \<Longrightarrow> run_frames s = frames_spec (fs_limit s) (source_tail (fs_source s)) (bytes_of s)"
proof (induction s rule: run_frames.induct)
  case (1 s)
  then show ?case
    using next_frame_spec [OF 1(2)]
    by (subst run_frames.simps) (auto simp: split_beta split: next_result.splits)
qed

section \<open>Heartbeats leave the frames alone\<close>

text \<open>The frames that a client finds in a text.\<close>

function frames_of :: "string \<Rightarrow> string list" where
  "frames_of w = (case split_frame True w of None \<Rightarrow> [] | Some (f, r) \<Rightarrow> f # frames_of r)"
  by pat_completeness auto
termination
  by (relation "measure length") (auto dest: split_frame_append)

declare frames_of.simps [simp del]

lemma split_frame_next: "split_frame b w = Some (f, r) \<Longrightarrow> last f = CR \<Longrightarrow> r = [] \<or> hd r \<noteq> LF"
  by (induction b w arbitrary: f rule: split_frame.induct)
    (auto simp: prepend_eq_Some dest: split_frame_append split: if_splits)

lemma split_frame_closed:
  "split_frame b w = Some (f, r) \<Longrightarrow> last f = CR \<longrightarrow> x = [] \<or> hd x \<noteq> LF \<Longrightarrow> split_frame b (f @ x) = Some (f, x)"
proof (induction b w arbitrary: f rule: split_frame.induct)
  case (2 b c)
  then show ?case by (auto simp: split_frame_LF split_frame_CR split: if_splits)
next
  case (3 b c d s)
  show ?case
  proof (cases "c = CR \<and> d = LF")
    case True
    show ?thesis
    proof (cases b)
      case False
      then obtain g where g: "split_frame True s = Some (g, r)" and f: "f = c # d # g"
        using 3(4) True by (auto simp: prepend_eq_Some)
      have "g \<noteq> []" using split_frame_append [OF g] by simp
      then have "split_frame True (g @ x) = Some (g, x)" using 3(1) [OF True False g] 3(5) f by simp
      then show ?thesis using True False by (simp add: f)
    qed (use 3(4) True in auto)
  next
    case nl: False
    show ?thesis
    proof (cases "c = LF \<or> c = CR")
      case True
      show ?thesis
      proof (cases b)
        case True
        then show ?thesis
          using 3(4,5) nl \<open>c = LF \<or> c = CR\<close> by (auto simp: split_frame_LF split_frame_CR)
      next
        case False
        then obtain g where g: "split_frame True (d # s) = Some (g, r)" and f: "f = c # g"
          using 3(4) nl True by (auto simp: prepend_eq_Some)
        have "g \<noteq> []" "hd g = d" using split_frame_append [OF g] by (auto simp: Cons_eq_append_conv)
        moreover have "split_frame True (g @ x) = Some (g, x)" using 3(2) [OF nl True False g] 3(5) f \<open>g \<noteq> []\<close> by simp
        ultimately show ?thesis
          using True False nl by (cases "c = LF") (auto simp: f split_frame_LF split_frame_CR)
      qed
    next
      case False
      then obtain g where g: "split_frame False (d # s) = Some (g, r)" and f: "f = c # g"
        using 3(4) nl by (auto simp: prepend_eq_Some)
      have "g \<noteq> []" using split_frame_append [OF g] by simp
      then have "split_frame False (g @ x) = Some (g, x)" using 3(3) [OF nl False g] 3(5) f by simp
      then show ?thesis using False by (simp add: f split_frame_other)
    qed
  qed
qed simp

text \<open>Frames that can be sent one after the other.\<close>

fun chain :: "string list \<Rightarrow> bool" where
  "chain [] = True"
| "chain (f # fs) =
     (split_frame True f = Some (f, []) \<and> (last f = CR \<longrightarrow> (case fs of [] \<Rightarrow> True | g # _ \<Rightarrow> hd g \<noteq> LF)) \<and> chain fs)"

lemma frames_of_chain: "chain fs \<Longrightarrow> frames_of (concat fs) = fs"
proof (induction fs)
  case Nil
  then show ?case by (simp add: frames_of.simps)
next
  case (Cons f fs)
  have "concat fs = [] \<or> hd (concat fs) \<noteq> LF" if "last f = CR"
    using Cons.prems that by (cases fs) (auto dest: split_frame_append)
  then have "split_frame True (f @ concat fs) = Some (f, concat fs)"
    using Cons.prems split_frame_closed [of True f f "[]" "concat fs"] by simp
  then show ?case using Cons by (subst frames_of.simps) simp
qed

lemma frames_spec_chain: "chain (fst (frames_spec limit tail w))"
proof (induction limit tail w rule: frames_spec.induct)
  case (1 limit tail w)
  show ?case
  proof (cases "\<exists>f r. split_frame True w = Some (f, r) \<and> (tail = None \<or> r \<noteq> [] \<or> last f \<noteq> CR)
      \<and> (length f < limit \<or> length f = limit \<and> last f \<noteq> CR)")
    case True
    then obtain f r where f: "split_frame True w = Some (f, r)" "tail = None \<or> r \<noteq> [] \<or> last f \<noteq> CR"
      "length f < limit \<or> length f = limit \<and> last f \<noteq> CR" by blast
    have "chain (fst (frames_spec limit tail r))" using 1 [OF f(1) refl f(2,3)] .
    moreover have "split_frame True f = Some (f, [])" using split_frame_closed [OF f(1), of "[]"] by simp
    moreover have "hd g \<noteq> LF" if cr: "last f = CR" and more: "fst (frames_spec limit tail r) = g # gs" for g gs
    proof -
      obtain r' where "split_frame True r = Some (g, r')"
        using more by (subst (asm) frames_spec.simps) (auto simp: split_beta split: option.splits if_splits)
      then show ?thesis using split_frame_next [OF f(1) cr] by (auto dest: split_frame_append)
    qed
    ultimately show ?thesis
      unfolding frames_spec_frame [OF f] by (auto split: list.split)
  next
    case False
    then have "fst (frames_spec limit tail w) = []"
      by (subst frames_spec.simps) (auto split: option.splits if_splits)
    then show ?thesis by simp
  qed
qed

text \<open>Heartbeats between frames under a schedule; \<open>ts\<close> are the frames that report an error at the end.\<close>

fun weave :: "bool list \<Rightarrow> string list \<Rightarrow> string list \<Rightarrow> string list" where
  "weave [] fs ts = []"
| "weave (True # sched) fs ts = heartbeat ModeSse # weave sched fs ts"
| "weave (False # sched) (f # fs) ts = f # weave sched fs ts"
| "weave (False # sched) [] ts = ts"

lemma heartbeat_frame:
  "split_frame True (heartbeat ModeSse) = Some (heartbeat ModeSse, [])" "hd (heartbeat ModeSse) \<noteq> LF"
  "last (heartbeat ModeSse) \<noteq> CR"
  by code_simp+

text \<open>A frame that starts with LF can only be the next frame of the source.\<close>

lemma weave_head:
  assumes "weave sched fs ts = g # gs" "hd g = LF" "\<And>t ts'. ts = t # ts' \<Longrightarrow> hd t \<noteq> LF"
  shows "\<exists>fs'. fs = g # fs'"
  using assms heartbeat_frame(2) by (cases "(sched, fs, ts)" rule: weave.cases) auto

lemma weave_chain:
  assumes "\<And>t ts'. ts = t # ts' \<Longrightarrow> hd t \<noteq> LF"
  shows "\<lbrakk>chain fs; chain ts\<rbrakk> \<Longrightarrow> chain (weave sched fs ts)"
  using assms
proof (induction sched fs ts rule: weave.induct)
  case (2 sched fs ts)
  have "chain (weave sched fs ts)" using 2 by blast
  then show ?case using heartbeat_frame by simp
next
  case (3 sched f fs ts)
  have "chain fs" using 3(2) by simp
  then have "chain (weave sched fs ts)" using 3 by blast
  moreover have "hd g \<noteq> LF" if "last f = CR" "weave sched fs ts = g # gs" for g gs
    using weave_head [OF that(2) _ 3(4)] 3(2) that(1) by fastforce
  ultimately show ?case using 3(2) by (auto split: list.split)
qed simp_all

lemma weave_client:
  "prefix (filter P (weave sched fs ts)) (filter P (fs @ ts))
   \<and> (length fs < length (filter Not sched) \<longrightarrow> filter P (weave sched fs ts) = filter P (fs @ ts))"
  if "\<not> P (heartbeat ModeSse)"
  using that by (induction sched fs ts rule: weave.induct) auto

definition error_frames :: "json_printer \<Rightarrow> nat \<Rightarrow> string list" where
  "error_frames to_vec status = [''data: '' @ error_json to_vec status @ [LF, LF], ''data: [DONE]'' @ [LF, LF]]"

lemma terminal_frames: "terminal_sse to_vec status = concat (error_frames to_vec status)"
  by (simp add: terminal_sse_def error_frames_def)

text \<open>A printer that writes one line, as the compact form of JSON is.\<close>

definition one_line :: "json_printer \<Rightarrow> bool" where
  "one_line to_vec \<longleftrightarrow> (\<forall>v. LF \<notin> set (to_vec v) \<and> CR \<notin> set (to_vec v))"

lemma split_frame_text:
  "\<lbrakk>LF \<notin> set l; CR \<notin> set l; l \<noteq> []\<rbrakk> \<Longrightarrow> split_frame b (l @ [LF, LF]) = Some (l @ [LF, LF], [])"
proof (induction l arbitrary: b)
  case (Cons c l)
  then show ?case by (cases l) (auto simp: split_frame_other split_frame_LF)
qed simp

lemma error_frames_chain: "one_line to_vec \<Longrightarrow> chain (error_frames to_vec status)"
  using split_frame_text [of "''data: '' @ error_json to_vec status" True] split_frame_text [of "''data: [DONE]''" True]
  by (simp add: error_frames_def one_line_def error_json_def)

lemma drive_sse:
  "source_bytes (drive_body to_vec sched (SseBody (Some s)))
     = concat (weave sched (fst (run_frames s)) (if snd (run_frames s) = None then [] else error_frames to_vec 502))
   \<and> source_tail (drive_body to_vec sched (SseBody (Some s))) = None"
proof (induction sched arbitrary: s)
  case (Cons el sched)
  have over: "drive_body to_vec sched (SseBody None) = []" by (cases sched) simp_all
  show ?case
  proof (cases el)
    case True
    then show ?thesis using Cons by simp
  next
    case False
    then show ?thesis
      using Cons over by (cases "next_frame s") (simp_all add: run_frames.simps [of s] split_beta terminal_frames)
  qed
qed simp

text \<open>The bytes of an answer are frames with heartbeats between them, also when it starts before the response.\<close>

lemma source_bytes_ok:
  "source_tail xs = None \<Longrightarrow> concat (List.map_filter (\<lambda>x. case x of Inr b \<Rightarrow> Some b | Inl _ \<Rightarrow> None) xs) = source_bytes xs"
  by (induction xs rule: source_bytes.induct) (simp_all add: List.map_filter_simps)

fun effective :: "(bool \<times> bool) list \<Rightarrow> bool list" where
  "effective [] = []"
| "effective ((a, b) # sched) = (if a then True # effective sched else b # map snd sched)"

lemma ready_steps:
  "length (filter (\<lambda>(a, b). \<not> a \<and> \<not> b) sched) \<le> length (filter Not (map snd sched))"
  "length (filter (\<lambda>(a, b). \<not> a \<and> \<not> b) sched) \<le> length (filter Not (effective sched))"
proof -
  show snd: "length (filter (\<lambda>(a, b). \<not> a \<and> \<not> b) sched) \<le> length (filter Not (map snd sched))" for sched :: "(bool \<times> bool) list"
    by (induction sched) auto
  show "length (filter (\<lambda>(a, b). \<not> a \<and> \<not> b) sched) \<le> length (filter Not (effective sched))"
    by (induction sched rule: effective.induct) (use snd in \<open>auto simp: le_SucI\<close>)
qed

lemma drive_early_sse:
  "concat (drive_early lib active pending sched (EarlySse (SseBody st)))
     = source_bytes (drive_body (jl_to_vec lib) (map snd sched) (SseBody st))"
proof (induction sched arbitrary: st)
  case (Cons el sched)
  have over: "drive_early lib active pending sched EarlyDone = []" by (cases sched) simp_all
  show ?case
  proof (cases st)
    case (Some s)
    then show ?thesis using Cons over by (cases "next_frame s"; cases "snd el") simp_all
  qed simp
qed simp

lemma drive_early_waiting:
  assumes "ha_mode active = ModeSse" "pending = Ok r" "success_status (dr_status r)" "dr_body (established r active) = SseBody st"
  shows "concat (drive_early lib active pending sched (EarlyWaiting False))
     = (case st of None \<Rightarrow> concat (replicate (length (takeWhile fst sched)) (heartbeat ModeSse))
        | Some s \<Rightarrow> source_bytes (drive_body (jl_to_vec lib) (effective sched) (SseBody (Some s))))"
proof (induction sched rule: effective.induct)
  case (2 a b sched)
  show ?case
  proof (cases a)
    case True
    then show ?thesis using 2 assms(1) by (auto split: option.splits)
  next
    case False
    have body: "poll_early lib active pending (False, b) (EarlyWaiting False)
        = early_body_item lib (poll_body (jl_to_vec lib) b (SseBody st))"
      using assms by simp
    show ?thesis
      using False drive_early_sse [of lib active pending "(False, b) # sched" st] body
      by (cases st) (simp_all del: poll_early.simps(2) add: poll_early.simps(3))
  qed
qed (simp split: option.split)

lemma reply_weave:
  assumes "respond_heartbeat elapsed (Ok r) active = Ok reply" "ha_mode active = ModeSse" "success_status (dr_status r)"
    and "header_str (dr_headers r) ''content-type'' = Some ct" "starts_with ''text/event-stream'' ct"
    and "s = frames (dr_body r) (hc_max_frame_bytes (ha_config active))"
    and "ts = (if snd (run_frames s) = None then [] else error_frames (jl_to_vec lib) 502)"
  shows "\<exists>sched'. reply_bytes lib active sched reply = concat (weave sched' (fst (run_frames s)) ts)
    \<and> length (filter (\<lambda>(a, b). \<not> a \<and> \<not> b) sched) \<le> Suc (length (filter Not sched'))"
proof -
  have body: "dr_body (established r active) = SseBody (Some s)"
    using assms(2-6) by (simp add: established_def sse_body_def)
  note sse = drive_sse [of "jl_to_vec lib" _ s, folded assms(7)]
  consider "reply = ReplyResponse (established r active)" | h where "reply = ReplyEarly 200 h (Ok r)"
    using assms(1,2) by (auto simp: respond_heartbeat_def Let_def split: if_splits)
  then show ?thesis
  proof cases
    case 1
    then show ?thesis
      using sse [of "map snd sched"] ready_steps(1) [of sched] body
      by (intro exI [of _ "map snd sched"]) (simp add: source_bytes_ok)
  next
    case 2
    show ?thesis
    proof (cases sched)
      case Nil
      then show ?thesis using 2 by (intro exI [of _ "[]"]) simp
    next
      case (Cons x rest)
      have "reply_bytes lib active sched reply = heartbeat ModeSse @ source_bytes (drive_body (jl_to_vec lib) (effective rest) (SseBody (Some s)))"
        using drive_early_waiting [OF assms(2) refl assms(3) body, of lib rest] 2 assms(2) by (simp add: Cons)
      then show ?thesis
        using sse [of "effective rest"] ready_steps(2) [of rest] Cons
        by (intro exI [of _ "True # effective rest"]) auto
    qed
  qed
qed

lemma frame_inv_frames: "0 < limit \<Longrightarrow> frame_inv (frames source limit)"
  by (simp add: frame_inv_def frames_def)

lemma run_frames_bytes:
  "0 < limit \<Longrightarrow> run_frames (frames source limit) = frames_spec limit (source_tail source) (source_bytes source)"
  using run_frames_spec [OF frame_inv_frames] by (simp add: frames_def bytes_of_def)

lemma frames_spec_bounds:
  "prefix (concat (fst (frames_spec limit tail w))) w \<and> (\<forall>f \<in> set (fst (frames_spec limit tail w)). length f \<le> limit)
   \<and> (snd (frames_spec limit tail w) = None \<longrightarrow> concat (fst (frames_spec limit tail w)) = w \<and> tail = None)"
proof (induction limit tail w rule: frames_spec.induct)
  case (1 limit tail w)
  show ?case
  proof (cases "\<exists>f r. split_frame True w = Some (f, r) \<and> (tail = None \<or> r \<noteq> [] \<or> last f \<noteq> CR)
      \<and> (length f < limit \<or> length f = limit \<and> last f \<noteq> CR)")
    case True
    then obtain f r where f: "split_frame True w = Some (f, r)" "tail = None \<or> r \<noteq> [] \<or> last f \<noteq> CR"
      "length f < limit \<or> length f = limit \<and> last f \<noteq> CR" by blast
    show ?thesis
      using 1 [OF f(1) refl f(2,3)] f(3) split_frame_append [OF f(1)] unfolding frames_spec_frame [OF f] by auto
  next
    case False
    then have "fst (frames_spec limit tail w) = [] \<and> (snd (frames_spec limit tail w) = None \<longrightarrow> w = [] \<and> tail = None)"
      by (subst (1 2) frames_spec.simps) (auto split: option.splits if_splits)
    then show ?thesis by auto
  qed
qed

section \<open>Properties of frames\<close>

text \<open>
  Property C11. The frames of a stream depend on its bytes only and not on the chunks they arrive in: they are the
  pieces between empty lines in order, with every line-ending convention, none longer than the limit. No byte is lost
  or reordered, and the stream ends without error only when the source does and the frames are all its bytes.
\<close>

theorem frames_any_chunking:
  assumes "0 < limit" "run_frames (frames source limit) = (fs, e)"
  shows "(fs, e) = frames_spec limit (source_tail source) (source_bytes source)
    \<and> frames_of (concat fs) = fs \<and> prefix (concat fs) (source_bytes source) \<and> (\<forall>f \<in> set fs. length f \<le> limit)
    \<and> (e = None \<longrightarrow> concat fs = source_bytes source \<and> source_tail source = None)"
proof -
  have "(fs, e) = frames_spec limit (source_tail source) (source_bytes source)"
    using assms run_frames_bytes by metis
  then show ?thesis
    using frames_spec_bounds [of limit "source_tail source" "source_bytes source"]
      frames_of_chain [OF frames_spec_chain, of limit "source_tail source" "source_bytes source"] by (metis fst_conv snd_conv)
qed

text \<open>
  Property C9. Heartbeats never split or change an event: whatever the schedule of the timers and of the upstream, and
  whether the answer starts before or after the response, what the client has received is a sequence of complete
  frames. Without the heartbeats these are the first frames of the upstream, followed only after an error by the frames
  that report it, and all of them once the upstream was ready often enough.
\<close>

theorem heartbeats_keep_frames:
  assumes "respond_heartbeat elapsed (Ok r) active = Ok reply" "ha_mode active = ModeSse" "success_status (dr_status r)"
    and "header_str (dr_headers r) ''content-type'' = Some ct" "starts_with ''text/event-stream'' ct"
    and "validate_heartbeat (ha_config active)" "one_line (jl_to_vec lib)"
    and "(fs, e) = frames_spec (hc_max_frame_bytes (ha_config active)) (source_tail (dr_body r)) (source_bytes (dr_body r))"
    and "expected = filter (\<lambda>f. f \<noteq> heartbeat ModeSse) (fs @ (if e = None then [] else error_frames (jl_to_vec lib) 502))"
    and "out = reply_bytes lib active sched reply"
  shows "concat (frames_of out) = out
    \<and> prefix (filter (\<lambda>f. f \<noteq> heartbeat ModeSse) (frames_of out)) expected
    \<and> (Suc (length fs) < length (filter (\<lambda>(a, b). \<not> a \<and> \<not> b) sched) \<longrightarrow>
         filter (\<lambda>f. f \<noteq> heartbeat ModeSse) (frames_of out) = expected)"
proof -
  let ?limit = "hc_max_frame_bytes (ha_config active)" and ?P = "\<lambda>f. f \<noteq> heartbeat ModeSse"
  define ts where "ts = (if e = None then [] else error_frames (jl_to_vec lib) 502)"
  have "0 < ?limit" using assms(6) by (simp add: validate_heartbeat_def)
  then have run: "run_frames (frames (dr_body r) ?limit) = (fs, e)" using run_frames_bytes assms(8) by metis
  obtain sched' where out: "out = concat (weave sched' fs ts)"
      and ready: "length (filter (\<lambda>(a, b). \<not> a \<and> \<not> b) sched) \<le> Suc (length (filter Not sched'))"
    using reply_weave [OF assms(1-5) refl refl, of lib sched] assms(10) by (auto simp: run ts_def)
  have fs: "chain fs" using frames_spec_chain assms(8) by (metis fst_conv)
  have "chain ts" "\<And>t ts'. ts = t # ts' \<Longrightarrow> hd t \<noteq> LF"
    using error_frames_chain [OF assms(7)] by (auto simp: ts_def error_frames_def split: if_splits)
  then have "chain (weave sched' fs ts)" using weave_chain fs by blast
  then have split: "frames_of out = weave sched' fs ts" unfolding out by (rule frames_of_chain)
  have "prefix (filter ?P (weave sched' fs ts)) (filter ?P (fs @ ts))
      \<and> (length fs < length (filter Not sched') \<longrightarrow> filter ?P (weave sched' fs ts) = filter ?P (fs @ ts))"
    by (rule weave_client) simp
  moreover have "expected = filter ?P (fs @ ts)" by (simp add: assms(9) ts_def)
  ultimately show ?thesis using ready out unfolding split by auto
qed

section \<open>The document after the keepalives\<close>



text \<open>
  What \<open>serde_json\<close> promises of the values that are printed here: an object of ASCII texts, of integers of 64 bits and
  of such objects, nested at most \<open>depth\<close> deep, is parsed back as it was printed.
\<close>

abbreviation ascii_text :: "string \<Rightarrow> bool" where
  "ascii_text s \<equiv> list_all (\<lambda>c. byte c < 128) s"

fun plain_json :: "nat \<Rightarrow> json \<Rightarrow> bool" where
  "plain_json depth (JString s) \<longleftrightarrow> ascii_text s"
| "plain_json depth (JNumber (PosInt n)) \<longleftrightarrow> n < u64_bound"
| "plain_json (Suc depth) (JObject m) \<longleftrightarrow> distinct (map fst m) \<and> (\<forall>e \<in> set m. ascii_text (fst e) \<and> plain_json depth (snd e))"
| "plain_json depth v \<longleftrightarrow> False"

definition prints_back :: "json_lib \<Rightarrow> bool" where
  "prints_back lib \<longleftrightarrow> (\<forall>v. plain_json 2 v \<longrightarrow> jl_parse lib (jl_to_vec lib v) = Some v)"











section \<open>Upstream event streams\<close>

definition final_frame :: "json_parser \<Rightarrow> string \<Rightarrow> bool" where
  "final_frame parse f \<longleftrightarrow> frame_data f = ''[DONE]'' \<or> frame_data f \<noteq> [] \<and> terminal_data parse (frame_data f)"

text \<open>
  What the reader gives for a list of frames: the data of the frames before the first that is final or no UTF-8, then
  the data of a final event.
\<close>

definition upstream_result :: "json_parser \<Rightarrow> string list \<Rightarrow> hb_error option \<Rightarrow> string list \<times> hb_error option" where
  "upstream_result parse fs e =
     (let plain = (\<lambda>f. from_utf8 f \<and> \<not> final_frame parse f);
          ds = filter (\<lambda>d. d \<noteq> []) (map frame_data (takeWhile plain fs)) in
      case dropWhile plain fs of
        [] \<Rightarrow> (ds, Some (case e of Some x \<Rightarrow> x | None \<Rightarrow> HbFail ''upstream_stream_incomplete''))
      | f # _ \<Rightarrow>
          if \<not> from_utf8 f then (ds, Some (HbFail ''invalid_sse_utf8''))
          else if frame_data f = ''[DONE]'' then (ds, None)
          else (ds @ [frame_data f], None))"

lemma upstream_result_simps:
  "upstream_result parse [] e = ([], Some (case e of Some x \<Rightarrow> x | None \<Rightarrow> HbFail ''upstream_stream_incomplete''))"
  "\<not> from_utf8 f \<Longrightarrow> upstream_result parse (f # fs) e = ([], Some (HbFail ''invalid_sse_utf8''))"
  "\<lbrakk>from_utf8 f; frame_data f = ''[DONE]''\<rbrakk> \<Longrightarrow> upstream_result parse (f # fs) e = ([], None)"
  "\<lbrakk>from_utf8 f; frame_data f \<noteq> ''[DONE]''; frame_data f \<noteq> []; terminal_data parse (frame_data f)\<rbrakk>
     \<Longrightarrow> upstream_result parse (f # fs) e = ([frame_data f], None)"
  by (simp_all add: upstream_result_def final_frame_def)

lemma upstream_result_plain:
  "\<lbrakk>from_utf8 f; \<not> final_frame parse f; frame_data f \<noteq> []\<rbrakk>
     \<Longrightarrow> upstream_result parse (f # fs) e = (frame_data f # fst (upstream_result parse fs e), snd (upstream_result parse fs e))"
  "\<lbrakk>from_utf8 f; frame_data f = []\<rbrakk> \<Longrightarrow> upstream_result parse (f # fs) e = upstream_result parse fs e"
proof -
  let ?rest = "dropWhile (\<lambda>f. from_utf8 f \<and> \<not> final_frame parse f) fs"
  show "\<lbrakk>from_utf8 f; \<not> final_frame parse f; frame_data f \<noteq> []\<rbrakk>
     \<Longrightarrow> upstream_result parse (f # fs) e = (frame_data f # fst (upstream_result parse fs e), snd (upstream_result parse fs e))"
    by (cases ?rest) (simp_all add: upstream_result_def Let_def del: dropWhile_eq_Nil_conv)
  have "frame_data f = [] \<Longrightarrow> \<not> final_frame parse f" by (simp add: final_frame_def)
  then show "\<lbrakk>from_utf8 f; frame_data f = []\<rbrakk> \<Longrightarrow> upstream_result parse (f # fs) e = upstream_result parse fs e"
    by (cases ?rest) (simp_all add: upstream_result_def Let_def del: dropWhile_eq_Nil_conv)
qed

lemma run_upstream_frames: "run_upstream parse (s, False) = upstream_result parse (fst (run_frames s)) (snd (run_frames s))"
proof (induction s rule: run_frames.induct)
  case (1 s)
  note run = run_upstream.simps [of parse "(s, False)"] and poll = poll_upstream.simps [of parse s False]
  have ended: "run_upstream parse (t, True) = ([], None)" for t
    by (simp add: run_upstream.simps [of parse "(t, True)"] poll_upstream.simps)
  show ?case
  proof (cases "next_frame s")
    case (NextFrame f t)
    then have frames: "run_frames s = (f # fst (run_frames t), snd (run_frames t))"
      by (simp add: run_frames.simps [of s] split_beta)
    note IH = 1 [OF NextFrame]
    consider "\<not> from_utf8 f" | "from_utf8 f" "frame_data f = ''[DONE]''" | "from_utf8 f" "frame_data f = []"
      | "from_utf8 f" "frame_data f \<noteq> ''[DONE]''" "frame_data f \<noteq> []" "terminal_data parse (frame_data f)"
      | "from_utf8 f" "\<not> final_frame parse f" "frame_data f \<noteq> []"
      by (auto simp: final_frame_def)
    then show ?thesis
    proof cases
      case 3
      then have "poll_upstream parse (s, False) = poll_upstream parse (t, False)" using NextFrame by (simp add: poll)
      then have "run_upstream parse (s, False) = run_upstream parse (t, False)"
        by (simp add: run run_upstream.simps [of parse "(t, False)"])
      then show ?thesis using IH 3 by (simp add: frames upstream_result_plain(2))
    next
      case 4
      then show ?thesis using NextFrame ended by (simp add: run poll frames upstream_result_simps(4))
    next
      case 5
      then have "frame_data f \<noteq> ''[DONE]''" "\<not> terminal_data parse (frame_data f)" by (auto simp: final_frame_def)
      then show ?thesis using NextFrame 5 IH by (simp add: run poll frames upstream_result_plain(1) split_beta)
    qed (use NextFrame in \<open>simp_all add: run poll frames upstream_result_simps\<close>)
  next
    case NextEnd
    then show ?thesis by (simp add: run poll run_frames.simps [of s] upstream_result_simps)
  next
    case (NextErr e)
    then show ?thesis by (simp add: run poll run_frames.simps [of s] upstream_result_simps)
  qed
qed

lemma upstream_result_complete: "snd (upstream_result parse fs e) = None \<Longrightarrow> \<exists>f \<in> set fs. from_utf8 f \<and> final_frame parse f"
proof (cases "dropWhile (\<lambda>f. from_utf8 f \<and> \<not> final_frame parse f) fs")
  case (Cons f rest)
  then have "f \<in> set fs" by (metis list.set_intros(1) set_dropWhileD)
  moreover have "\<not> (from_utf8 f \<and> \<not> final_frame parse f)" using Cons by (simp add: dropWhile_eq_Cons_conv)
  ultimately show ?thesis if "snd (upstream_result parse fs e) = None"
    using that Cons by (auto simp: upstream_result_def Let_def split: if_splits)
qed (auto simp: upstream_result_def Let_def)

text \<open>
  Property C12. The reader of an upstream event stream gives, for every chunking of the bytes, the data of the events in
  order up to the first that ends the stream, and nothing after it. It ends without error only when such an event
  (\<open>[DONE]\<close>, an error or a completion) has arrived: a truncated stream is never taken for a complete one.
\<close>

theorem upstream_stream_exact:
  assumes "upstream_sse (Ok r) limit = Ok st" "0 < limit"
    and "(fs, e) = frames_spec limit (source_tail (dr_body r)) (source_bytes (dr_body r))"
  shows "run_upstream parse st = upstream_result parse fs e
    \<and> (snd (run_upstream parse st) = None \<longrightarrow> (\<exists>f \<in> set fs. from_utf8 f \<and> final_frame parse f))"
proof -
  have "st = (frames (dr_body r) limit, False)"
    using assms(1) by (auto simp: upstream_sse_def and_then_def split: if_splits)
  then have "run_upstream parse st = upstream_result parse fs e"
    using run_upstream_frames [of parse "frames (dr_body r) limit"] run_frames_bytes [OF assms(2)] assms(3)
    by (metis fst_conv snd_conv)
  then show ?thesis using upstream_result_complete by metis
qed

section \<open>Examples\<close>

text \<open>A JSON library that numbers the values: it shows that the laws the gateway relies on can hold.\<close>

instance json_number :: countable
  by countable_datatype

instance json :: countable
  by countable_datatype

definition ex_json_lib :: json_lib where
  "ex_json_lib = \<lparr>jl_parse = (\<lambda>s. Some (from_nat (length s))), jl_to_vec = (\<lambda>v. replicate (to_nat v) (CHR ''x'')),
     jl_json_mime = (\<lambda>ct. ct = ''application/json'')\<rparr>"

lemma ex_json_lib_laws: "one_line (jl_to_vec ex_json_lib)" "prints_back ex_json_lib"
  by (simp_all add: ex_json_lib_def one_line_def prints_back_def)

definition ex_stream :: "byte_stream down_response" where
  "ex_stream = \<lparr>dr_status = 200, dr_headers = [(''content-type'', ''text/event-stream'')], dr_upstream_status = None,
     dr_body = [Inr (''data: 1'' @ [CR]), Inr ([LF, CR, LF] @ ''data: [DONE]'' @ [LF]), Inr [LF]]\<rparr>"

definition ex_active :: "heartbeat_mode \<Rightarrow> heartbeat_active" where
  "ex_active mode = \<lparr>ha_config = default_heartbeat_config\<lparr>hc_early_sse := True\<rparr>, ha_mode = mode\<rparr>"

lemma ex_frames:
  "frames_spec 262144 (source_tail (dr_body ex_stream)) (source_bytes (dr_body ex_stream))
     = ([''data: 1'' @ [CR, LF, CR, LF], ''data: [DONE]'' @ [LF, LF]], None)"
proof -
  have "split_frame True (source_bytes (dr_body ex_stream)) = Some (''data: 1'' @ [CR, LF, CR, LF], ''data: [DONE]'' @ [LF, LF])"
      "split_frame True (''data: [DONE]'' @ [LF, LF]) = Some (''data: [DONE]'' @ [LF, LF], [])"
    by code_simp+
  moreover have "source_tail (dr_body ex_stream) = None" by (simp add: ex_stream_def)
  ultimately show ?thesis by (simp add: frames_spec_frame frames_spec.simps [of _ _ "[]"])
qed

theorem frames_any_chunking_witness:
  "run_frames (frames (dr_body ex_stream) 262144) = ([''data: 1'' @ [CR, LF, CR, LF], ''data: [DONE]'' @ [LF, LF]], None)"
proof -
  obtain fs e where run: "run_frames (frames (dr_body ex_stream) 262144) = (fs, e)" by fastforce
  show ?thesis using frames_any_chunking [OF _ run] run ex_frames by simp
qed

theorem heartbeats_keep_frames_witness:
  "\<exists>reply. respond_heartbeat True (Ok ex_stream) (ex_active ModeSse) = Ok reply
     \<and> filter (\<lambda>f. f \<noteq> heartbeat ModeSse) (frames_of (reply_bytes ex_json_lib (ex_active ModeSse)
          ([(True, False), (False, True)] @ replicate 4 (False, False)) reply))
       = [''data: 1'' @ [CR, LF, CR, LF], ''data: [DONE]'' @ [LF, LF]]"
proof -
  let ?active = "ex_active ModeSse" and ?sched = "[(True, False), (False, True)] @ replicate 4 (False, False)"
  obtain reply where reply: "respond_heartbeat True (Ok ex_stream) ?active = Ok reply"
    by (simp add: respond_heartbeat_def ex_active_def)
  have ct: "header_str (dr_headers ex_stream) ''content-type'' = Some ''text/event-stream''" "starts_with ''text/event-stream'' ''text/event-stream''"
    by code_simp+
  have ok: "ha_mode ?active = ModeSse" "success_status (dr_status ex_stream)" "validate_heartbeat (ha_config ?active)"
    by (simp_all add: ex_active_def ex_stream_def success_status_def validate_heartbeat_def default_heartbeat_config_def)
  have limit: "hc_max_frame_bytes (ha_config ?active) = 262144" by (simp add: ex_active_def default_heartbeat_config_def)
  have ready: "Suc 2 < length (filter (\<lambda>(a, b). \<not> a \<and> \<not> b) ?sched)" by code_simp
  have plain: "filter (\<lambda>f. f \<noteq> heartbeat ModeSse) [''data: 1'' @ [CR, LF, CR, LF], ''data: [DONE]'' @ [LF, LF]]
      = [''data: 1'' @ [CR, LF, CR, LF], ''data: [DONE]'' @ [LF, LF]]" by code_simp
  note kept = heartbeats_keep_frames [OF reply ok(1,2) ct ok(3) ex_json_lib_laws(1) ex_frames [folded limit, symmetric] refl refl, of ?sched]
  show ?thesis using kept ready reply plain by (auto simp: numeral_2_eq_2)
qed



theorem upstream_stream_exact_witness:
  "\<exists>st. upstream_sse (Ok ex_stream) 262144 = Ok st \<and> run_upstream (\<lambda>_. None) st = ([''1''], None)"
proof -
  have "is_sse_response (dr_headers ex_stream)" by code_simp
  then obtain st where st: "upstream_sse (Ok ex_stream) 262144 = Ok st"
    by (simp add: upstream_sse_def and_then_def ex_stream_def success_status_def)
  have "upstream_result (\<lambda>_. None) [''data: 1'' @ [CR, LF, CR, LF], ''data: [DONE]'' @ [LF, LF]] None = ([''1''], None)"
    by code_simp
  then show ?thesis using upstream_stream_exact [OF st _ ex_frames [symmetric], of "\<lambda>_. None"] st by auto
qed

end
