(* ===== verification/Spec2Isabelle.thy ===== *)
theory Spec2Isabelle
  imports Sse_Framing Mcp_Transport In_Flight Client_Ip Identity_Rate Singleflight Tool_Gates Agent_Events Agent_Log Heartbeat
begin

text \<open>
  Verification of the Alephant AI agent gateway (crate \<open>ai-gateway\<close>; paths below are relative to
  \<open>src/ai-gateway/src/\<close>).

  \<^bold>\<open>The program.\<close> The gateway stands between clients and model providers and, for agents, between an agent and the tools it
  calls. A request passes the limiters of the tower stack, is authenticated and then goes to a provider, to the tool
  service or to the event service. The tool service lists the tools of a caller and executes calls; an execution talks
  to a mock, an HTTP server, an MCP server (stateless, over streamable HTTP with cached sessions, or over an event
  stream) or an OpenAPI service, is billed by a rate card and leaves two audit events. The event service takes what agent
  frameworks report, asks the policy service about announced actions and writes records to the log. Answers of
  providers pass to the client through a body that may send heartbeats.

  \<^bold>\<open>Style.\<close> The model is a shallow embedding, in the order of the sources. Strings are lists of bytes (\<open>char list\<close>),
  \<open>Result\<close> is a sum with \<open>Err\<close> and \<open>Ok\<close>, JSON is a datatype whose objects are association lists in insertion order
  (serde_json with \<open>preserve_order\<close>), \<open>usize\<close> and \<open>u64\<close> are \<open>nat\<close> with the bounds written out where the code wraps,
  saturates or checks, floating-point numbers are their 64-bit words, and UUIDs are numbers. State is passed
  explicitly. Handlers return the list of their effects in order. Executors are programs over an environment that
  answers each \<open>await\<close> and a world that records the trace. Concurrent code is an inductive step relation.

  \<^bold>\<open>Foundations.\<close>
  \<^item> \<open>Gateway_Prelude\<close>, \<open>Rust_Str\<close>: results, machine arithmetic, bytes; the string operations of the Rust library with
    UTF-8, white space, lines and numbers.
  \<^item> \<open>Json\<close>, \<open>Json_Update\<close>: \<open>serde_json::Value\<close> with access, pointers and update, and their laws.
  \<^item> \<open>Agent_Io\<close>: programs with effects and a Hoare logic for normal end, failure and dropped futures.

  \<^bold>\<open>Limiters.\<close>
  \<^item> \<open>Slots\<close>: the counters of requests in flight, in process and in Redis (\<open>middleware/gateway_in_flight_limit\<close>), and the
    body that releases its slot (\<open>middleware/counted_body.rs\<close>). The locale \<open>slot_store\<close> states the contract; it is
    interpreted on both counters here and on the permits of a workspace in \<open>Tool_Replies\<close>.
  \<^item> \<open>In_Flight\<close>: the layer with failover and recovery as a transition system over all requests, and the counter of
    \<open>middleware/workspace_concurrency\<close>. Shown: the slots in use never exceed the maximum of the in-process store; which
    slots and counts leak.
  \<^item> \<open>Client_Ip\<close>: \<open>middleware/client_ip_rate_limit\<close>. The locale \<open>sliding_log\<close> is interpreted on the in-process deques
    and on the Redis script. Shown: both accept what the ideal log accepts, the in-process one as long as no address is
    evicted from its table; a peer outside the trusted networks is counted under its own address.
  \<^item> \<open>Identity_Rate\<close>: \<open>middleware/identity_rate_limit.rs\<close> and its script in \<open>app_redis.rs\<close>. The locale \<open>fixed_window\<close>
    is interpreted on both backends. Shown: both are ideal fixed windows; the advice to retry is sound.

  \<^bold>\<open>Tools.\<close>
  \<^item> \<open>Tool_Types\<close>, \<open>Target_Hash\<close>: configuration, requests, responses and bills (\<open>config/agent.rs\<close>,
    \<open>agent/tools/types.rs\<close>), hashes of targets and the context of an execution. Shown: equal session keys mean equal
    caller and target.
  \<^item> \<open>Egress\<close>: \<open>agent/tools/egress_policy.rs\<close> and the message endpoint of \<open>mcp_sse/endpoint.rs\<close>, on machine words. Shown:
    what the default policy admits, exactly; an endpoint stays on its origin.
  \<^item> \<open>Sse\<close>, \<open>Sse_Framing\<close>, \<open>Mcp_Transport\<close>: the event-stream parser and the transports of MCP. The locale \<open>sse_framing\<close>
    is interpreted for LF and CRLF. Shown: the result does not depend on the chunks for uniform line ends within the
    limits; the bounded reader of bodies is exact.
  \<^item> \<open>Mcp_Session\<close>, \<open>Singleflight\<close>: session keys, eviction and the Redis lock; \<open>get_or_try_init\<close> as a transition
    system. Shown: the lock covers the lifecycle of its holder; one initialiser per key, and every caller returns.
  \<^item> \<open>Mcp_Lifecycle\<close>, \<open>Mcp_Lifecycle_Props\<close>, \<open>Mcp_Sse_Lifecycle\<close>: the lifecycles of \<open>mcp_streamable_http\<close> and \<open>mcp_sse\<close>.
    Shown: a tool is called again only after a 404, locks are released, sessions are kept apart, requests go to checked
    URLs only, bills are fair.
  \<^item> \<open>Openapi_Mapping\<close>, \<open>Openapi_Executor\<close>, \<open>Upstream_Outcome\<close>: the OpenAPI executor and the classification of failures in
    successful answers (\<open>dispatcher/upstream_outcome.rs\<close>). Shown: the path is the template with each placeholder
    replaced once; at most one request, billed by its answer.
  \<^item> \<open>Tool_Executors\<close>: the remaining executors and the dispatch on the kind of the target, with one contract for all.
  \<^item> \<open>Tool_Catalog\<close>, \<open>Agent_Policy\<close>, \<open>Tool_Audit\<close>, \<open>Tool_Replies\<close>, \<open>Tool_Service\<close>, \<open>Tool_Gates\<close>: the catalogue, the policy
    gate, the audit events and the service. Shown: a tool is contacted exactly when every gate admits the call; reply,
    bill and audit trail agree; the list of the tools agrees with what can be called.

  \<^bold>\<open>Events.\<close>
  \<^item> \<open>Agent_Context\<close>, \<open>Event_Adapter\<close>, \<open>Step_State\<close>, \<open>Agent_Events\<close>: identities and names, the adapters of the
    frameworks, the state of steps, redaction, and the event service. Shown: which claims of a client count, what the
    gate covers and what it does not, what is attested, how a batch fails, that redaction is exact.
  \<^item> \<open>Agent_Log\<close>: the record of an event and its way to the log. Shown: when the sink may report success, and that the
    record of a tool call states its bill.
  \<^item> This theory: the event service over the real sink.

  \<^bold>\<open>Answers.\<close> \<open>Heartbeat\<close>: \<open>dispatcher/downstream_heartbeat.rs\<close>. Shown: frames do not depend on chunks, heartbeats
  never split or change one, the document of the JSON mode, and the exactness of the upstream reader.

  \<^bold>\<open>Parameters and hypotheses.\<close> serde, the url, http, mime and reqwest crates, SHA-256, the clock, random identifiers,
  the policy service, the audit sink and the payload validation are arguments of the definitions. Redis is modelled by
  the values and expiry times of its keys; a key is gone once the clock has passed its expiry. Hypotheses on parameters
  state what is documented: a SHA-256 digest prints as 64 hexadecimal digits and does not collide where keys are
  compared, a URL parser gives the parts it parsed, a JSON printer prints one line, and shallow objects of ASCII texts
  and integers are parsed back. Each hypothesis is shown to be satisfiable by an instance.

  \<^bold>\<open>Bounds and fuel.\<close> Recursive functions are total. Fuel occurs in two places. The loop that waits for a session lock
  gets one round more than the deadline, which is counted in awaits; every round awaits, and a lemma shows that
  the loop never ends for lack of fuel. The search for a free framework name gets a number of salts, and the theorem on the
  catalogue says when they are enough. Deadlines are positions in the sequence of awaits and hold for every choice, so
  no theorem depends on the length of a pause.

  \<^bold>\<open>Not modelled.\<close> Routing, dispatch to providers, the conversion of provider formats, prompt rewriting, discovery,
  balancing, the stores, the request logger, payments, content filter, caches, start-up and telemetry: they are I/O on
  external services or work on the types of third-party SDKs. The runtime snapshots of tools and the local policy
  evaluator are not used by any handler. Within the modelled parts the following is left out: log lines and metrics,
  poisoned mutexes, panics of \<open>chrono\<close> for absurd TTLs, wrap-around of 32-bit positions in a batch, the durations of
  pauses, and the case that Redis does not execute the release of a lock, after which the key lives until its TTL ends.
\<close>

section \<open>From the report of an event to its record in the log\<close>



end
